(* ===== verification/Prelude.thy ===== *)
theory Prelude
  imports Main "HOL-Library.Word" "HOL-Library.Monad_Syntax"
begin

text \<open>
  Shared vocabulary of the development.
  Bytes are 8-bit words and a Rust \<^verbatim>\<open>Vec<u8>\<close>, slice or fixed array is a list of bytes; the length
  of a fixed array is stated where it matters.  A Rust \<^verbatim>\<open>str\<close> is the list of its UTF-8 code
  units, so that \<^verbatim>\<open>str::len\<close> is list length and \<open>str_bytes\<close> is \<^verbatim>\<open>str::as_bytes\<close>.
  A \<^verbatim>\<open>Result\<close> is a sum with the error on the left; a panic is the value \<^term>\<open>None\<close>.
  Effectful code is a function of type \<open>('w, 'e, 'a) io\<close>: it may panic, and otherwise returns a
  \<^verbatim>\<open>Result\<close> and the new world.
\<close>

type_synonym byte = "8 word"

named_theorems res_simps \<open>evaluation of the Result, panic and effect combinators\<close>
named_theorems byte_simps \<open>lengths and contents of byte strings\<close>

subsection \<open>Results\<close>

definition bind_res :: "'e + 'a \<Rightarrow> ('a \<Rightarrow> 'e + 'b) \<Rightarrow> 'e + 'b" where
  "bind_res m f = (case m of Inl e \<Rightarrow> Inl e | Inr a \<Rightarrow> f a)"

definition map_err :: "('e \<Rightarrow> 'f) \<Rightarrow> 'e + 'a \<Rightarrow> 'f + 'a" where
  "map_err f m = (case m of Inl e \<Rightarrow> Inl (f e) | Inr a \<Rightarrow> Inr a)"

definition ok_or :: "'e \<Rightarrow> 'a option \<Rightarrow> 'e + 'a" where
  "ok_or e m = (case m of None \<Rightarrow> Inl e | Some a \<Rightarrow> Inr a)"

definition is_ok :: "'e + 'a \<Rightarrow> bool" where
  "is_ok m = (case m of Inl _ \<Rightarrow> False | Inr _ \<Rightarrow> True)"

lemma bind_res_simps [simp, res_simps]:
  "bind_res (Inl e) f = Inl e"
  "bind_res (Inr a) f = f a"
  by (simp_all add: bind_res_def)

lemma map_err_simps [simp, res_simps]:
  "map_err g (Inl e) = Inl (g e)"
  "map_err g (Inr a) = Inr a"
  by (simp_all add: map_err_def)

lemma ok_or_simps [simp, res_simps]:
  "ok_or e None = Inl e"
  "ok_or e (Some a) = Inr a"
  by (simp_all add: ok_or_def)

lemma is_ok_simps [simp, res_simps]:
  "\<not> is_ok (Inl e)"
  "is_ok (Inr a)"
  by (simp_all add: is_ok_def)

lemma bind_res_return [simp]: "bind_res m Inr = m"
  by (cases m) simp_all

lemma is_ok_iff: "is_ok m \<longleftrightarrow> (\<exists>a. m = Inr a)"
  by (cases m) simp_all

lemma bind_res_Inr_iff:
  "bind_res m f = Inr b \<longleftrightarrow> (\<exists>a. m = Inr a \<and> f a = Inr b)"
  by (cases m) simp_all

lemma bind_res_Inl_iff:
  "bind_res m f = Inl e \<longleftrightarrow> m = Inl e \<or> (\<exists>a. m = Inr a \<and> f a = Inl e)"
  by (cases m) simp_all

lemma map_err_Inr_iff: "map_err g m = Inr a \<longleftrightarrow> m = Inr a"
  by (cases m) simp_all

lemma map_err_Inl_iff: "map_err g m = Inl f \<longleftrightarrow> (\<exists>e. m = Inl e \<and> f = g e)"
  by (cases m) auto

lemma ok_or_Inr_iff: "ok_or e m = Inr a \<longleftrightarrow> m = Some a"
  by (cases m) simp_all

lemma ok_or_Inl_iff: "ok_or e m = Inl f \<longleftrightarrow> m = None \<and> f = e"
  by (cases m) auto

lemmas res_iffs = bind_res_Inr_iff bind_res_Inl_iff map_err_Inr_iff map_err_Inl_iff
  ok_or_Inr_iff ok_or_Inl_iff

subsection \<open>Effects: panic, Result, world\<close>

type_synonym ('w, 'e, 'a) io = "'w \<Rightarrow> (('e + 'a) \<times> 'w) option"

definition io_ok :: "'a \<Rightarrow> ('w, 'e, 'a) io" where
  "io_ok a w = Some (Inr a, w)"

definition io_err :: "'e \<Rightarrow> ('w, 'e, 'a) io" where
  "io_err e w = Some (Inl e, w)"

definition io_bind :: "('w, 'e, 'a) io \<Rightarrow> ('a \<Rightarrow> ('w, 'e, 'b) io) \<Rightarrow> ('w, 'e, 'b) io" where
  "io_bind m f w =
     (case m w of
        None \<Rightarrow> None
      | Some (Inl e, w') \<Rightarrow> Some (Inl e, w')
      | Some (Inr a, w') \<Rightarrow> f a w')"

text \<open>\<open>io_try\<close> hands the whole \<^verbatim>\<open>Result\<close> to the continuation (a \<^verbatim>\<open>match\<close> on it).\<close>

definition io_try :: "('w, 'e, 'a) io \<Rightarrow> ('e + 'a \<Rightarrow> ('w, 'f, 'b) io) \<Rightarrow> ('w, 'f, 'b) io" where
  "io_try m f w = (case m w of None \<Rightarrow> None | Some (r, w') \<Rightarrow> f r w')"

definition io_map_err :: "('e \<Rightarrow> 'f) \<Rightarrow> ('w, 'e, 'a) io \<Rightarrow> ('w, 'f, 'a) io" where
  "io_map_err g m w = (case m w of None \<Rightarrow> None | Some (r, w') \<Rightarrow> Some (map_err g r, w'))"

definition io_res :: "'e + 'a \<Rightarrow> ('w, 'e, 'a) io" where
  "io_res r w = Some (r, w)"

text \<open>A pure computation that may panic, lifted to an effect.\<close>

definition io_pure :: "('e + 'a) option \<Rightarrow> ('w, 'e, 'a) io" where
  "io_pure m w = (case m of None \<Rightarrow> None | Some r \<Rightarrow> Some (r, w))"

text \<open>A total step that cannot fail, and one that answers a \<^verbatim>\<open>Result\<close>.\<close>

type_synonym ('w, 'a) act = "'w \<Rightarrow> 'a \<times> 'w"

definition io_probe :: "('w, 'a) act \<Rightarrow> ('w, 'e, 'a) io" where
  "io_probe m w = (case m w of (a, w') \<Rightarrow> Some (Inr a, w'))"

definition io_act :: "('w, 'e + 'a) act \<Rightarrow> ('w, 'e, 'a) io" where
  "io_act m w = Some (m w)"

definition io_get :: "('w \<Rightarrow> 'a) \<Rightarrow> ('w, 'e, 'a) io" where
  "io_get f w = Some (Inr (f w), w)"

lemma io_simps [simp, res_simps]:
  "io_ok a w = Some (Inr a, w)"
  "io_err e w = Some (Inl e, w)"
  "io_res r w = Some (r, w)"
  "io_pure (Some r) w = Some (r, w)"
  "io_pure None w = None"
  "io_get f w = Some (Inr (f w), w)"
  by (simp_all add: io_ok_def io_err_def io_res_def io_pure_def io_get_def)

lemma io_probe_act_simps [simp, res_simps]:
  "io_probe m w = Some (Inr (fst (m w)), snd (m w))"
  "io_act n w = Some (n w)"
  by (simp_all add: io_probe_def io_act_def split: prod.splits)

lemma io_bind_eval [res_simps]:
  "m w = None \<Longrightarrow> io_bind m f w = None"
  "m w = Some (Inl e, w') \<Longrightarrow> io_bind m f w = Some (Inl e, w')"
  "m w = Some (Inr a, w') \<Longrightarrow> io_bind m f w = f a w'"
  by (simp_all add: io_bind_def)

lemma io_try_eval [res_simps]:
  "m w = None \<Longrightarrow> io_try m g w = None"
  "m w = Some (r, w') \<Longrightarrow> io_try m g w = g r w'"
  by (simp_all add: io_try_def)

lemma io_map_err_eval [res_simps]:
  "m w = None \<Longrightarrow> io_map_err g m w = None"
  "m w = Some (r, w') \<Longrightarrow> io_map_err g m w = Some (map_err g r, w')"
  by (simp_all add: io_map_err_def)

lemma io_bind_Inr_iff:
  "io_bind m f w = Some (Inr b, w'') \<longleftrightarrow>
     (\<exists>a w'. m w = Some (Inr a, w') \<and> f a w' = Some (Inr b, w''))"
  by (auto simp: io_bind_def split: option.splits sum.splits)

lemma io_bind_Some_iff:
  "io_bind m f w = Some (r, w'') \<longleftrightarrow>
     (\<exists>e. m w = Some (Inl e, w'') \<and> r = Inl e) \<or>
     (\<exists>a w'. m w = Some (Inr a, w') \<and> f a w' = Some (r, w''))"
  by (auto simp: io_bind_def split: option.splits sum.splits)

lemma io_bind_None_iff:
  "io_bind m f w = None \<longleftrightarrow>
     m w = None \<or> (\<exists>a w'. m w = Some (Inr a, w') \<and> f a w' = None)"
  by (auto simp: io_bind_def split: option.splits sum.splits)

lemma io_try_Some_iff:
  "io_try m f w = Some (r, w'') \<longleftrightarrow> (\<exists>q w'. m w = Some (q, w') \<and> f q w' = Some (r, w''))"
  by (auto simp: io_try_def split: option.splits)

lemma io_try_None_iff:
  "io_try m f w = None \<longleftrightarrow> m w = None \<or> (\<exists>q w'. m w = Some (q, w') \<and> f q w' = None)"
  by (auto simp: io_try_def split: option.splits)

lemma io_map_err_Some_iff:
  "io_map_err g m w = Some (r, w') \<longleftrightarrow> (\<exists>q. m w = Some (q, w') \<and> r = map_err g q)"
  by (auto simp: io_map_err_def split: option.splits)

lemma io_map_err_None_iff: "io_map_err g m w = None \<longleftrightarrow> m w = None"
  by (auto simp: io_map_err_def split: option.splits)

lemma io_map_err_ok [simp]: "io_map_err f (io_ok a) = io_ok a"
  by (rule ext) (simp add: io_map_err_def)

lemma io_map_err_bind: "io_map_err f (io_bind m g) = io_bind (io_map_err f m) (\<lambda>a. io_map_err f (g a))"
  by (rule ext) (auto simp: io_map_err_def io_bind_def split: option.splits sum.splits)

lemmas io_iffs = io_bind_Some_iff io_bind_None_iff io_try_Some_iff io_try_None_iff
  io_map_err_Some_iff io_map_err_None_iff

subsection \<open>Strings as bytes\<close>

definition str_bytes :: "string \<Rightarrow> byte list" where
  "str_bytes s = map of_char s"

lemma of_char_byte_inject: "(of_char c :: byte) = of_char d \<longleftrightarrow> c = d"
proof
  have nat: "unat (of_char x :: byte) = of_char x" for x
  proof -
    have "(of_char x :: byte) = word_of_nat (of_char x)"
      by (simp add: of_char_def)
    then show ?thesis
      by (simp add: unat_of_nat nat_of_char_less_256 take_bit_nat_eq_self)
  qed
  assume "(of_char c :: byte) = of_char d"
  then have "unat (of_char c :: byte) = unat (of_char d :: byte)" by simp
  then show "c = d" by (simp add: nat)
qed simp

lemma str_bytes_inject [simp]: "str_bytes s = str_bytes t \<longleftrightarrow> s = t"
  by (auto simp: str_bytes_def inj_map_eq_map inj_def of_char_byte_inject)

lemma length_str_bytes [simp, byte_simps]: "length (str_bytes s) = length s"
  by (simp add: str_bytes_def)

lemma str_bytes_append [simp]: "str_bytes (s @ t) = str_bytes s @ str_bytes t"
  by (simp add: str_bytes_def)

lemma str_bytes_Nil [simp]: "str_bytes [] = []" "str_bytes s = [] \<longleftrightarrow> s = []"
  by (simp_all add: str_bytes_def)

subsection \<open>Big-endian integers\<close>

fun be_bytes :: "nat \<Rightarrow> nat \<Rightarrow> byte list" where
  "be_bytes 0 x = []"
| "be_bytes (Suc n) x = be_bytes n (x div 256) @ [of_nat (x mod 256)]"

definition be_val :: "byte list \<Rightarrow> nat" where
  "be_val bs = foldl (\<lambda>v b. 256 * v + unat b) 0 bs"

lemma length_be_bytes [simp, byte_simps]: "length (be_bytes n x) = n"
  by (induction n x rule: be_bytes.induct) simp_all

lemma be_val_Nil [simp]: "be_val [] = 0"
  by (simp add: be_val_def)

lemma be_val_snoc [simp]: "be_val (bs @ [b]) = 256 * be_val bs + unat b"
  by (simp add: be_val_def)

lemma unat_of_nat_byte: "unat (of_nat (x mod 256) :: byte) = x mod 256"
  by (simp add: unat_of_nat take_bit_eq_mod)

lemma be_val_be_bytes: "x < 256 ^ n \<Longrightarrow> be_val (be_bytes n x) = x"
proof (induction n x rule: be_bytes.induct)
  case (1 x)
  then show ?case by simp
next
  case (2 n x)
  then have "x div 256 < 256 ^ n"
    by (simp add: less_mult_imp_div_less mult.commute)
  with 2 show ?case by (simp add: unat_of_nat_byte)
qed

lemma be_bytes_inject:
  "x < 256 ^ n \<Longrightarrow> y < 256 ^ n \<Longrightarrow> be_bytes n x = be_bytes n y \<longleftrightarrow> x = y"
  by (metis be_val_be_bytes)

lemma be_val_less: "be_val bs < 256 ^ length bs"
proof (induction bs rule: rev_induct)
  case Nil
  then show ?case by simp
next
  case (snoc b bs)
  have "unat b < 256" using unsigned_less [of b, where ?'a = nat] by simp
  with snoc show ?case by simp
qed

lemma be_bytes_be_val: "be_bytes (length bs) (be_val bs) = bs"
proof (induction bs rule: rev_induct)
  case Nil
  then show ?case by simp
next
  case (snoc b bs)
  have b: "unat b < 256" using unsigned_less [of b, where ?'a = nat] by simp
  then have "(256 * be_val bs + unat b) div 256 = be_val bs" by simp
  moreover from b have "(256 * be_val bs + unat b) mod 256 = unat b" by simp
  ultimately show ?case using snoc by simp
qed

lemma be_bytes_unat_inject:
  fixes x y :: "'a::len word"
  assumes "2 ^ LENGTH('a) \<le> (256::nat) ^ n"
  shows "be_bytes n (unat x) = be_bytes n (unat y) \<longleftrightarrow> x = y"
proof -
  have "unat x < 256 ^ n" "unat y < 256 ^ n"
    using assms unsigned_less [of x, where ?'a = nat] unsigned_less [of y, where ?'a = nat] by linarith+
  then show ?thesis by (simp add: be_bytes_inject word_unat_eq_iff)
qed

text \<open>\<^verbatim>\<open>to_be_bytes\<close> of \<^verbatim>\<open>u16\<close>, \<^verbatim>\<open>u32\<close> and \<^verbatim>\<open>u64\<close>.\<close>

definition u16_be :: "16 word \<Rightarrow> byte list" where
  "u16_be x = be_bytes 2 (unat x)"

definition u32_be :: "32 word \<Rightarrow> byte list" where
  "u32_be x = be_bytes 4 (unat x)"

definition u64_be :: "64 word \<Rightarrow> byte list" where
  "u64_be x = be_bytes 8 (unat x)"

lemma length_word_be [simp, byte_simps]:
  "length (u16_be a) = 2" "length (u32_be b) = 4" "length (u64_be c) = 8"
  by (simp_all add: u16_be_def u32_be_def u64_be_def)

lemma word_be_inject [simp]:
  "u16_be a = u16_be a' \<longleftrightarrow> a = a'"
  "u32_be b = u32_be b' \<longleftrightarrow> b = b'"
  "u64_be c = u64_be c' \<longleftrightarrow> c = c'"
  by (simp_all add: u16_be_def u32_be_def u64_be_def be_bytes_unat_inject)

lemma word_be_of_nat:
  "n < 2 ^ 16 \<Longrightarrow> u16_be (of_nat n) = be_bytes 2 n"
  "n < 2 ^ 32 \<Longrightarrow> u32_be (of_nat n) = be_bytes 4 n"
  "n < 2 ^ 64 \<Longrightarrow> u64_be (of_nat n) = be_bytes 8 n"
  by (simp_all add: u16_be_def u32_be_def u64_be_def unat_of_nat take_bit_eq_mod)

lemma u16_be_1 [simp]: "u16_be 1 = [0, 1]"
  by code_simp

text \<open>\<^verbatim>\<open>u16::try_from(usize)\<close> and \<^verbatim>\<open>u32::try_from(usize)\<close>.\<close>

definition u16_try_from :: "nat \<Rightarrow> 16 word option" where
  "u16_try_from n = (if n < 2 ^ 16 then Some (of_nat n) else None)"

definition u32_try_from :: "nat \<Rightarrow> 32 word option" where
  "u32_try_from n = (if n < 2 ^ 32 then Some (of_nat n) else None)"

lemma u16_try_from_Some_iff: "u16_try_from n = Some w \<longleftrightarrow> n < 2 ^ 16 \<and> unat w = n"
  by (auto simp: u16_try_from_def unat_of_nat take_bit_eq_mod)

lemma u32_try_from_Some_iff: "u32_try_from n = Some w \<longleftrightarrow> n < 2 ^ 32 \<and> unat w = n"
  by (auto simp: u32_try_from_def unat_of_nat take_bit_eq_mod)

text \<open>\<^verbatim>\<open>slice.try_into()\<close> to an array of \<open>n\<close> bytes.\<close>

definition try_into_array :: "nat \<Rightarrow> 'a list \<Rightarrow> 'a list option" where
  "try_into_array n xs = (if length xs = n then Some xs else None)"

lemma try_into_array_Some_iff [simp]:
  "try_into_array n xs = Some ys \<longleftrightarrow> length xs = n \<and> ys = xs"
  by (auto simp: try_into_array_def)

lemma try_into_array_eval [simp]: "length xs = n \<Longrightarrow> try_into_array n xs = Some xs"
  by (simp add: try_into_array_def)

text \<open>
  \<^verbatim>\<open>dst[from..to].copy_from_slice(src)\<close>: a panic when the range is out of bounds or the lengths
  differ.
\<close>

definition copy_at :: "nat \<Rightarrow> nat \<Rightarrow> 'a list \<Rightarrow> 'a list \<Rightarrow> 'a list option" where
  "copy_at from to src dst =
     (if from \<le> to \<and> to \<le> length dst \<and> length src = to - from
      then Some (take from dst @ src @ drop to dst) else None)"

subsection \<open>Checked arithmetic\<close>

text \<open>\<^verbatim>\<open>u64::checked_sub\<close>, \<^verbatim>\<open>checked_add\<close>, \<^verbatim>\<open>checked_mul\<close> and \<^verbatim>\<open>usize::checked_mul\<close>.\<close>

definition checked_sub :: "'a::len word \<Rightarrow> 'a word \<Rightarrow> 'a word option" where
  "checked_sub x y = (if unat y \<le> unat x then Some (x - y) else None)"

definition checked_add :: "'a::len word \<Rightarrow> 'a word \<Rightarrow> 'a word option" where
  "checked_add x y = (if unat x + unat y < 2 ^ LENGTH('a) then Some (x + y) else None)"

definition checked_mul :: "'a::len word \<Rightarrow> 'a word \<Rightarrow> 'a word option" where
  "checked_mul x y = (if unat x * unat y < 2 ^ LENGTH('a) then Some (x * y) else None)"

definition usize_checked_mul :: "nat \<Rightarrow> nat \<Rightarrow> nat option" where
  "usize_checked_mul x y = (if x * y < 2 ^ 64 then Some (x * y) else None)"

lemma unat_minus_le: "unat y \<le> unat x \<Longrightarrow> unat (x - y) = unat x - unat y"
  for x y :: "'a::len word"
  by (rule unat_sub) (simp add: word_le_nat_alt)

lemma checked_sub_Some_iff:
  "checked_sub x y = Some z \<longleftrightarrow> unat y \<le> unat x \<and> unat z = unat x - unat y"
  by (auto simp: checked_sub_def unat_minus_le word_unat_eq_iff)

lemma checked_mul_Some_iff:
  "checked_mul x y = Some z \<longleftrightarrow> unat x * unat y < 2 ^ LENGTH('a) \<and> unat z = unat x * unat y"
  for x y z :: "'a::len word"
  by (auto simp: checked_mul_def word_unat_eq_iff unat_word_ariths)

lemma checked_add_Some_iff:
  "checked_add x y = Some z \<longleftrightarrow> unat x + unat y < 2 ^ LENGTH('a) \<and> unat z = unat x + unat y"
  for x y z :: "'a::len word"
  by (auto simp: checked_add_def word_unat_eq_iff unat_word_ariths)

lemma unat_u64_less [simp]: "unat (x :: 64 word) < 18446744073709551616"
  using unsigned_less [of x, where ?'a = nat] by simp

lemma unat_word_div: "unat (x div y) = unat x div unat y" for x y :: "'a::len word"
  by (rule unat_div)

subsection \<open>Decimal and hexadecimal formatting\<close>

definition digit_char :: "nat \<Rightarrow> char" where
  "digit_char d = (if d < 10 then char_of (48 + d) else char_of (87 + d))"

fun show_nat :: "nat \<Rightarrow> string" where
  "show_nat n = (if n < 10 then [digit_char n] else show_nat (n div 10) @ [digit_char (n mod 10)])"

declare show_nat.simps [simp del]

end
