(* ===== verification/Utf8.thy ===== *)
theory Utf8
  imports Prelude
begin

text \<open>
  The parts of Rust's \<^verbatim>\<open>str\<close> that look at characters: \<^verbatim>\<open>str::chars\<close> decodes UTF-8,
  \<^verbatim>\<open>char::is_control\<close> and \<^verbatim>\<open>char::is_whitespace\<close> classify scalar values and \<^verbatim>\<open>str::trim\<close>
  strips white space at both ends.  A decoder answers \<^term>\<open>None\<close> on bytes that are not UTF-8,
  which a Rust \<^verbatim>\<open>str\<close> never holds.
\<close>

definition is_cont :: "nat \<Rightarrow> bool" where
  "is_cont b \<longleftrightarrow> 128 \<le> b \<and> b < 192"

text \<open>The second byte allowed after a given lead byte (no overlong forms, no surrogates).\<close>

definition second_ok :: "nat \<Rightarrow> nat \<Rightarrow> bool" where
  "second_ok a b \<longleftrightarrow> is_cont b
     \<and> (a = 224 \<longrightarrow> 160 \<le> b) \<and> (a = 237 \<longrightarrow> b < 160)
     \<and> (a = 240 \<longrightarrow> 144 \<le> b) \<and> (a = 244 \<longrightarrow> b < 144)"

fun utf8_chars :: "nat list \<Rightarrow> nat list option" where
  "utf8_chars [] = Some []"
| "utf8_chars (a # r) =
     (if a < 128 then map_option ((#) a) (utf8_chars r)
      else if 194 \<le> a \<and> a < 224 then
        (case r of
           b # r' \<Rightarrow>
             if second_ok a b
             then map_option ((#) ((a - 192) * 64 + (b - 128))) (utf8_chars r')
             else None
         | _ \<Rightarrow> None)
      else if 224 \<le> a \<and> a < 240 then
        (case r of
           b # c # r' \<Rightarrow>
             if second_ok a b \<and> is_cont c
             then map_option ((#) ((a - 224) * 4096 + (b - 128) * 64 + (c - 128))) (utf8_chars r')
             else None
         | _ \<Rightarrow> None)
      else if 240 \<le> a \<and> a < 245 then
        (case r of
           b # c # d # r' \<Rightarrow>
             if second_ok a b \<and> is_cont c \<and> is_cont d
             then map_option ((#) ((a - 240) * 262144 + (b - 128) * 4096 + (c - 128) * 64 + (d - 128)))
                    (utf8_chars r')
             else None
         | _ \<Rightarrow> None)
      else None)"

definition str_chars :: "string \<Rightarrow> nat list option" where
  "str_chars s = utf8_chars (map of_char s)"

definition utf8_valid :: "string \<Rightarrow> bool" where
  "utf8_valid s \<longleftrightarrow> str_chars s \<noteq> None"

lemma utf8_chars_ascii: "\<forall>b \<in> set bs. b < 128 \<Longrightarrow> utf8_chars bs = Some bs"
  by (induction bs) auto

definition is_ascii :: "string \<Rightarrow> bool" where
  "is_ascii s \<longleftrightarrow> (\<forall>c \<in> set s. (of_char c :: nat) < 128)"

lemma str_chars_ascii: "is_ascii s \<Longrightarrow> str_chars s = Some (map of_char s)"
  unfolding str_chars_def is_ascii_def by (rule utf8_chars_ascii) auto

lemma utf8_valid_ascii: "is_ascii s \<Longrightarrow> utf8_valid s"
  by (simp add: utf8_valid_def str_chars_ascii)

subsection \<open>Character classes\<close>

text \<open>\<^verbatim>\<open>char::is_control\<close>: general category Cc.\<close>

definition char_is_control :: "nat \<Rightarrow> bool" where
  "char_is_control c \<longleftrightarrow> c < 32 \<or> (127 \<le> c \<and> c < 160)"

text \<open>\<^verbatim>\<open>char::is_whitespace\<close>: the Unicode property White\_Space.\<close>

definition char_is_whitespace :: "nat \<Rightarrow> bool" where
  "char_is_whitespace c \<longleftrightarrow>
     (9 \<le> c \<and> c \<le> 13) \<or> c = 32 \<or> c = 133 \<or> c = 160 \<or> c = 5760
     \<or> (8192 \<le> c \<and> c \<le> 8202) \<or> c = 8232 \<or> c = 8233 \<or> c = 8239 \<or> c = 8287 \<or> c = 12288"

text \<open>The number of UTF-8 bytes of a scalar value.\<close>

definition char_len_utf8 :: "nat \<Rightarrow> nat" where
  "char_len_utf8 c = (if c < 128 then 1 else if c < 2048 then 2 else if c < 65536 then 3 else 4)"

text \<open>\<^verbatim>\<open>str::trim\<close>: drop the bytes of the leading and of the trailing white space.\<close>

definition ws_bytes :: "nat list \<Rightarrow> nat" where
  "ws_bytes cs = sum_list (map char_len_utf8 (takeWhile char_is_whitespace cs))"

definition str_trim :: "string \<Rightarrow> string" where
  "str_trim s =
     (case str_chars s of
        None \<Rightarrow> s
      | Some cs \<Rightarrow>
          if list_all char_is_whitespace cs then []
          else drop (ws_bytes cs) (take (length s - ws_bytes (rev cs)) s))"

end
