(* ===== verification/Crates.thy ===== *)
theory Crates
  imports Utf8
begin

text \<open>
  The third-party crates the program calls, as parameters of the model.  A record field is one
  function of a crate, at the instance the source uses; nothing here says how it works.  The
  locales state the documented behaviour that a property relies on, and \<^verbatim>\<open>RefCrates\<close> shows
  that each can hold.

  A \<^verbatim>\<open>Hkdf\<close> value is the PRK it was built from, a \<^verbatim>\<open>SigningKey\<close> the seed it was built from
  and a cipher the key it was built from.  A crate error is the text its \<^verbatim>\<open>Display\<close> prints.
\<close>

record crates =
  sha256_digest :: "byte list \<Rightarrow> byte list"                     \<comment> \<open>sha2: \<^verbatim>\<open>Sha256::digest\<close>\<close>
  hkdf_extract :: "byte list \<Rightarrow> byte list \<Rightarrow> byte list"          \<comment> \<open>hkdf: salt, input key\<close>
  hkdf_from_prk :: "byte list \<Rightarrow> byte list option"
  hkdf_expand :: "byte list \<Rightarrow> byte list \<Rightarrow> nat \<Rightarrow> byte list option" \<comment> \<open>PRK, info, length\<close>
  ed_verifying_key :: "byte list \<Rightarrow> byte list"                  \<comment> \<open>ed25519-dalek: seed to key bytes\<close>
  ed_sign :: "byte list \<Rightarrow> byte list \<Rightarrow> byte list"               \<comment> \<open>seed, message\<close>
  ed_parse_key :: "byte list \<Rightarrow> bool"                           \<comment> \<open>\<^verbatim>\<open>VerifyingKey::from_bytes\<close> is Ok\<close>
  ed_is_weak :: "byte list \<Rightarrow> bool"
  ed_verify :: "byte list \<Rightarrow> byte list \<Rightarrow> byte list \<Rightarrow> bool"      \<comment> \<open>key, message, signature\<close>
  ed_verify_strict :: "byte list \<Rightarrow> byte list \<Rightarrow> byte list \<Rightarrow> bool"
  x25519_public :: "byte list \<Rightarrow> byte list"                     \<comment> \<open>x25519-dalek\<close>
  hex_encode :: "byte list \<Rightarrow> string"                           \<comment> \<open>hex\<close>
  hex_decode :: "string \<Rightarrow> string + byte list"
  base64_encode :: "byte list \<Rightarrow> string"                        \<comment> \<open>base64: \<^verbatim>\<open>STANDARD\<close>\<close>
  base64_encode_no_pad :: "byte list \<Rightarrow> string"                 \<comment> \<open>\<^verbatim>\<open>STANDARD_NO_PAD\<close>\<close>
  base64_decode :: "string \<Rightarrow> string + byte list"
  bech32_encode :: "string \<Rightarrow> byte list \<Rightarrow> string option"       \<comment> \<open>bech32: human-readable part, data\<close>
  ct_eq :: "byte list \<Rightarrow> byte list \<Rightarrow> bool"                      \<comment> \<open>subtle\<close>
  argon2id :: "nat \<times> nat \<times> nat \<Rightarrow> byte list \<Rightarrow> byte list \<Rightarrow> string + byte list"
                                          \<comment> \<open>argon2: (m, t, p), password, salt; 32-byte output\<close>
  chacha_new :: "byte list \<Rightarrow> string + byte list"               \<comment> \<open>chacha20poly1305\<close>
  chacha_encrypt :: "byte list \<Rightarrow> byte list \<Rightarrow> byte list \<Rightarrow> string + byte list"
  chacha_decrypt :: "byte list \<Rightarrow> byte list \<Rightarrow> byte list \<Rightarrow> byte list option"

subsection \<open>Documented behaviour\<close>

text \<open>SHA-256 returns 32 bytes.\<close>

locale hash_crate =
  fixes K :: crates
  assumes length_sha256 [simp]: "length (sha256_digest K m) = 32"

text \<open>
  HKDF-SHA256 (RFC 5869): the PRK has 32 bytes, a PRK of at least that length is accepted, and
  expansion succeeds up to 255 blocks of 32 bytes.
\<close>

locale kdf_crate =
  fixes K :: crates
  assumes length_extract [simp]: "length (hkdf_extract K salt ikm) = 32"
    and from_prk_ok: "32 \<le> length prk \<Longrightarrow> hkdf_from_prk K prk = Some prk"
    and expand_ok: "n \<le> 255 * 32 \<Longrightarrow> \<exists>okm. hkdf_expand K prk info n = Some okm \<and> length okm = n"

text \<open>
  Ed25519 (RFC 8032): public keys have 32 bytes, signatures 64; the key of a seed parses, is not
  of small order, and verifies what the seed signs, strictly too.
\<close>

locale ed25519_crate =
  fixes K :: crates
  assumes length_key [simp]: "length seed = 32 \<Longrightarrow> length (ed_verifying_key K seed) = 32"
    and length_sig [simp]: "length seed = 32 \<Longrightarrow> length (ed_sign K seed m) = 64"
    and key_parses [simp]: "length seed = 32 \<Longrightarrow> ed_parse_key K (ed_verifying_key K seed)"
    and key_not_weak [simp]: "length seed = 32 \<Longrightarrow> \<not> ed_is_weak K (ed_verifying_key K seed)"
    and sign_verifies [simp]:
      "length seed = 32 \<Longrightarrow> ed_verify K (ed_verifying_key K seed) m (ed_sign K seed m)"
    and sign_verifies_strict [simp]:
      "length seed = 32 \<Longrightarrow> ed_verify_strict K (ed_verifying_key K seed) m (ed_sign K seed m)"

text \<open>Hexadecimal text: two lower-case digits per byte, decoded in either case.\<close>

definition is_lower_hex :: "char \<Rightarrow> bool" where
  "is_lower_hex c \<longleftrightarrow>
     (let n = (of_char c :: nat) in (48 \<le> n \<and> n \<le> 57) \<or> (97 \<le> n \<and> n \<le> 102))"

locale hex_crate =
  fixes K :: crates
  assumes hex_decode_encode [simp]: "hex_decode K (hex_encode K b) = Inr b"
    and length_hex_encode [simp]: "length (hex_encode K b) = 2 * length b"
    and hex_encode_lower: "c \<in> set (hex_encode K b) \<Longrightarrow> is_lower_hex c"
    and hex_decode_lower:
      "even (length s) \<Longrightarrow> \<forall>c \<in> set s. is_lower_hex c \<Longrightarrow>
         \<exists>b. hex_decode K s = Inr b \<and> hex_encode K b = s"
    and length_hex_decode: "hex_decode K s = Inr b \<Longrightarrow> length s = 2 * length b"

text \<open>Constant-time equality is equality.\<close>

locale ct_crate =
  fixes K :: crates
  assumes ct_eq_iff [simp]: "ct_eq K a b \<longleftrightarrow> a = b"

text \<open>
  Argon2id accepts passwords below \<open>2 ^ 32\<close> bytes with a 32-byte salt; ChaCha20-Poly1305 accepts
  a 32-byte key, adds a 16-byte tag and opens what it sealed under the same key and nonce.
\<close>

locale aead_crate =
  fixes K :: crates
  assumes argon2id_ok: "length pw < 2 ^ 32 \<Longrightarrow> length salt = 32 \<Longrightarrow>
      \<exists>k. argon2id K ps pw salt = Inr k \<and> length k = 32"
    and chacha_new_ok: "length k = 32 \<Longrightarrow> \<exists>c. chacha_new K k = Inr c"
    and chacha_encrypt_ok: "chacha_new K k = Inr c \<Longrightarrow> length n = 12 \<Longrightarrow> length pt = 32 \<Longrightarrow>
      \<exists>ct. chacha_encrypt K c n pt = Inr ct \<and> length ct = length pt + 16
        \<and> chacha_decrypt K c n ct = Some pt"
    and length_chacha_decrypt: "chacha_decrypt K c n ct = Some pt \<Longrightarrow> length ct = length pt + 16"

subsection \<open>minicbor\<close>

text \<open>
  An encoder method answers the bytes it appends to the writer (\<^term>\<open>None\<close> for its error); a
  decoder is the unread rest of the input, and a decoder method answers the value and the new
  rest.  \<open>dec_map\<close> answers \<^term>\<open>None\<close> inside for a map of indefinite length.
\<close>

record cbor =
  enc_map :: "nat \<Rightarrow> byte list option"
  enc_u8 :: "8 word \<Rightarrow> byte list option"
  enc_u16 :: "16 word \<Rightarrow> byte list option"
  enc_u32 :: "32 word \<Rightarrow> byte list option"
  enc_bytes :: "byte list \<Rightarrow> byte list option"
  enc_str :: "string \<Rightarrow> byte list option"
  dec_map :: "byte list \<Rightarrow> (nat option \<times> byte list) option"
  dec_u8 :: "byte list \<Rightarrow> (8 word \<times> byte list) option"
  dec_u16 :: "byte list \<Rightarrow> (16 word \<times> byte list) option"
  dec_u32 :: "byte list \<Rightarrow> (32 word \<times> byte list) option"
  dec_bytes :: "byte list \<Rightarrow> (byte list \<times> byte list) option"
  dec_str :: "byte list \<Rightarrow> (string \<times> byte list) option"

text \<open>The definite-length head of RFC 8949 in its shortest form.\<close>

definition cbor_head :: "nat \<Rightarrow> nat \<Rightarrow> byte list" where
  "cbor_head major n =
     (if n < 24 then [of_nat (32 * major + n)]
      else if n < 2 ^ 8 then of_nat (32 * major + 24) # be_bytes 1 n
      else if n < 2 ^ 16 then of_nat (32 * major + 25) # be_bytes 2 n
      else if n < 2 ^ 32 then of_nat (32 * major + 26) # be_bytes 4 n
      else of_nat (32 * major + 27) # be_bytes 8 n)"

definition cbor_head_len :: "nat \<Rightarrow> nat" where
  "cbor_head_len n =
     (if n < 24 then 1 else if n < 2 ^ 8 then 2 else if n < 2 ^ 16 then 3
      else if n < 2 ^ 32 then 5 else 9)"

lemma length_cbor_head [simp, byte_simps]: "length (cbor_head major n) = cbor_head_len n"
  by (simp add: cbor_head_def cbor_head_len_def)

text \<open>
  The crate encodes in the shortest definite form and its decoder reads that form back, whatever
  follows it.
\<close>

locale cbor_crate =
  fixes C :: cbor
  assumes enc_map_eq: "n < 2 ^ 64 \<Longrightarrow> enc_map C n = Some (cbor_head 5 n)"
    and enc_u8_eq: "enc_u8 C x = Some (cbor_head 0 (unat x))"
    and enc_u16_eq: "enc_u16 C y = Some (cbor_head 0 (unat y))"
    and enc_u32_eq: "enc_u32 C z = Some (cbor_head 0 (unat z))"
    and enc_bytes_eq: "length b < 2 ^ 64 \<Longrightarrow> enc_bytes C b = Some (cbor_head 2 (length b) @ b)"
    and enc_str_eq:
      "length s < 2 ^ 64 \<Longrightarrow> enc_str C s = Some (cbor_head 3 (length s) @ str_bytes s)"
    and dec_map_eq: "n < 2 ^ 64 \<Longrightarrow> dec_map C (cbor_head 5 n @ r) = Some (Some n, r)"
    and dec_u8_eq: "dec_u8 C (cbor_head 0 (unat x) @ r) = Some (x, r)"
    and dec_u16_eq: "dec_u16 C (cbor_head 0 (unat y) @ r) = Some (y, r)"
    and dec_u32_eq: "dec_u32 C (cbor_head 0 (unat z) @ r) = Some (z, r)"
    and dec_bytes_eq:
      "length b < 2 ^ 64 \<Longrightarrow> dec_bytes C (cbor_head 2 (length b) @ b @ r) = Some (b, r)"
    and dec_str_eq:
      "length s < 2 ^ 64 \<Longrightarrow> utf8_valid s \<Longrightarrow>
         dec_str C (cbor_head 3 (length s) @ str_bytes s @ r) = Some (s, r)"
begin

lemmas enc_eqs = enc_map_eq enc_u8_eq enc_u16_eq enc_u32_eq enc_bytes_eq enc_str_eq
lemmas dec_eqs = dec_map_eq dec_u8_eq dec_u16_eq dec_u32_eq dec_bytes_eq dec_str_eq

end

text \<open>A chain of encoder calls joined by \<^verbatim>\<open>and_then\<close>: the first error stops it.\<close>

fun encode_seq :: "byte list option list \<Rightarrow> byte list option" where
  "encode_seq [] = Some []"
| "encode_seq (None # es) = None"
| "encode_seq (Some b # es) = map_option ((@) b) (encode_seq es)"

lemma encode_seq_all: "encode_seq (map Some bs) = Some (concat bs)"
  by (induction bs) simp_all

end
