(* ===== verification/RefCrates.thy ===== *)
theory RefCrates
  imports Crates
begin

unbundle bit_operations_syntax

text \<open>
  A concrete value for every crate parameter, used to instantiate the properties' hypotheses.
  SHA-256 (FIPS 180-4), HMAC and HKDF (RFC 2104, RFC 5869), hexadecimal and the RFC 8949 heads are
  the standards' algorithms; Ed25519, X25519, Argon2id, ChaCha20-Poly1305, Base64 and Bech32 are
  small stand-ins that satisfy the documented laws and are cheap to evaluate.
\<close>

subsection \<open>SHA-256\<close>

text \<open>
  The round constants are the first 32 fractional bits of the cube roots of the first 64 primes,
  the initial state those of the square roots of the first eight; \<open>root_bits e x\<close> is the
  integer part of the \<open>e\<close>-th root of \<open>x\<close>, found bit by bit.
\<close>

definition root_bits :: "nat \<Rightarrow> nat \<Rightarrow> nat" where
  "root_bits e x =
     foldl (\<lambda>r i. if (r + 2 ^ i) ^ e \<le> x then r + 2 ^ i else r) 0 (rev [0..<38])"

definition small_primes :: "nat list" where
  "small_primes =
     [2, 3, 5, 7, 11, 13, 17, 19, 23, 29, 31, 37, 41, 43, 47, 53,
      59, 61, 67, 71, 73, 79, 83, 89, 97, 101, 103, 107, 109, 113, 127, 131,
      137, 139, 149, 151, 157, 163, 167, 173, 179, 181, 191, 193, 197, 199, 211, 223,
      227, 229, 233, 239, 241, 251, 257, 263, 269, 271, 277, 281, 283, 293, 307, 311]"

definition sha_k :: "32 word list" where
  "sha_k = map (\<lambda>p. of_nat (root_bits 3 (p * 2 ^ 96))) small_primes"

definition sha_small0 :: "32 word \<Rightarrow> 32 word" where
  "sha_small0 x = word_rotr 7 x XOR word_rotr 18 x XOR drop_bit 3 x"

definition sha_small1 :: "32 word \<Rightarrow> 32 word" where
  "sha_small1 x = word_rotr 17 x XOR word_rotr 19 x XOR drop_bit 10 x"

definition sha_big0 :: "32 word \<Rightarrow> 32 word" where
  "sha_big0 x = word_rotr 2 x XOR word_rotr 13 x XOR word_rotr 22 x"

definition sha_big1 :: "32 word \<Rightarrow> 32 word" where
  "sha_big1 x = word_rotr 6 x XOR word_rotr 11 x XOR word_rotr 25 x"

definition sha_ch :: "32 word \<Rightarrow> 32 word \<Rightarrow> 32 word \<Rightarrow> 32 word" where
  "sha_ch x y z = (x AND y) XOR (NOT x AND z)"

definition sha_maj :: "32 word \<Rightarrow> 32 word \<Rightarrow> 32 word \<Rightarrow> 32 word" where
  "sha_maj x y z = (x AND y) XOR (x AND z) XOR (y AND z)"

fun sha_schedule :: "nat \<Rightarrow> 32 word list \<Rightarrow> 32 word list" where
  "sha_schedule 0 w = w"
| "sha_schedule (Suc n) w =
     sha_schedule n
       (w @ [sha_small1 (w ! (length w - 2)) + w ! (length w - 7)
             + sha_small0 (w ! (length w - 15)) + w ! (length w - 16)])"

type_synonym sha_state =
  "32 word \<times> 32 word \<times> 32 word \<times> 32 word \<times> 32 word \<times> 32 word \<times> 32 word \<times> 32 word"

fun sha_rounds :: "32 word list \<Rightarrow> 32 word list \<Rightarrow> sha_state \<Rightarrow> sha_state" where
  "sha_rounds (k # ks) (w # ws) (a, b, c, d, e, f, g, h) =
     (let t1 = h + sha_big1 e + sha_ch e f g + k + w;
          t2 = sha_big0 a + sha_maj a b c
      in sha_rounds ks ws (t1 + t2, a, b, c, d + t1, e, f, g))"
| "sha_rounds _ _ s = s"

fun sha_add :: "sha_state \<Rightarrow> sha_state \<Rightarrow> sha_state" where
  "sha_add (a, b, c, d, e, f, g, h) (a', b', c', d', e', f', g', h') =
     (a + a', b + b', c + c', d + d', e + e', f + f', g + g', h + h')"

fun sha_chunks :: "nat \<Rightarrow> nat \<Rightarrow> byte list \<Rightarrow> byte list list" where
  "sha_chunks w 0 bs = []"
| "sha_chunks w (Suc n) bs = take w bs # sha_chunks w n (drop w bs)"

definition sha_block :: "byte list \<Rightarrow> 32 word list" where
  "sha_block b = map (\<lambda>c. of_nat (be_val c)) (sha_chunks 4 16 b)"

definition sha_pad :: "byte list \<Rightarrow> byte list" where
  "sha_pad m =
     m @ [0x80] @ replicate ((119 - length m mod 64) mod 64) 0 @ be_bytes 8 (8 * length m)"

definition sha_step :: "sha_state \<Rightarrow> byte list \<Rightarrow> sha_state" where
  "sha_step s b = sha_add s (sha_rounds sha_k (sha_schedule 48 (sha_block b)) s)"

definition sha_init :: sha_state where
  "sha_init =
     (case map (\<lambda>p. of_nat (root_bits 2 (p * 2 ^ 64))) (take 8 small_primes) of
        [a, b, c, d, e, f, g, h] \<Rightarrow> (a, b, c, d, e, f, g, h)
      | _ \<Rightarrow> (0, 0, 0, 0, 0, 0, 0, 0))"

fun sha_output :: "sha_state \<Rightarrow> byte list" where
  "sha_output (a, b, c, d, e, f, g, h) = concat (map u32_be [a, b, c, d, e, f, g, h])"

definition sha256 :: "byte list \<Rightarrow> byte list" where
  "sha256 m =
     (let p = sha_pad m in
      sha_output (foldl sha_step sha_init (sha_chunks 64 (length p div 64) p)))"

lemma length_sha_output [simp]: "length (sha_output s) = 32"
  by (cases s rule: sha_output.cases) simp

lemma length_sha256_ref [simp]: "length (sha256 m) = 32"
  by (simp add: sha256_def Let_def)

subsection \<open>HMAC and HKDF\<close>

definition hmac_key :: "byte list \<Rightarrow> byte list" where
  "hmac_key k = (let k' = (if 64 < length k then sha256 k else k) in k' @ replicate (64 - length k') 0)"

definition hmac_sha256 :: "byte list \<Rightarrow> byte list \<Rightarrow> byte list" where
  "hmac_sha256 k m =
     sha256 (map (\<lambda>b. b XOR 0x5c) (hmac_key k) @ sha256 (map (\<lambda>b. b XOR 0x36) (hmac_key k) @ m))"

text \<open>\<open>hkdf_blocks prk info t i n\<close>: the blocks \<open>T(i), \<dots>\<close>, \<open>n\<close> of them, after block \<open>t\<close>.\<close>

fun hkdf_blocks :: "byte list \<Rightarrow> byte list \<Rightarrow> byte list \<Rightarrow> nat \<Rightarrow> nat \<Rightarrow> byte list" where
  "hkdf_blocks prk info t i 0 = []"
| "hkdf_blocks prk info t i (Suc n) =
     (let t' = hmac_sha256 prk (t @ info @ [of_nat i])
      in t' @ hkdf_blocks prk info t' (Suc i) n)"

definition hkdf_expand_ref :: "byte list \<Rightarrow> byte list \<Rightarrow> nat \<Rightarrow> byte list option" where
  "hkdf_expand_ref prk info n =
     (if 255 * 32 < n then None
      else Some (take n (hkdf_blocks prk info [] 1 ((n + 31) div 32))))"

lemma length_hmac [simp]: "length (hmac_sha256 k m) = 32"
  by (simp add: hmac_sha256_def)

lemma length_hkdf_blocks [simp]: "length (hkdf_blocks prk info t i n) = 32 * n"
  by (induction n arbitrary: t i) (simp_all add: Let_def)

lemma hkdf_expand_ref_ok:
  "n \<le> 255 * 32 \<Longrightarrow> \<exists>okm. hkdf_expand_ref prk info n = Some okm \<and> length okm = n"
  by (auto simp: hkdf_expand_ref_def)

subsection \<open>Hexadecimal\<close>

definition hex_digit :: "nat \<Rightarrow> char" where
  "hex_digit d = digit_char d"

definition hex_value :: "char \<Rightarrow> nat option" where
  "hex_value c =
     (let n = (of_char c :: nat) in
      if 48 \<le> n \<and> n \<le> 57 then Some (n - 48)
      else if 97 \<le> n \<and> n \<le> 102 then Some (n - 87)
      else if 65 \<le> n \<and> n \<le> 70 then Some (n - 55)
      else None)"

fun hex_encode_ref :: "byte list \<Rightarrow> string" where
  "hex_encode_ref [] = []"
| "hex_encode_ref (b # bs) =
     hex_digit (unat b div 16) # hex_digit (unat b mod 16) # hex_encode_ref bs"

fun hex_decode_ref :: "string \<Rightarrow> string + byte list" where
  "hex_decode_ref [] = Inr []"
| "hex_decode_ref [c] = Inl ''Odd number of digits''"
| "hex_decode_ref (c # d # s) =
     (case (hex_value c, hex_value d) of
        (Some h, Some l) \<Rightarrow> bind_res (hex_decode_ref s) (\<lambda>bs. Inr (of_nat (16 * h + l) # bs))
      | _ \<Rightarrow> Inl ''Invalid character'')"

lemma hex_value_digit: "d < 16 \<Longrightarrow> hex_value (hex_digit d) = Some d"
  by (simp add: hex_value_def hex_digit_def digit_char_def Let_def)

lemma hex_digit_value: "is_lower_hex c \<Longrightarrow> \<exists>d < 16. hex_value c = Some d \<and> hex_digit d = c"
proof -
  assume lower: "is_lower_hex c"
  define n where "n = (of_char c :: nat)"
  then have c: "c = char_of n" by simp
  from lower have n: "(48 \<le> n \<and> n \<le> 57) \<or> (97 \<le> n \<and> n \<le> 102)"
    by (simp add: is_lower_hex_def n_def Let_def)
  then have "n < 256" by auto
  with n show ?thesis
    by (auto simp: c hex_value_def hex_digit_def digit_char_def Let_def intro: exI [of _ "n - 48"] exI [of _ "n - 87"])
qed

lemma is_lower_hex_digit: "d < 16 \<Longrightarrow> is_lower_hex (hex_digit d)"
  by (simp add: is_lower_hex_def hex_digit_def digit_char_def Let_def)

lemma hex_roundtrip_ref: "hex_decode_ref (hex_encode_ref bs) = Inr bs"
proof (induction bs)
  case Nil
  show ?case by simp
next
  case (Cons b bs)
  have "unat b < 256" using unsigned_less [of b, where ?'a = nat] by simp
  then have "unat b div 16 < 16" "unat b mod 16 < 16" by simp_all
  moreover have "(of_nat (16 * (unat b div 16) + unat b mod 16) :: byte) = b" by simp
  ultimately show ?case using Cons by (simp add: hex_value_digit del: of_nat_add of_nat_mult)
qed

lemma length_hex_encode_ref: "length (hex_encode_ref bs) = 2 * length bs"
  by (induction bs) simp_all

lemma hex_encode_ref_lower: "c \<in> set (hex_encode_ref bs) \<Longrightarrow> is_lower_hex c"
proof (induction bs)
  case Nil
  then show ?case by simp
next
  case (Cons b bs)
  have "unat b < 256" using unsigned_less [of b, where ?'a = nat] by simp
  then have "unat b div 16 < 16" "unat b mod 16 < 16" by simp_all
  with Cons show ?case by (auto intro: is_lower_hex_digit)
qed

lemma hex_decode_ref_lower:
  "even (length s) \<Longrightarrow> \<forall>c \<in> set s. is_lower_hex c \<Longrightarrow>
     \<exists>b. hex_decode_ref s = Inr b \<and> hex_encode_ref b = s"
proof (induction s rule: hex_decode_ref.induct)
  case (3 c d s)
  obtain h where h: "h < 16" "hex_value c = Some h" "hex_digit h = c"
    using hex_digit_value [of c] "3.prems"(2) by auto
  obtain l where l: "l < 16" "hex_value d = Some l" "hex_digit l = d"
    using hex_digit_value [of d] "3.prems"(2) by auto
  obtain b where b: "hex_decode_ref s = Inr b" "hex_encode_ref b = s"
    using "3.IH" [OF refl h(2) l(2)] "3.prems" by auto
  from h(1) l(1) have "unat (of_nat (16 * h + l) :: byte) = 16 * h + l"
    by (simp add: unat_of_nat take_bit_eq_mod del: of_nat_add of_nat_mult)
  with h l b show ?case by (simp del: of_nat_add of_nat_mult)
qed simp_all

lemma length_hex_decode_ref: "hex_decode_ref s = Inr b \<Longrightarrow> length s = 2 * length b"
  by (induction s arbitrary: b rule: hex_decode_ref.induct)
    (auto simp: res_iffs split: option.splits)

subsection \<open>Stand-ins\<close>

definition ed_key_ref :: "byte list \<Rightarrow> byte list" where
  "ed_key_ref seed = (if seed = replicate 32 0 then replicate 32 1 else seed)"

definition ed_sign_ref :: "byte list \<Rightarrow> byte list \<Rightarrow> byte list" where
  "ed_sign_ref seed m = ed_key_ref seed @ take 32 (m @ replicate 32 0)"

definition ed_verify_ref :: "byte list \<Rightarrow> byte list \<Rightarrow> byte list \<Rightarrow> bool" where
  "ed_verify_ref pk m s \<longleftrightarrow> s = pk @ take 32 (m @ replicate 32 0)"

definition argon2id_ref :: "nat \<times> nat \<times> nat \<Rightarrow> byte list \<Rightarrow> byte list \<Rightarrow> string + byte list" where
  "argon2id_ref ps pw salt =
     (if 2 ^ 32 \<le> length pw then Inl ''password is too long'' else Inr (take 32 (pw @ salt @ replicate 32 0)))"

definition chacha_new_ref :: "byte list \<Rightarrow> string + byte list" where
  "chacha_new_ref k = (if length k = 32 then Inr k else Inl ''Invalid Length'')"

definition chacha_encrypt_ref :: "byte list \<Rightarrow> byte list \<Rightarrow> byte list \<Rightarrow> string + byte list" where
  "chacha_encrypt_ref k n pt = Inr (pt @ take 16 (k @ replicate 16 0))"

definition chacha_decrypt_ref :: "byte list \<Rightarrow> byte list \<Rightarrow> byte list \<Rightarrow> byte list option" where
  "chacha_decrypt_ref k n ct =
     (if 16 \<le> length ct \<and> drop (length ct - 16) ct = take 16 (k @ replicate 16 0)
      then Some (take (length ct - 16) ct) else None)"

definition ref_crates :: crates where
  "ref_crates = \<lparr>
     sha256_digest = sha256,
     hkdf_extract = hmac_sha256,
     hkdf_from_prk = (\<lambda>p. if 32 \<le> length p then Some p else None),
     hkdf_expand = hkdf_expand_ref,
     ed_verifying_key = ed_key_ref,
     ed_sign = ed_sign_ref,
     ed_parse_key = (\<lambda>b. length b = 32),
     ed_is_weak = (\<lambda>b. b = replicate 32 0),
     ed_verify = ed_verify_ref,
     ed_verify_strict = ed_verify_ref,
     x25519_public = (\<lambda>s. s),
     hex_encode = hex_encode_ref,
     hex_decode = hex_decode_ref,
     base64_encode = hex_encode_ref,
     base64_encode_no_pad = hex_encode_ref,
     base64_decode = hex_decode_ref,
     bech32_encode = (\<lambda>hrp d. Some (hrp @ ''1'' @ hex_encode_ref d)),
     ct_eq = (=),
     argon2id = argon2id_ref,
     chacha_new = chacha_new_ref,
     chacha_encrypt = chacha_encrypt_ref,
     chacha_decrypt = chacha_decrypt_ref \<rparr>"

text \<open>
  \<open>lite_crates\<close> differs in the hash functions only, which cost the kernel seconds per call: a
  32-byte fingerprint by a linear recurrence, for witnesses that evaluate whole runs.
\<close>

definition lite_hash :: "byte list \<Rightarrow> byte list" where
  "lite_hash m = be_bytes 32 (foldl (\<lambda>v b. 257 * v + unat b + 1) 7 m)"

definition lite_crates :: crates where
  "lite_crates = ref_crates \<lparr>
     sha256_digest := lite_hash,
     hkdf_extract := (\<lambda>salt ikm. lite_hash (salt @ ikm)),
     hkdf_expand := (\<lambda>prk info n.
       if 255 * 32 < n then None else Some (take n (lite_hash (prk @ info) @ replicate n 0))) \<rparr>"

lemma ref_crates_simps [simp]:
  "sha256_digest ref_crates = sha256"
  "hkdf_extract ref_crates = hmac_sha256"
  "hkdf_expand ref_crates = hkdf_expand_ref"
  "ed_verifying_key ref_crates = ed_key_ref"
  "ed_sign ref_crates = ed_sign_ref"
  by (simp_all add: ref_crates_def)

lemma ref_crates_same:
  "ref_crates = ref_crates \<lparr> sha256_digest := sha256, hkdf_extract := hmac_sha256,
     hkdf_expand := hkdf_expand_ref \<rparr>"
  by (simp add: ref_crates_def)

subsection \<open>The laws hold\<close>

interpretation ref_hash: hash_crate ref_crates
  by unfold_locales simp

interpretation lite_hash: hash_crate lite_crates
  by unfold_locales (simp add: lite_crates_def lite_hash_def)

interpretation ref_kdf: kdf_crate ref_crates
  by unfold_locales (simp_all add: ref_crates_def hkdf_expand_ref_ok)

interpretation lite_kdf: kdf_crate lite_crates
  by unfold_locales (simp_all add: lite_crates_def ref_crates_def lite_hash_def)

lemma ed25519_ref: "ed25519_crate (ref_crates \<lparr> sha256_digest := h, hkdf_extract := x, hkdf_expand := e \<rparr>)"
  by unfold_locales
    (auto simp: ref_crates_def ed_key_ref_def ed_sign_ref_def ed_verify_ref_def)

interpretation ref_ed: ed25519_crate ref_crates
  by (subst ref_crates_same) (rule ed25519_ref)

interpretation lite_ed: ed25519_crate lite_crates
  unfolding lite_crates_def by (rule ed25519_ref)

lemma hex_ref: "hex_crate (ref_crates \<lparr> sha256_digest := h, hkdf_extract := x, hkdf_expand := e \<rparr>)"
  by unfold_locales
    (simp_all add: ref_crates_def hex_roundtrip_ref length_hex_encode_ref hex_encode_ref_lower
      hex_decode_ref_lower length_hex_decode_ref)

interpretation ref_hex: hex_crate ref_crates
  by (subst ref_crates_same) (rule hex_ref)

interpretation lite_hex: hex_crate lite_crates
  unfolding lite_crates_def by (rule hex_ref)

interpretation ref_ct: ct_crate ref_crates
  by unfold_locales (simp add: ref_crates_def)

interpretation lite_ct: ct_crate lite_crates
  by unfold_locales (simp add: lite_crates_def ref_crates_def)

lemma aead_ref: "aead_crate (ref_crates \<lparr> sha256_digest := h, hkdf_extract := x, hkdf_expand := e \<rparr>)"
  by unfold_locales
    (auto simp: ref_crates_def argon2id_ref_def chacha_new_ref_def chacha_encrypt_ref_def
      chacha_decrypt_ref_def split: if_splits)

interpretation ref_aead: aead_crate ref_crates
  by (subst ref_crates_same) (rule aead_ref)

interpretation lite_aead: aead_crate lite_crates
  unfolding lite_crates_def by (rule aead_ref)

subsection \<open>The RFC 8949 codec\<close>

text \<open>\<open>read_head\<close> answers the major type, the argument (\<^term>\<open>None\<close>: indefinite) and the rest.\<close>

definition read_arg :: "nat \<Rightarrow> nat \<Rightarrow> byte list \<Rightarrow> (nat \<times> nat option \<times> byte list) option" where
  "read_arg major w r =
     (if w \<le> length r then Some (major, Some (be_val (take w r)), drop w r) else None)"

definition read_head :: "byte list \<Rightarrow> (nat \<times> nat option \<times> byte list) option" where
  "read_head bs =
     (case bs of
        [] \<Rightarrow> None
      | b # r \<Rightarrow>
          let major = unat b div 32; info = unat b mod 32 in
          if info < 24 then Some (major, Some info, r)
          else if info = 24 then read_arg major 1 r
          else if info = 25 then read_arg major 2 r
          else if info = 26 then read_arg major 4 r
          else if info = 27 then read_arg major 8 r
          else if info = 31 then Some (major, None, r)
          else None)"

lemma read_head_cbor_head:
  assumes "major < 8" and "n < 2 ^ 64"
  shows "read_head (cbor_head major n @ r) = Some (major, Some n, r)"
proof -
  have head: "unat (of_nat (32 * major + i) :: byte) div 32 = major"
    "unat (of_nat (32 * major + i) :: byte) mod 32 = i" if "i < 32" for i
    using assms(1) that by (simp_all add: unat_of_nat take_bit_eq_mod del: of_nat_add of_nat_mult)
  have val: "be_val (be_bytes w n) = n" if "n < 256 ^ w" for w
    using that by (rule be_val_be_bytes)
  show ?thesis
    using assms(2)
    by (auto simp: cbor_head_def read_head_def read_arg_def head val Let_def
        simp del: of_nat_add of_nat_mult be_bytes.simps)
qed

definition read_uint :: "nat \<Rightarrow> byte list \<Rightarrow> (nat \<times> byte list) option" where
  "read_uint bound bs =
     (case read_head bs of
        Some (0, Some n, r) \<Rightarrow> if n < bound then Some (n, r) else None
      | _ \<Rightarrow> None)"

definition read_blob :: "nat \<Rightarrow> byte list \<Rightarrow> (byte list \<times> byte list) option" where
  "read_blob major bs =
     (case read_head bs of
        Some (m, Some n, r) \<Rightarrow>
          if m = major \<and> n \<le> length r then Some (take n r, drop n r) else None
      | _ \<Rightarrow> None)"

definition ref_cbor :: cbor where
  "ref_cbor = \<lparr>
     enc_map = (\<lambda>n. if n < 2 ^ 64 then Some (cbor_head 5 n) else None),
     enc_u8 = (\<lambda>x. Some (cbor_head 0 (unat x))),
     enc_u16 = (\<lambda>x. Some (cbor_head 0 (unat x))),
     enc_u32 = (\<lambda>x. Some (cbor_head 0 (unat x))),
     enc_bytes = (\<lambda>b. Some (cbor_head 2 (length b) @ b)),
     enc_str = (\<lambda>s. Some (cbor_head 3 (length s) @ str_bytes s)),
     dec_map = (\<lambda>bs. case read_head bs of
                  Some (m, n, r) \<Rightarrow> if m = 5 then Some (n, r) else None
                | None \<Rightarrow> None),
     dec_u8 = (\<lambda>bs. map_option (map_prod of_nat id) (read_uint (2 ^ 8) bs)),
     dec_u16 = (\<lambda>bs. map_option (map_prod of_nat id) (read_uint (2 ^ 16) bs)),
     dec_u32 = (\<lambda>bs. map_option (map_prod of_nat id) (read_uint (2 ^ 32) bs)),
     dec_bytes = read_blob 2,
     dec_str = (\<lambda>bs. case read_blob 3 bs of
                  Some (b, r) \<Rightarrow>
                    let s = map (\<lambda>x. char_of (unat x)) b in
                    if utf8_valid s then Some (s, r) else None
                | None \<Rightarrow> None) \<rparr>"

lemma chars_of_str_bytes: "map (\<lambda>x. char_of (unat x)) (str_bytes s) = s"
proof -
  have "char_of (unat (of_char c :: byte)) = c" for c
  proof -
    have "(of_char c :: byte) = word_of_nat (of_char c)"
      by (simp add: of_char_def)
    then show ?thesis
      by (simp add: unat_of_nat nat_of_char_less_256 take_bit_nat_eq_self)
  qed
  then show ?thesis by (simp add: str_bytes_def map_idI)
qed

lemma unat_bounds:
  "unat (x :: 8 word) < 2 ^ 8" "unat (y :: 16 word) < 2 ^ 16" "unat (z :: 32 word) < 2 ^ 32"
  using unsigned_less [of x, where ?'a = nat] unsigned_less [of y, where ?'a = nat]
    unsigned_less [of z, where ?'a = nat] by simp_all

interpretation ref_cbor: cbor_crate ref_cbor
proof
  fix x :: "8 word" and y :: "16 word" and z :: "32 word" and r :: "byte list"
  show "dec_u8 ref_cbor (cbor_head 0 (unat x) @ r) = Some (x, r)"
    using unat_bounds(1) [of x] by (simp add: ref_cbor_def read_uint_def read_head_cbor_head)
  show "dec_u16 ref_cbor (cbor_head 0 (unat y) @ r) = Some (y, r)"
    using unat_bounds(2) [of y] by (simp add: ref_cbor_def read_uint_def read_head_cbor_head)
  show "dec_u32 ref_cbor (cbor_head 0 (unat z) @ r) = Some (z, r)"
    using unat_bounds(3) [of z] by (simp add: ref_cbor_def read_uint_def read_head_cbor_head)
qed (simp_all add: ref_cbor_def read_head_cbor_head read_blob_def chars_of_str_bytes Let_def)

end
