(* ===== verification/Derive.thy ===== *)
theory Derive
  imports RefCrates
begin

text \<open>
  The HKDF key hierarchy, \<^verbatim>\<open>src/derive.rs\<close>: key purposes and their info strings, the
  \<^verbatim>\<open>KeyDeriver\<close> with its flat and two-level derivations, and an abstract key tree
  (\<open>key_path\<close>, \<open>path_key\<close>) that the operations refine.  A panic of an \<^verbatim>\<open>expect\<close> on
  the \<^verbatim>\<open>hkdf\<close> crate is \<^term>\<open>None\<close>.
\<close>

subsection \<open>Labels\<close>

datatype derive_error = EmptyLabel

definition derive_validate_label :: "string \<Rightarrow> derive_error + unit" where
  "derive_validate_label label = (if label = [] then Inl EmptyLabel else Inr ())"

subsection \<open>Domain-separation constants\<close>

definition HKDF_SALT :: "byte list" where
  "HKDF_SALT = str_bytes ''styrene-identity-v1''"

definition HKDF_SALT_AGENT :: "byte list" where
  "HKDF_SALT_AGENT = str_bytes ''styrene-identity-agent-v1''"

definition HKDF_SALT_TLS_CERT :: "byte list" where
  "HKDF_SALT_TLS_CERT = str_bytes ''styrene-identity-tls-cert-v1''"

definition HKDF_SALT_SSH_USER :: "byte list" where
  "HKDF_SALT_SSH_USER = str_bytes ''styrene-identity-ssh-user-v1''"

definition HKDF_SALT_I2P_SERVICE :: "byte list" where
  "HKDF_SALT_I2P_SERVICE = str_bytes ''styrene-identity-i2p-service-v1''"

definition HKDF_SALT_ONION_SERVICE :: "byte list" where
  "HKDF_SALT_ONION_SERVICE = str_bytes ''styrene-identity-onion-service-v1''"

definition HKDF_SALT_REPOSITORY_SIGNING :: "byte list" where
  "HKDF_SALT_REPOSITORY_SIGNING = str_bytes ''styrene-identity-repository-signing-v1''"

lemmas salt_defs = HKDF_SALT_def HKDF_SALT_AGENT_def HKDF_SALT_TLS_CERT_def
  HKDF_SALT_SSH_USER_def HKDF_SALT_I2P_SERVICE_def HKDF_SALT_ONION_SERVICE_def
  HKDF_SALT_REPOSITORY_SIGNING_def

subsection \<open>Purposes\<close>

datatype key_purpose =
    Signing
  | RnsEncryption
  | Age
  | WireGuard
  | SshHost
  | Yggdrasil
  | I2pSigning
  | I2pEncryption
  | Tor
  | RnsSigning
  | GitSigning

fun purpose_info :: "key_purpose \<Rightarrow> byte list" where
  "purpose_info Signing = str_bytes ''styrene-rns-signing-v1''"
| "purpose_info RnsEncryption = str_bytes ''styrene-rns-encryption-v1''"
| "purpose_info Age = str_bytes ''styrene-age-v1''"
| "purpose_info WireGuard = str_bytes ''styrene-wireguard-v1''"
| "purpose_info SshHost = str_bytes ''styrene-ssh-host-v1''"
| "purpose_info Yggdrasil = str_bytes ''styrene-yggdrasil-v1''"
| "purpose_info I2pSigning = str_bytes ''styrene-i2p-signing-v1''"
| "purpose_info I2pEncryption = str_bytes ''styrene-i2p-encryption-v1''"
| "purpose_info Tor = str_bytes ''styrene-tor-v1''"
| "purpose_info RnsSigning = str_bytes ''styrene-rns-signing-v1''"
| "purpose_info GitSigning = str_bytes ''styrene-rns-signing-v1''"

definition purpose_all :: "key_purpose list" where
  "purpose_all =
     [Signing, RnsEncryption, Age, WireGuard, SshHost, Yggdrasil, I2pSigning, I2pEncryption, Tor]"

subsection \<open>The deriver\<close>

record key_deriver =
  prk :: "byte list"

definition KeyDeriver_new :: "crates \<Rightarrow> byte list \<Rightarrow> key_deriver" where
  "KeyDeriver_new K root_secret = \<lparr>prk = hkdf_extract K HKDF_SALT root_secret\<rparr>"

definition expander :: "crates \<Rightarrow> key_deriver \<Rightarrow> byte list option" where
  "expander K d = hkdf_from_prk K (prk d)"

definition derive :: "crates \<Rightarrow> key_deriver \<Rightarrow> key_purpose \<Rightarrow> byte list option" where
  "derive K d purpose = do {
     hk \<leftarrow> expander K d;
     hkdf_expand K hk (purpose_info purpose) 32
   }"

record derived_keys =
  dk_signing :: "byte list"
  dk_rns_encryption :: "byte list"
  dk_age :: "byte list"
  dk_wireguard :: "byte list"
  dk_ssh_host :: "byte list"
  dk_yggdrasil :: "byte list"
  dk_i2p_signing :: "byte list"
  dk_i2p_encryption :: "byte list"
  dk_tor :: "byte list"

definition derive_all :: "crates \<Rightarrow> key_deriver \<Rightarrow> derived_keys option" where
  "derive_all K d = do {
     signing \<leftarrow> derive K d Signing;
     rns_encryption \<leftarrow> derive K d RnsEncryption;
     age \<leftarrow> derive K d Age;
     wireguard \<leftarrow> derive K d WireGuard;
     ssh_host \<leftarrow> derive K d SshHost;
     yggdrasil \<leftarrow> derive K d Yggdrasil;
     i2p_signing \<leftarrow> derive K d I2pSigning;
     i2p_encryption \<leftarrow> derive K d I2pEncryption;
     tor \<leftarrow> derive K d Tor;
     Some \<lparr>dk_signing = signing, dk_rns_encryption = rns_encryption, dk_age = age,
       dk_wireguard = wireguard, dk_ssh_host = ssh_host, dk_yggdrasil = yggdrasil,
       dk_i2p_signing = i2p_signing, dk_i2p_encryption = i2p_encryption, dk_tor = tor\<rparr>
   }"

definition signing_seed :: "crates \<Rightarrow> key_deriver \<Rightarrow> byte list option" where
  "signing_seed K d = derive K d Signing"

definition ssh_host_seed :: "crates \<Rightarrow> key_deriver \<Rightarrow> byte list option" where
  "ssh_host_seed K d = derive K d SshHost"

definition age_secret :: "crates \<Rightarrow> key_deriver \<Rightarrow> byte list option" where
  "age_secret K d = derive K d Age"

definition git_signing_seed :: "crates \<Rightarrow> key_deriver \<Rightarrow> byte list option" where
  "git_signing_seed K d = derive K d Signing"

definition i2p_signing_seed :: "crates \<Rightarrow> key_deriver \<Rightarrow> byte list option" where
  "i2p_signing_seed K d = derive K d I2pSigning"

definition i2p_encryption_secret :: "crates \<Rightarrow> key_deriver \<Rightarrow> byte list option" where
  "i2p_encryption_secret K d = derive K d I2pEncryption"

definition tor_seed :: "crates \<Rightarrow> key_deriver \<Rightarrow> byte list option" where
  "tor_seed K d = derive K d Tor"

subsection \<open>Two-level families\<close>

definition derive_parameterized ::
  "crates \<Rightarrow> key_deriver \<Rightarrow> byte list \<Rightarrow> byte list \<Rightarrow> string \<Rightarrow> (derive_error + byte list) option" where
  "derive_parameterized K d master_info level2_salt label =
     (if label = [] then Some (Inl EmptyLabel)
      else do {
        hk \<leftarrow> expander K d;
        master \<leftarrow> hkdf_expand K hk master_info 32;
        let hk2 = hkdf_extract K level2_salt master;
        okm \<leftarrow> hkdf_expand K hk2 (str_bytes label) 32;
        Some (Inr okm)
      })"

definition derive_agent_key ::
  "crates \<Rightarrow> key_deriver \<Rightarrow> string \<Rightarrow> (derive_error + byte list) option" where
  "derive_agent_key K d agent_name =
     derive_parameterized K d (str_bytes ''styrene-agent-master-v1'') HKDF_SALT_AGENT agent_name"

definition derive_tls_certificate_key ::
  "crates \<Rightarrow> key_deriver \<Rightarrow> string \<Rightarrow> (derive_error + byte list) option" where
  "derive_tls_certificate_key K d cert_label =
     derive_parameterized K d (str_bytes ''styrene-tls-cert-master-v1'') HKDF_SALT_TLS_CERT cert_label"

definition derive_ssh_user_key ::
  "crates \<Rightarrow> key_deriver \<Rightarrow> string \<Rightarrow> (derive_error + byte list) option" where
  "derive_ssh_user_key K d label =
     derive_parameterized K d (str_bytes ''styrene-ssh-user-master-v1'') HKDF_SALT_SSH_USER label"

text \<open>\<^verbatim>\<open>?\<close> on a computation that may panic.\<close>

definition try_opt :: "('e + 'a) option \<Rightarrow> ('a \<Rightarrow> ('e + 'b) option) \<Rightarrow> ('e + 'b) option" where
  "try_opt m f = (case m of None \<Rightarrow> None | Some (Inl e) \<Rightarrow> Some (Inl e) | Some (Inr a) \<Rightarrow> f a)"

lemma try_opt_simps [simp, res_simps]:
  "try_opt None f = None"
  "try_opt (Some (Inl e)) f = Some (Inl e)"
  "try_opt (Some (Inr a)) f = f a"
  by (simp_all add: try_opt_def)

definition derive_i2p_service ::
  "crates \<Rightarrow> key_deriver \<Rightarrow> string \<Rightarrow> (derive_error + byte list \<times> byte list) option" where
  "derive_i2p_service K d service_name =
     (if service_name = [] then Some (Inl EmptyLabel)
      else
        try_opt (derive_parameterized K d (str_bytes ''styrene-i2p-service-master-v1'')
                   HKDF_SALT_I2P_SERVICE (service_name @ ''/signing'')) (\<lambda>signing.
        try_opt (derive_parameterized K d (str_bytes ''styrene-i2p-service-master-v1'')
                   HKDF_SALT_I2P_SERVICE (service_name @ ''/encryption'')) (\<lambda>encryption.
        Some (Inr (signing, encryption)))))"

definition derive_onion_service ::
  "crates \<Rightarrow> key_deriver \<Rightarrow> string \<Rightarrow> (derive_error + byte list) option" where
  "derive_onion_service K d service_name =
     derive_parameterized K d (str_bytes ''styrene-onion-master-v1'') HKDF_SALT_ONION_SERVICE service_name"

definition repository_epoch_prefix :: "byte list" where
  "repository_epoch_prefix = str_bytes (''styrene-repository-signing-epoch-v1'' @ [CHR 0x00])"

definition derive_repository_signing_key ::
  "crates \<Rightarrow> key_deriver \<Rightarrow> 32 word \<Rightarrow> byte list option" where
  "derive_repository_signing_key K d epoch = do {
     hk \<leftarrow> expander K d;
     master \<leftarrow> hkdf_expand K hk (str_bytes ''styrene-repository-signing-master-v1'') 32;
     let hk2 = hkdf_extract K HKDF_SALT_REPOSITORY_SIGNING master;
     info0 \<leftarrow> copy_at 0 36 repository_epoch_prefix (replicate 40 0);
     info \<leftarrow> copy_at 36 40 (u32_be epoch) info0;
     hkdf_expand K hk2 info 32
   }"

definition derive_key :: "crates \<Rightarrow> byte list \<Rightarrow> key_purpose \<Rightarrow> byte list option" where
  "derive_key K root_secret purpose = derive K (KeyDeriver_new K root_secret) purpose"

definition derive_keys :: "crates \<Rightarrow> byte list \<Rightarrow> derived_keys option" where
  "derive_keys K root_secret = derive_all K (KeyDeriver_new K root_secret)"

subsection \<open>The abstract key tree\<close>

text \<open>
  A key is named by its path: a flat info string under the root PRK, or a family (master info and
  second-level salt) with a label.  \<open>extract_call\<close> and \<open>expand_call\<close> are the last inputs that
  the two HKDF primitives see on the way to the key.
\<close>

datatype key_path = Flat "byte list" | Family "byte list" "byte list" "byte list"

definition root_prk :: "crates \<Rightarrow> byte list \<Rightarrow> byte list" where
  "root_prk K root = hkdf_extract K HKDF_SALT root"

fun extract_call :: "crates \<Rightarrow> byte list \<Rightarrow> key_path \<Rightarrow> byte list \<times> byte list" where
  "extract_call K root (Flat info) = (HKDF_SALT, root)"
| "extract_call K root (Family master salt label) =
     (salt, the (hkdf_expand K (root_prk K root) master 32))"

fun path_info :: "key_path \<Rightarrow> byte list" where
  "path_info (Flat info) = info"
| "path_info (Family master salt label) = label"

definition expand_call :: "crates \<Rightarrow> byte list \<Rightarrow> key_path \<Rightarrow> byte list \<times> byte list" where
  "expand_call K root p = (case_prod (hkdf_extract K) (extract_call K root p), path_info p)"

definition path_key :: "crates \<Rightarrow> byte list \<Rightarrow> key_path \<Rightarrow> byte list" where
  "path_key K root p = (case expand_call K root p of (k, info) \<Rightarrow> the (hkdf_expand K k info 32))"

text \<open>Everything a caller can ask a \<^verbatim>\<open>KeyDeriver\<close> for.\<close>

datatype key_request =
    PurposeKey key_purpose
  | AgentKey string
  | TlsKey string
  | SshUserKey string
  | I2pSigningKey string
  | I2pEncryptionKey string
  | OnionKey string
  | RepositoryKey "32 word"

fun request_path :: "key_request \<Rightarrow> key_path" where
  "request_path (PurposeKey p) = Flat (purpose_info p)"
| "request_path (AgentKey n) =
     Family (str_bytes ''styrene-agent-master-v1'') HKDF_SALT_AGENT (str_bytes n)"
| "request_path (TlsKey n) =
     Family (str_bytes ''styrene-tls-cert-master-v1'') HKDF_SALT_TLS_CERT (str_bytes n)"
| "request_path (SshUserKey n) =
     Family (str_bytes ''styrene-ssh-user-master-v1'') HKDF_SALT_SSH_USER (str_bytes n)"
| "request_path (I2pSigningKey n) =
     Family (str_bytes ''styrene-i2p-service-master-v1'') HKDF_SALT_I2P_SERVICE
       (str_bytes (n @ ''/signing''))"
| "request_path (I2pEncryptionKey n) =
     Family (str_bytes ''styrene-i2p-service-master-v1'') HKDF_SALT_I2P_SERVICE
       (str_bytes (n @ ''/encryption''))"
| "request_path (OnionKey n) =
     Family (str_bytes ''styrene-onion-master-v1'') HKDF_SALT_ONION_SERVICE (str_bytes n)"
| "request_path (RepositoryKey e) =
     Family (str_bytes ''styrene-repository-signing-master-v1'') HKDF_SALT_REPOSITORY_SIGNING
       (repository_epoch_prefix @ u32_be e)"

fun valid_request :: "key_request \<Rightarrow> bool" where
  "valid_request (AgentKey n) \<longleftrightarrow> n \<noteq> []"
| "valid_request (TlsKey n) \<longleftrightarrow> n \<noteq> []"
| "valid_request (SshUserKey n) \<longleftrightarrow> n \<noteq> []"
| "valid_request (I2pSigningKey n) \<longleftrightarrow> n \<noteq> []"
| "valid_request (I2pEncryptionKey n) \<longleftrightarrow> n \<noteq> []"
| "valid_request (OnionKey n) \<longleftrightarrow> n \<noteq> []"
| "valid_request _ \<longleftrightarrow> True"

fun run_request ::
  "crates \<Rightarrow> key_deriver \<Rightarrow> key_request \<Rightarrow> (derive_error + byte list) option" where
  "run_request K d (PurposeKey p) = map_option Inr (derive K d p)"
| "run_request K d (AgentKey n) = derive_agent_key K d n"
| "run_request K d (TlsKey n) = derive_tls_certificate_key K d n"
| "run_request K d (SshUserKey n) = derive_ssh_user_key K d n"
| "run_request K d (I2pSigningKey n) = map_option (map_sum id fst) (derive_i2p_service K d n)"
| "run_request K d (I2pEncryptionKey n) = map_option (map_sum id snd) (derive_i2p_service K d n)"
| "run_request K d (OnionKey n) = derive_onion_service K d n"
| "run_request K d (RepositoryKey e) = map_option Inr (derive_repository_signing_key K d e)"

text \<open>The deprecated purposes name the canonical identity key.\<close>

fun canonical_purpose :: "key_purpose \<Rightarrow> key_purpose" where
  "canonical_purpose RnsSigning = Signing"
| "canonical_purpose GitSigning = Signing"
| "canonical_purpose p = p"

fun canonical_request :: "key_request \<Rightarrow> key_request" where
  "canonical_request (PurposeKey p) = PurposeKey (canonical_purpose p)"
| "canonical_request r = r"

subsection \<open>Lemmas\<close>

lemma length_repository_epoch_prefix [simp]: "length repository_epoch_prefix = 36"
  by (simp add: repository_epoch_prefix_def)

lemma repository_info:
  "copy_at 0 36 repository_epoch_prefix (replicate 40 0) \<bind> copy_at 36 40 (u32_be epoch)
     = Some (repository_epoch_prefix @ u32_be epoch)"
  by (simp add: copy_at_def)

lemma purpose_info_eq_iff:
  "purpose_info p = purpose_info q \<longleftrightarrow> canonical_purpose p = canonical_purpose q"
  by (cases p; cases q) simp_all

lemma salts_distinct:
  "distinct [HKDF_SALT, HKDF_SALT_AGENT, HKDF_SALT_TLS_CERT, HKDF_SALT_SSH_USER,
     HKDF_SALT_I2P_SERVICE, HKDF_SALT_ONION_SERVICE, HKDF_SALT_REPOSITORY_SIGNING]"
  by (simp add: salt_defs)

lemmas salt_neqs = salts_distinct [simplified distinct.simps list.set insert_iff empty_iff de_Morgan_disj]

lemma i2p_labels_differ:
  "str_bytes n @ str_bytes ''/signing'' \<noteq> str_bytes m @ str_bytes ''/encryption''"
proof
  assume "str_bytes n @ str_bytes ''/signing'' = str_bytes m @ str_bytes ''/encryption''"
  then have "n @ ''/signing'' = m @ ''/encryption''"
    by (simp flip: str_bytes_append)
  then have "last (n @ ''/signing'') = last (m @ ''/encryption'')" by simp
  then show False by simp
qed

lemma derive_parameterized_empty [simp]:
  "derive_parameterized K d m s [] = Some (Inl EmptyLabel)"
  by (simp add: derive_parameterized_def)

context kdf_crate
begin

lemma expander_new [simp]: "expander K (KeyDeriver_new K root) = Some (root_prk K root)"
  by (simp add: expander_def KeyDeriver_new_def root_prk_def from_prk_ok)

lemma expand32: "hkdf_expand K k info 32 = Some (the (hkdf_expand K k info 32))"
  using expand_ok [of 32 k info] by auto

lemma length_expand32: "length (the (hkdf_expand K k info 32)) = 32"
  using expand_ok [of 32 k info] by auto

lemma length_path_key [simp]: "length (path_key K root p) = 32"
  by (simp add: path_key_def length_expand32 split: prod.splits)

lemma derive_path:
  "derive K (KeyDeriver_new K root) p = Some (path_key K root (Flat (purpose_info p)))"
  using expand32 by (simp add: derive_def path_key_def expand_call_def root_prk_def)

lemma derive_parameterized_path:
  assumes "label \<noteq> []"
  shows "derive_parameterized K (KeyDeriver_new K root) m s label
           = Some (Inr (path_key K root (Family m s (str_bytes label))))"
proof -
  obtain master where m: "hkdf_expand K (root_prk K root) m 32 = Some master"
    using expand32 by blast
  obtain okm where "hkdf_expand K (hkdf_extract K s master) (str_bytes label) 32 = Some okm"
    using expand32 by blast
  with m assms show ?thesis
    by (simp add: derive_parameterized_def path_key_def expand_call_def)
qed

lemma derive_repository_path:
  "derive_repository_signing_key K (KeyDeriver_new K root) e
     = Some (path_key K root (request_path (RepositoryKey e)))"
proof -
  obtain master where
    m: "hkdf_expand K (root_prk K root) (str_bytes ''styrene-repository-signing-master-v1'') 32 = Some master"
    using expand32 by blast
  obtain okm where
    "hkdf_expand K (hkdf_extract K HKDF_SALT_REPOSITORY_SIGNING master)
       (repository_epoch_prefix @ u32_be e) 32 = Some okm"
    using expand32 by blast
  with m repository_info [of e] show ?thesis
    by (auto simp: derive_repository_signing_key_def path_key_def expand_call_def copy_at_def)
qed

lemma run_request_path:
  "run_request K (KeyDeriver_new K root) r =
     Some (if valid_request r then Inr (path_key K root (request_path r)) else Inl EmptyLabel)"
  by (cases r)
    (simp_all add: derive_path derive_parameterized_path derive_repository_path derive_agent_key_def
      derive_tls_certificate_key_def derive_ssh_user_key_def derive_i2p_service_def
      derive_onion_service_def)

lemma equal_keys_collide:
  assumes "path_key K root p = path_key K root q" and "p \<noteq> q"
    and same: "\<And>m m' s l l'. p = Family m s l \<Longrightarrow> q = Family m' s l' \<Longrightarrow> m = m'"
    and "\<And>m s l. p = Family m s l \<or> q = Family m s l \<Longrightarrow> s \<noteq> HKDF_SALT"
  shows "extract_call K root p \<noteq> extract_call K root q \<and>
           case_prod (hkdf_extract K) (extract_call K root p)
             = case_prod (hkdf_extract K) (extract_call K root q)
       \<or> expand_call K root p \<noteq> expand_call K root q \<and>
           (\<exists>k. case_prod (\<lambda>prk info. hkdf_expand K prk info 32) (expand_call K root p) = Some k \<and>
                case_prod (\<lambda>prk info. hkdf_expand K prk info 32) (expand_call K root q) = Some k)"
proof (cases "expand_call K root p = expand_call K root q")
  case True
  then have prks: "case_prod (hkdf_extract K) (extract_call K root p)
             = case_prod (hkdf_extract K) (extract_call K root q)"
    and infos: "path_info p = path_info q"
    by (simp_all add: expand_call_def)
  have "extract_call K root p \<noteq> extract_call K root q"
  proof (cases p)
    case (Flat i)
    show ?thesis
    proof (cases q)
      case (Flat j)
      with \<open>p = Flat i\<close> infos assms(2) show ?thesis by simp
    next
      case (Family m s l)
      with assms(4) have "s \<noteq> HKDF_SALT" by blast
      with Flat Family show ?thesis by simp
    qed
  next
    case (Family m s l)
    show ?thesis
    proof (cases q)
      case (Flat j)
      from assms(4) Family have "s \<noteq> HKDF_SALT" by blast
      with Flat Family show ?thesis by simp
    next
      case (Family m' s' l')
      have "s \<noteq> s'"
      proof
        assume "s = s'"
        with same \<open>p = Family m s l\<close> Family have "m = m'" by blast
        with \<open>s = s'\<close> \<open>p = Family m s l\<close> Family infos assms(2) show False by simp
      qed
      with \<open>p = Family m s l\<close> Family show ?thesis by simp
    qed
  qed
  with prks show ?thesis by blast
next
  case False
  obtain k i k' i' where calls: "expand_call K root p = (k, i)" "expand_call K root q = (k', i')"
    by fastforce
  obtain a where a: "hkdf_expand K k i 32 = Some a" using expand_ok [of 32 k i] by auto
  obtain b where b: "hkdf_expand K k' i' 32 = Some b" using expand_ok [of 32 k' i'] by auto
  from assms(1) calls a b have "a = b" by (simp add: path_key_def)
  with a b False calls show ?thesis by auto
qed

end

lemma request_path_eq_iff:
  "request_path r = request_path r' \<longleftrightarrow> canonical_request r = canonical_request r'"
  using salt_neqs i2p_labels_differ i2p_labels_differ [symmetric]
  by (cases r; cases r') (auto simp: purpose_info_eq_iff)

lemma request_path_same_salt:
  "request_path r = Family m s l \<Longrightarrow> request_path r' = Family m' s l' \<Longrightarrow> m = m'"
  using salt_neqs by (cases r; cases r') auto

lemma request_path_salt: "request_path r = Family m s l \<Longrightarrow> s \<noteq> HKDF_SALT"
  using salt_neqs by (cases r) auto

subsection \<open>Properties\<close>

text \<open>
  C8: Every operation of a \<^verbatim>\<open>KeyDeriver\<close> built from a root computes the key of its path in the
  abstract key tree: it never panics, rejects exactly the requests with an empty label or service
  name with \<^verbatim>\<open>DeriveError::EmptyLabel\<close>, and otherwise returns the 32 bytes the tree assigns.
\<close>

theorem key_requests_follow_tree:
  assumes "kdf_crate K"
  shows "run_request K (KeyDeriver_new K root) r =
           Some (if valid_request r then Inr (path_key K root (request_path r)) else Inl EmptyLabel)
         \<and> length (path_key K root (request_path r)) = 32"
  using kdf_crate.run_request_path [OF assms] kdf_crate.length_path_key [OF assms] by simp

theorem key_requests_follow_tree_witness:
  "run_request ref_crates (KeyDeriver_new ref_crates (replicate 32 0x42)) (I2pEncryptionKey ''forge'')
     = Some (Inr (path_key ref_crates (replicate 32 0x42)
         (Family (str_bytes ''styrene-i2p-service-master-v1'') HKDF_SALT_I2P_SERVICE
           (str_bytes ''forge/encryption''))))"
  using key_requests_follow_tree [OF ref_kdf.kdf_crate_axioms,
      of "replicate 32 0x42" "I2pEncryptionKey ''forge''"]
  by simp

text \<open>
  C9: Two requests share a path exactly when they are the same request up to the deprecated
  purpose names: no flat purpose, SSH user, agent, TLS, I2P, onion or repository key, no two
  labels of a family, and neither of the two I2P service keys, are derived along the same path.
\<close>

theorem key_paths_separate:
  "request_path r = request_path r' \<longleftrightarrow> canonical_request r = canonical_request r'"
  by (rule request_path_eq_iff)

text \<open>
  C10: The derived keys collide only where HKDF does: if two requests that are not aliases yield
  the same key, then the last extract calls are two distinct inputs with one output, or the last
  expand calls are.  Both colliding inputs are the ones the code feeds to the primitive.
\<close>

theorem equal_keys_are_hkdf_collisions:
  assumes "kdf_crate K"
    and "run_request K (KeyDeriver_new K root) r = Some (Inr k)"
    and "run_request K (KeyDeriver_new K root) r' = Some (Inr k)"
    and "canonical_request r \<noteq> canonical_request r'"
  shows "let p = request_path r; q = request_path r' in
         extract_call K root p \<noteq> extract_call K root q \<and>
           case_prod (hkdf_extract K) (extract_call K root p)
             = case_prod (hkdf_extract K) (extract_call K root q)
       \<or> expand_call K root p \<noteq> expand_call K root q \<and>
           (\<exists>okm. case_prod (\<lambda>prk info. hkdf_expand K prk info 32) (expand_call K root p) = Some okm \<and>
                  case_prod (\<lambda>prk info. hkdf_expand K prk info 32) (expand_call K root q) = Some okm)"
proof -
  have "path_key K root (request_path r) = path_key K root (request_path r')"
    using assms(2,3) kdf_crate.run_request_path [OF assms(1)] by (simp split: if_splits)
  moreover have "request_path r \<noteq> request_path r'"
    using assms(4) by (simp add: request_path_eq_iff)
  ultimately show ?thesis
    unfolding Let_def
    by (rule kdf_crate.equal_keys_collide [OF assms(1)])
      (auto dest: request_path_same_salt request_path_salt)
qed

text \<open>A degenerate HKDF that satisfies the length laws and collides everywhere.\<close>

definition flat_crates :: crates where
  "flat_crates = lite_crates \<lparr> hkdf_extract := \<lambda>_ _. replicate 32 0,
     hkdf_expand := \<lambda>_ _ n. if 255 * 32 < n then None else Some (replicate n 0) \<rparr>"

lemma flat_kdf: "kdf_crate flat_crates"
  by unfold_locales (simp_all add: flat_crates_def lite_crates_def ref_crates_def)

theorem equal_keys_are_hkdf_collisions_witness:
  "let p = request_path (AgentKey ''a''); q = request_path (SshUserKey ''a''); root = replicate 32 1 in
     extract_call flat_crates root p \<noteq> extract_call flat_crates root q \<and>
       case_prod (hkdf_extract flat_crates) (extract_call flat_crates root p)
         = case_prod (hkdf_extract flat_crates) (extract_call flat_crates root q)
   \<or> expand_call flat_crates root p \<noteq> expand_call flat_crates root q \<and>
       (\<exists>okm. case_prod (\<lambda>prk info. hkdf_expand flat_crates prk info 32) (expand_call flat_crates root p)
                = Some okm \<and>
              case_prod (\<lambda>prk info. hkdf_expand flat_crates prk info 32) (expand_call flat_crates root q)
                = Some okm)"
proof -
  have key: "path_key flat_crates root p = replicate 32 0" for root p
    by (simp add: path_key_def expand_call_def flat_crates_def)
  have run: "run_request flat_crates (KeyDeriver_new flat_crates (replicate 32 1)) r
               = Some (Inr (replicate 32 0))" if "valid_request r" for r
    using that by (simp add: kdf_crate.run_request_path [OF flat_kdf] key)
  show ?thesis
    using equal_keys_are_hkdf_collisions
      [OF flat_kdf run [of "AgentKey ''a''"] run [of "SshUserKey ''a''"]]
    by (simp add: Let_def)
qed

text \<open>
  \<^verbatim>\<open>derive_keys\<close> returns, field by field, what \<^verbatim>\<open>derive_key\<close> returns for the purposes of
  \<^verbatim>\<open>KeyPurpose::all\<close> in order; that list has no duplicates, is complete up to the deprecated
  aliases, and its members have pairwise different info strings.
\<close>

theorem derive_keys_lists_all_purposes:
  "map_option (\<lambda>k. [dk_signing k, dk_rns_encryption k, dk_age k, dk_wireguard k, dk_ssh_host k,
       dk_yggdrasil k, dk_i2p_signing k, dk_i2p_encryption k, dk_tor k]) (derive_keys K root)
     = those (map (derive_key K root) purpose_all)
   \<and> distinct (map purpose_info purpose_all)
   \<and> set purpose_all = range canonical_purpose"
proof (intro conjI)
  show "map_option (\<lambda>k. [dk_signing k, dk_rns_encryption k, dk_age k, dk_wireguard k, dk_ssh_host k,
       dk_yggdrasil k, dk_i2p_signing k, dk_i2p_encryption k, dk_tor k]) (derive_keys K root)
     = those (map (derive_key K root) purpose_all)"
    by (simp add: derive_keys_def derive_all_def derive_key_def purpose_all_def
        split: bind_split option.split)
  show "distinct (map purpose_info purpose_all)"
    by (simp add: purpose_all_def)
  have "canonical_purpose p \<in> set purpose_all" for p
    by (cases p) (simp_all add: purpose_all_def)
  moreover have "canonical_purpose p = p" if "p \<in> set purpose_all" for p
    using that by (auto simp: purpose_all_def)
  ultimately show "set purpose_all = range canonical_purpose"
    by (metis image_iff subsetI subset_antisym UNIV_I)
qed

end
