(* ===== verification/IdentityId.thy ===== *)
theory IdentityId
  imports RefCrates "HOL-Library.List_Lexorder"
begin

text \<open>
  The canonical 16-byte identifier of an identity, \<^verbatim>\<open>src/identity_id.rs\<close>: derivation from a
  public key, the strict text form and the CBOR form.
\<close>

datatype identity_id = IdentityId (as_bytes: "byte list")

datatype identity_id_error = IdentityIdError

definition IdentityId_from_public_key :: "crates \<Rightarrow> byte list \<Rightarrow> identity_id" where
  "IdentityId_from_public_key K public_key = IdentityId (take 16 (sha256_digest K public_key))"

definition IdentityId_from_bytes :: "byte list \<Rightarrow> identity_id" where
  "IdentityId_from_bytes bytes = IdentityId bytes"

definition matches_public_key :: "crates \<Rightarrow> identity_id \<Rightarrow> byte list \<Rightarrow> bool" where
  "matches_public_key K i public_key =
     ct_eq K (as_bytes i) (as_bytes (IdentityId_from_public_key K public_key))"

definition IdentityId_to_string :: "crates \<Rightarrow> identity_id \<Rightarrow> string" where
  "IdentityId_to_string K i = hex_encode K (as_bytes i)"

definition IdentityId_from_str :: "crates \<Rightarrow> string \<Rightarrow> identity_id_error + identity_id" where
  "IdentityId_from_str K value =
     (if length value \<noteq> 32 \<or> \<not> list_all is_lower_hex value then Inl IdentityIdError
      else
        bind_res (map_err (\<lambda>_. IdentityIdError) (hex_decode K value)) (\<lambda>decoded.
        bind_res (ok_or IdentityIdError (try_into_array 16 decoded)) (\<lambda>bytes.
        Inr (IdentityId bytes))))"

definition IdentityId_encode :: "cbor \<Rightarrow> identity_id \<Rightarrow> byte list option" where
  "IdentityId_encode C i = enc_bytes C (as_bytes i)"

definition IdentityId_decode :: "cbor \<Rightarrow> byte list \<Rightarrow> (identity_id \<times> byte list) option" where
  "IdentityId_decode C d = do {
     (bytes, rest) \<leftarrow> dec_bytes C d;
     bytes \<leftarrow> try_into_array 16 bytes;
     Some (IdentityId bytes, rest)
   }"

text \<open>The derived ordering compares the byte arrays.\<close>

instantiation identity_id :: linorder
begin

definition less_eq_identity_id :: "identity_id \<Rightarrow> identity_id \<Rightarrow> bool" where
  "less_eq_identity_id i j \<longleftrightarrow> as_bytes i \<le> as_bytes j"

definition less_identity_id :: "identity_id \<Rightarrow> identity_id \<Rightarrow> bool" where
  "less_identity_id i j \<longleftrightarrow> as_bytes i < as_bytes j"

instance
  by intro_classes (auto simp: less_eq_identity_id_def less_identity_id_def identity_id.expand)

end

text \<open>The invariant of the type: sixteen bytes.\<close>

definition wf_identity_id :: "identity_id \<Rightarrow> bool" where
  "wf_identity_id i \<longleftrightarrow> length (as_bytes i) = 16"

lemma wf_from_public_key [simp]:
  "hash_crate K \<Longrightarrow> wf_identity_id (IdentityId_from_public_key K pk)"
  by (simp add: wf_identity_id_def IdentityId_from_public_key_def hash_crate.length_sha256)

lemma matches_public_key_iff:
  "ct_crate K \<Longrightarrow> matches_public_key K i pk \<longleftrightarrow> i = IdentityId_from_public_key K pk"
  by (simp add: matches_public_key_def ct_crate.ct_eq_iff identity_id.expand) (metis identity_id.expand)

context hex_crate
begin

lemma from_str_to_string:
  "wf_identity_id i \<Longrightarrow> IdentityId_from_str K (IdentityId_to_string K i) = Inr i"
  using hex_encode_lower
  by (auto simp: IdentityId_from_str_def IdentityId_to_string_def wf_identity_id_def list_all_iff
      try_into_array_def)

lemma from_str_Inr:
  assumes "IdentityId_from_str K s = Inr i"
  shows "wf_identity_id i \<and> IdentityId_to_string K i = s"
proof -
  from assms have len: "length s = 32" and lower: "list_all is_lower_hex s"
    by (auto simp: IdentityId_from_str_def split: if_splits)
  then obtain b where "hex_decode K s = Inr b" "hex_encode K b = s"
    using hex_decode_lower [of s] by (auto simp: list_all_iff)
  with assms len lower show ?thesis
    by (auto simp: IdentityId_from_str_def IdentityId_to_string_def wf_identity_id_def res_iffs)
qed

lemma from_str_accepts:
  "is_ok (IdentityId_from_str K s) \<longleftrightarrow> length s = 32 \<and> list_all is_lower_hex s"
proof
  assume "length s = 32 \<and> list_all is_lower_hex s"
  moreover from this obtain b where "hex_decode K s = Inr b"
    using hex_decode_lower [of s] by (auto simp: list_all_iff)
  moreover from this have "length s = 2 * length b" by (rule length_hex_decode)
  ultimately show "is_ok (IdentityId_from_str K s)"
    by (simp add: IdentityId_from_str_def try_into_array_def)
qed (auto simp: IdentityId_from_str_def split: if_splits)

end

subsection \<open>Properties\<close>

text \<open>
  The text form of an identifier is canonical: parsing accepts exactly 32 lower-case
  hexadecimal digits, parsing what \<^verbatim>\<open>Display\<close> printed returns the identifier, and whatever
  parses prints back to the very same text, so no two texts name one identifier.
\<close>

theorem identity_id_text_roundtrip:
  assumes "hex_crate K"
  shows "(is_ok (IdentityId_from_str K s) \<longleftrightarrow> length s = 32 \<and> list_all is_lower_hex s)
       \<and> (wf_identity_id i \<longrightarrow> IdentityId_from_str K (IdentityId_to_string K i) = Inr i)
       \<and> (IdentityId_from_str K s = Inr j \<longrightarrow> wf_identity_id j \<and> IdentityId_to_string K j = s)"
  using hex_crate.from_str_accepts [OF assms] hex_crate.from_str_to_string [OF assms]
    hex_crate.from_str_Inr [OF assms] by blast

theorem identity_id_text_roundtrip_witness:
  "\<not> is_ok (IdentityId_from_str ref_crates ''6279E31aff9bc151638ac305d88ab6bc'')
   \<and> is_ok (IdentityId_from_str ref_crates ''6279e31aff9bc151638ac305d88ab6bc'')
   \<and> IdentityId_from_str ref_crates
       (IdentityId_to_string ref_crates (IdentityId (replicate 16 0xa7)))
     = Inr (IdentityId (replicate 16 0xa7))"
proof -
  note law = identity_id_text_roundtrip [OF ref_hex.hex_crate_axioms]
  have "\<not> list_all is_lower_hex ''6279E31aff9bc151638ac305d88ab6bc''"
    "list_all is_lower_hex ''6279e31aff9bc151638ac305d88ab6bc''"
    by (simp_all add: is_lower_hex_def)
  then show ?thesis
    using law [of "''6279E31aff9bc151638ac305d88ab6bc''"]
      law [of "''6279e31aff9bc151638ac305d88ab6bc''" "IdentityId (replicate 16 0xa7)"]
    by (simp add: wf_identity_id_def)
qed

end
