(* ===== verification/Identity.thy ===== *)
theory Identity
  imports Derive IdentityId
begin

text \<open>
  Public keys and signatures from seeds (\<^verbatim>\<open>src/pubkey.rs\<close>) and the identity built on them
  (\<^verbatim>\<open>src/identity.rs\<close>): the identity hash, signed attestations and the public view.
\<close>

subsection \<open>pubkey.rs\<close>

definition ed25519_signing_key :: "byte list \<Rightarrow> byte list" where
  "ed25519_signing_key seed = seed"

definition ed25519_verifying_key :: "crates \<Rightarrow> byte list \<Rightarrow> byte list" where
  "ed25519_verifying_key K seed = ed_verifying_key K seed"

definition x25519_public_key :: "crates \<Rightarrow> byte list \<Rightarrow> byte list" where
  "x25519_public_key K secret = x25519_public K secret"

definition sign_with_seed :: "crates \<Rightarrow> byte list \<Rightarrow> byte list \<Rightarrow> byte list" where
  "sign_with_seed K seed data = ed_sign K (ed25519_signing_key seed) data"

subsection \<open>identity.rs\<close>

definition IDENTITY_HASH_BYTES :: nat where
  "IDENTITY_HASH_BYTES = 16"

definition identity_pubkey :: "crates \<Rightarrow> byte list \<Rightarrow> byte list option" where
  "identity_pubkey K root = do {
     seed \<leftarrow> derive K (KeyDeriver_new K root) Signing;
     Some (ed25519_verifying_key K seed)
   }"

definition identity_hash :: "crates \<Rightarrow> byte list \<Rightarrow> string option" where
  "identity_hash K root = do {
     pubkey \<leftarrow> identity_pubkey K root;
     Some (IdentityId_to_string K (IdentityId_from_public_key K pubkey))
   }"

record identity_info =
  info_hash :: string
  info_pubkey :: "byte list"

definition IdentityInfo_from_root :: "crates \<Rightarrow> byte list \<Rightarrow> identity_info option" where
  "IdentityInfo_from_root K root = do {
     pubkey \<leftarrow> identity_pubkey K root;
     let hash = IdentityId_to_string K (IdentityId_from_public_key K pubkey);
     Some \<lparr>info_hash = hash, info_pubkey = pubkey\<rparr>
   }"

record signed_attestation =
  att_hash :: string
  att_pubkey :: "byte list"
  att_signature :: "byte list"

definition identity_sign :: "crates \<Rightarrow> byte list \<Rightarrow> byte list \<Rightarrow> signed_attestation option" where
  "identity_sign K root data = do {
     seed \<leftarrow> derive K (KeyDeriver_new K root) Signing;
     let signature = sign_with_seed K seed data;
     pubkey \<leftarrow> identity_pubkey K root;
     hash \<leftarrow> identity_hash K root;
     Some \<lparr>att_hash = hash, att_pubkey = pubkey, att_signature = signature\<rparr>
   }"

definition identity_verify :: "crates \<Rightarrow> byte list \<Rightarrow> byte list \<Rightarrow> byte list \<Rightarrow> bool" where
  "identity_verify K pubkey data signature =
     (if \<not> ed_parse_key K pubkey then False else ed_verify K pubkey data signature)"

record public_identity =
  pi_hash :: string
  pi_pubkey :: "byte list"

definition PublicIdentity_from_pubkey :: "crates \<Rightarrow> byte list \<Rightarrow> public_identity" where
  "PublicIdentity_from_pubkey K pubkey =
     (let hash = IdentityId_to_string K (IdentityId_from_public_key K pubkey)
      in \<lparr>pi_hash = hash, pi_pubkey = pubkey\<rparr>)"

definition PublicIdentity_from_hex :: "crates \<Rightarrow> string \<Rightarrow> string + public_identity" where
  "PublicIdentity_from_hex K hex_str =
     bind_res (map_err (\<lambda>e. ''invalid hex: '' @ e) (hex_decode K hex_str)) (\<lambda>bytes.
     bind_res (ok_or ''pubkey must be exactly 32 bytes'' (try_into_array 32 bytes)) (\<lambda>pubkey.
     Inr (PublicIdentity_from_pubkey K pubkey)))"

definition verify_hash :: "crates \<Rightarrow> public_identity \<Rightarrow> string \<Rightarrow> bool" where
  "verify_hash K self claimed_hash =
     (case IdentityId_from_str K claimed_hash of
        Inl _ \<Rightarrow> False
      | Inr claimed \<Rightarrow> matches_public_key K claimed (pi_pubkey self))"

definition PublicIdentity_verify ::
  "crates \<Rightarrow> public_identity \<Rightarrow> byte list \<Rightarrow> byte list \<Rightarrow> bool" where
  "PublicIdentity_verify K self data signature = identity_verify K (pi_pubkey self) data signature"

subsection \<open>The laws an identity needs of the crates\<close>

text \<open>The canonical identity seed, as the key tree names it.\<close>

definition identity_seed :: "crates \<Rightarrow> byte list \<Rightarrow> byte list" where
  "identity_seed K root = path_key K root (Flat (purpose_info Signing))"

locale identity_crates = hash_crate K + kdf_crate K + ed25519_crate K + hex_crate K + ct_crate K
  for K :: crates
begin

lemma length_identity_seed [simp]: "length (identity_seed K root) = 32"
  by (simp add: identity_seed_def)

lemma derive_signing [simp]:
  "derive K (KeyDeriver_new K root) Signing = Some (identity_seed K root)"
  by (simp add: derive_path identity_seed_def)

lemma identity_pubkey_eq: "identity_pubkey K root = Some (ed_verifying_key K (identity_seed K root))"
  by (simp add: identity_pubkey_def ed25519_verifying_key_def)

lemma identity_hash_eq:
  "identity_hash K root =
     Some (IdentityId_to_string K
       (IdentityId_from_public_key K (ed_verifying_key K (identity_seed K root))))"
  by (simp add: identity_hash_def identity_pubkey_eq)

lemma wf_public [simp]: "wf_identity_id (IdentityId_from_public_key K pk)"
  by (simp add: wf_identity_id_def IdentityId_from_public_key_def)

lemma matches_iff: "matches_public_key K i pk \<longleftrightarrow> i = IdentityId_from_public_key K pk"
  by (rule matches_public_key_iff) unfold_locales

lemma verify_hash_iff:
  "verify_hash K self h \<longleftrightarrow>
     h = IdentityId_to_string K (IdentityId_from_public_key K (pi_pubkey self))"
proof
  assume "verify_hash K self h"
  then show "h = IdentityId_to_string K (IdentityId_from_public_key K (pi_pubkey self))"
    using from_str_Inr [of h] by (auto simp: verify_hash_def matches_iff split: sum.splits)
qed (simp add: verify_hash_def matches_iff from_str_to_string)

lemma identity_sign_eq:
  "identity_sign K root data = Some \<lparr>
     att_hash = IdentityId_to_string K
       (IdentityId_from_public_key K (ed_verifying_key K (identity_seed K root))),
     att_pubkey = ed_verifying_key K (identity_seed K root),
     att_signature = ed_sign K (identity_seed K root) data \<rparr>"
  by (simp add: identity_sign_def identity_pubkey_eq identity_hash_eq sign_with_seed_def
      ed25519_signing_key_def)

end

interpretation ref_identity: identity_crates ref_crates
  by unfold_locales

interpretation lite_identity: identity_crates lite_crates
  by unfold_locales

subsection \<open>Properties\<close>

text \<open>
  C11: An attestation stands on its own: for every root and every message \<^verbatim>\<open>identity_sign\<close> returns
  (it never panics) an attestation that carries the identity hash and the public key of the root,
  whose signature verifies under the carried key, whose hash the public view accepts, and whose
  key read back from hexadecimal is the same public identity.
\<close>

theorem attestation_verifies:
  assumes "identity_crates K"
  shows "\<exists>att. identity_sign K root data = Some att
       \<and> identity_hash K root = Some (att_hash att)
       \<and> identity_pubkey K root = Some (att_pubkey att)
       \<and> IdentityInfo_from_root K root = Some \<lparr>info_hash = att_hash att, info_pubkey = att_pubkey att\<rparr>
       \<and> length (att_hash att) = 2 * IDENTITY_HASH_BYTES
       \<and> identity_verify K (att_pubkey att) data (att_signature att)
       \<and> verify_hash K (PublicIdentity_from_pubkey K (att_pubkey att)) (att_hash att)
       \<and> PublicIdentity_from_hex K (hex_encode K (att_pubkey att))
           = Inr \<lparr>pi_hash = att_hash att, pi_pubkey = att_pubkey att\<rparr>"
proof -
  have "length (ed_verifying_key K (identity_seed K root)) = 32"
    "ed_parse_key K (ed_verifying_key K (identity_seed K root))"
    "ed_verify K (ed_verifying_key K (identity_seed K root)) data
       (ed_sign K (identity_seed K root) data)"
    using assms
    by (simp_all add: identity_crates_def ed25519_crate.length_key ed25519_crate.key_parses
        ed25519_crate.sign_verifies identity_crates.length_identity_seed)
  moreover have "length (IdentityId_to_string K (IdentityId_from_public_key K pk)) = 32" for pk
    using identity_crates.wf_public [OF assms, of pk] assms
    by (simp add: IdentityId_to_string_def identity_crates_def hex_crate.length_hex_encode
        wf_identity_id_def)
  ultimately show ?thesis
    using assms
    by (simp add: identity_crates.identity_sign_eq identity_crates.identity_hash_eq
        identity_crates.identity_pubkey_eq IdentityInfo_from_root_def identity_verify_def
        identity_crates.verify_hash_iff PublicIdentity_from_pubkey_def PublicIdentity_from_hex_def
        IDENTITY_HASH_BYTES_def identity_crates_def hex_crate.hex_decode_encode)
qed

theorem attestation_verifies_witness:
  "\<exists>att. identity_sign ref_crates (replicate 32 0x42) [1, 2, 3] = Some att
     \<and> identity_verify ref_crates (att_pubkey att) [1, 2, 3] (att_signature att)
     \<and> verify_hash ref_crates (PublicIdentity_from_pubkey ref_crates (att_pubkey att)) (att_hash att)"
  using attestation_verifies [OF ref_identity.identity_crates_axioms, of "replicate 32 0x42" "[1, 2, 3]"]
  by blast

text \<open>
  The binding check accepts one text only: for a public identity built from a key,
  \<^verbatim>\<open>verify_hash\<close> succeeds exactly on that identity's own hash; a longer, shorter, upper-case or
  different text is refused.
\<close>

theorem verify_hash_accepts_only_own_hash:
  assumes "identity_crates K"
  shows "verify_hash K (PublicIdentity_from_pubkey K pk) h
           \<longleftrightarrow> h = pi_hash (PublicIdentity_from_pubkey K pk)"
  using assms by (simp add: identity_crates.verify_hash_iff PublicIdentity_from_pubkey_def)

theorem verify_hash_accepts_only_own_hash_witness:
  "\<not> verify_hash ref_crates (PublicIdentity_from_pubkey ref_crates (replicate 32 7)) ''6279''"
proof -
  have "pi_hash (PublicIdentity_from_pubkey ref_crates (replicate 32 7)) \<noteq> ''6279''"
  proof
    assume "pi_hash (PublicIdentity_from_pubkey ref_crates (replicate 32 7)) = ''6279''"
    then have "length (pi_hash (PublicIdentity_from_pubkey ref_crates (replicate 32 7))) = 4" by simp
    then show False
      by (simp add: PublicIdentity_from_pubkey_def IdentityId_to_string_def
          IdentityId_from_public_key_def ref_hex.length_hex_encode)
  qed
  then show ?thesis
    using verify_hash_accepts_only_own_hash [OF ref_identity.identity_crates_axioms,
        of "replicate 32 7" "''6279''"]
    by simp
qed

end
