(* ===== verification/RecordsCommon.thy ===== *)
theory RecordsCommon
  imports RefCrates
begin

text \<open>
  Profile-v1 signed records, \<^verbatim>\<open>src/records/mod.rs\<close>: signature suites, public keys and their
  identifiers, the domain-separated signing frame and the contract that every signed record type
  keeps.  \<^verbatim>\<open>minicbor::to_vec\<close> of a type is a parameter, one function per type.
\<close>

type_synonym 'a to_vec = "'a \<Rightarrow> string + byte list"

definition RECORD_PROFILE_VERSION :: "16 word" where
  "RECORD_PROFILE_VERSION = 1"

definition KEY_ID_DOMAIN :: "byte list" where
  "KEY_ID_DOMAIN = str_bytes ''styrene-key-id-v1'' @ [0]"

definition RUNTIME_CERTIFICATE_DOMAIN :: "byte list" where
  "RUNTIME_CERTIFICATE_DOMAIN = str_bytes ''styrene-runtime-certificate-v1''"

definition LIFECYCLE_TRANSITION_DOMAIN :: "byte list" where
  "LIFECYCLE_TRANSITION_DOMAIN = str_bytes ''styrene-lifecycle-transition-v1''"

definition MAX_RUNTIME_CERTIFICATE_BYTES :: nat where
  "MAX_RUNTIME_CERTIFICATE_BYTES = 16384"

definition MAX_LIFECYCLE_TRANSITION_BYTES :: nat where
  "MAX_LIFECYCLE_TRANSITION_BYTES = 65535"

datatype signature_suite = Suite_Ed25519 | Suite_EcdsaP256Sha256 | Suite_RsaPssSha256

fun suite_id :: "signature_suite \<Rightarrow> 16 word" where
  "suite_id Suite_Ed25519 = 0"
| "suite_id Suite_EcdsaP256Sha256 = 1"
| "suite_id Suite_RsaPssSha256 = 2"

record rsa_public_key =
  modulus :: "byte list"
  exponent :: "32 word"

datatype public_key = PK_Ed25519 "byte list" | PK_EcdsaP256 "byte list" | PK_RsaPss rsa_public_key

datatype record_error =
    Encode string
  | UnsupportedVersion "16 word"
  | TooLarge nat nat
  | LengthOverflow
  | InvalidDomain
  | InvalidIdentifier
  | InvalidPublicKey
  | SuiteMismatch
  | KeyIdMismatch
  | InvalidValidity
  | InvalidCustody
  | InvalidDomainKey
  | InvalidTransition
  | InvalidRevision
  | InvalidReconciliation

definition encode_error :: "string \<Rightarrow> record_error" where
  "encode_error e = Encode e"

subsection \<open>Public keys\<close>

fun suite :: "public_key \<Rightarrow> signature_suite" where
  "suite (PK_Ed25519 _) = Suite_Ed25519"
| "suite (PK_EcdsaP256 _) = Suite_EcdsaP256Sha256"
| "suite (PK_RsaPss _) = Suite_RsaPssSha256"

fun PublicKey_validate :: "public_key \<Rightarrow> record_error + unit" where
  "PublicKey_validate (PK_Ed25519 _) = Inr ()"
| "PublicKey_validate (PK_EcdsaP256 bytes) =
     (if bytes ! 0 = 2 \<or> bytes ! 0 = 3 then Inr () else Inl InvalidPublicKey)"
| "PublicKey_validate (PK_RsaPss key) =
     bind_res (ok_or InvalidPublicKey (usize_checked_mul (length (modulus key)) 8)) (\<lambda>bits.
     if \<not> (bits = 2048 \<or> bits = 3072 \<or> bits = 4096)
        \<or> (case modulus key of [] \<Rightarrow> 0 | b # _ \<Rightarrow> b) = 0
        \<or> exponent key \<noteq> 65537
     then Inl InvalidPublicKey else Inr ())"

definition canonical_bytes :: "rsa_public_key to_vec \<Rightarrow> public_key \<Rightarrow> record_error + byte list" where
  "canonical_bytes to_rsa self =
     bind_res (PublicKey_validate self) (\<lambda>_.
       case self of
         PK_Ed25519 bytes \<Rightarrow> Inr bytes
       | PK_EcdsaP256 bytes \<Rightarrow> Inr bytes
       | PK_RsaPss key \<Rightarrow> map_err encode_error (to_rsa key))"

text \<open>The hasher is fed in pieces; its digest is that of their concatenation.\<close>

definition key_id_preimage :: "public_key \<Rightarrow> byte list \<Rightarrow> byte list" where
  "key_id_preimage pk canonical = KEY_ID_DOMAIN @ u16_be (suite_id (suite pk)) @ canonical"

definition derive_key_id ::
  "crates \<Rightarrow> rsa_public_key to_vec \<Rightarrow> public_key \<Rightarrow> record_error + byte list" where
  "derive_key_id K to_rsa pk =
     bind_res (canonical_bytes to_rsa pk) (\<lambda>canonical.
     Inr (sha256_digest K (key_id_preimage pk canonical)))"

subsection \<open>The signing frame\<close>

definition signing_frame :: "byte list \<Rightarrow> byte list \<Rightarrow> record_error + byte list" where
  "signing_frame domain protected =
     bind_res (ok_or LengthOverflow (u16_try_from (length domain))) (\<lambda>domain_len.
     bind_res (ok_or LengthOverflow (u32_try_from (length protected))) (\<lambda>protected_len.
     if domain = [] \<or> \<not> list_all (\<lambda>b. b < 128) domain then Inl InvalidDomain
     else Inr (u16_be domain_len @ domain @ u16_be RECORD_PROFILE_VERSION
                 @ u32_be protected_len @ protected)))"

definition record_sha256 :: "crates \<Rightarrow> byte list \<Rightarrow> byte list" where
  "record_sha256 K bytes = sha256_digest K bytes"

definition validate_ascii_identifier :: "string \<Rightarrow> nat \<Rightarrow> record_error + unit" where
  "validate_ascii_identifier value mx =
     (let bytes = str_bytes value in
      if bytes = [] \<or> mx < length bytes \<or> \<not> list_all (\<lambda>b. 0x21 \<le> b \<and> b \<le> 0x7e) bytes
      then Inl InvalidIdentifier else Inr ())"

subsection \<open>Lemmas\<close>

text \<open>The type invariant of a public key: the sizes of its arrays.\<close>

fun wf_public_key :: "public_key \<Rightarrow> bool" where
  "wf_public_key (PK_Ed25519 b) \<longleftrightarrow> length b = 32"
| "wf_public_key (PK_EcdsaP256 b) \<longleftrightarrow> length b = 33"
| "wf_public_key (PK_RsaPss _) \<longleftrightarrow> True"

lemma suite_id_inject [simp]: "suite_id s = suite_id t \<longleftrightarrow> s = t"
  by (cases s; cases t) simp_all

lemma signing_frame_Inr_iff:
  "signing_frame d p = Inr f \<longleftrightarrow>
     length d < 2 ^ 16 \<and> length p < 2 ^ 32 \<and> d \<noteq> [] \<and> list_all (\<lambda>b. b < 128) d
     \<and> f = u16_be (of_nat (length d)) @ d @ u16_be RECORD_PROFILE_VERSION
             @ u32_be (of_nat (length p)) @ p"
  by (auto simp: signing_frame_def u16_try_from_def u32_try_from_def res_iffs split: if_splits)

text \<open>Length-prefixed data reads back, whatever follows.\<close>

lemma frame_prefix_inject:
  assumes "length d < 2 ^ 16" and "length d' < 2 ^ 16"
    and "u16_be (of_nat (length d)) @ d @ r = u16_be (of_nat (length d')) @ d' @ r'"
  shows "d = d' \<and> r = r'"
proof -
  from assms(3) have "(of_nat (length d) :: 16 word) = of_nat (length d')"
    by (simp add: append_eq_append_conv)
  then have "unat (of_nat (length d) :: 16 word) = unat (of_nat (length d') :: 16 word)" by simp
  with assms(1,2) have "length d = length d'"
    by (simp add: unat_of_nat take_bit_eq_mod)
  with assms(3) show ?thesis by (simp add: append_eq_append_conv)
qed

lemma signing_frame_inject:
  assumes "signing_frame d p = Inr f" and "signing_frame d' p' = Inr f"
  shows "d = d' \<and> p = p'"
proof -
  note frames = assms [unfolded signing_frame_Inr_iff]
  have "d = d' \<and> u16_be RECORD_PROFILE_VERSION @ u32_be (of_nat (length p)) @ p
          = u16_be RECORD_PROFILE_VERSION @ u32_be (of_nat (length p')) @ p'"
    by (rule frame_prefix_inject) (use frames in auto)
  then show ?thesis by (simp add: append_eq_append_conv)
qed

lemma signing_frame_error:
  "signing_frame d p = Inl e \<longleftrightarrow>
     (if 2 ^ 16 \<le> length d \<or> 2 ^ 32 \<le> length p then e = LengthOverflow
      else (d = [] \<or> \<not> list_all (\<lambda>b. b < 128) d) \<and> e = InvalidDomain)"
  by (auto simp: signing_frame_def u16_try_from_def u32_try_from_def)

lemma of_char_byte_bounds:
  "(0x21 :: byte) \<le> of_char c \<and> (of_char c :: byte) \<le> 0x7e \<longleftrightarrow> 33 \<le> (of_char c :: nat) \<and> of_char c \<le> (126 :: nat)"
proof -
  have "(of_char c :: byte) = word_of_nat (of_char c)"
    by (simp add: of_char_def)
  then have "unat (of_char c :: byte) = of_char c"
    by (simp add: unat_of_nat nat_of_char_less_256 take_bit_nat_eq_self)
  then show ?thesis by (simp add: word_le_nat_alt)
qed

definition security_identifier :: "nat \<Rightarrow> string \<Rightarrow> bool" where
  "security_identifier mx s \<longleftrightarrow>
     0 < length s \<and> length s \<le> mx \<and> (\<forall>c \<in> set s. (of_char c :: nat) \<in> {33..126})"

lemma validate_ascii_identifier_cases:
  "validate_ascii_identifier s mx =
     (if security_identifier mx s then Inr () else Inl InvalidIdentifier)"
proof -
  have "list_all (\<lambda>b. 0x21 \<le> b \<and> b \<le> 0x7e) (str_bytes s)
          \<longleftrightarrow> (\<forall>c \<in> set s. (of_char c :: nat) \<in> {33..126})"
    by (simp add: str_bytes_def list_all_iff of_char_byte_bounds)
  then show ?thesis
    by (auto simp: validate_ascii_identifier_def security_identifier_def Let_def)
qed

lemma PublicKey_validate_Inl: "PublicKey_validate pk = Inl e \<Longrightarrow> e = InvalidPublicKey"
  by (cases pk rule: PublicKey_validate.cases) (auto simp: res_iffs split: if_splits)

subsection \<open>The contract of a signed record type\<close>

text \<open>
  A record type has claims with a check, an encoding of the claims, a record of protected bytes
  and signature with its own encoding, a signing domain and a size limit.
\<close>

locale signed_record =
  fixes K :: crates
    and domain :: "byte list"
    and limit :: nat
    and check :: "'c \<Rightarrow> record_error + unit"
    and to_claims :: "'c to_vec"
    and to_rec :: "'r to_vec"
    and make :: "byte list \<Rightarrow> byte list \<Rightarrow> 'r"
    and protected_bytes :: "'c \<Rightarrow> record_error + byte list"
    and signing_input :: "'c \<Rightarrow> record_error + byte list"
    and from_claims :: "'c \<Rightarrow> byte list \<Rightarrow> record_error + 'r"
    and encode :: "'r \<Rightarrow> record_error + byte list"
    and digest :: "'r \<Rightarrow> record_error + byte list"
  assumes protected_law:
      "protected_bytes c = bind_res (check c) (\<lambda>_. map_err Encode (to_claims c))"
    and input_law: "signing_input c = bind_res (protected_bytes c) (signing_frame domain)"
    and from_claims_law:
      "from_claims c s = bind_res (protected_bytes c) (\<lambda>p. Inr (make p s))"
    and encode_law:
      "encode r = bind_res (map_err Encode (to_rec r)) (\<lambda>b.
         if limit < length b then Inl (TooLarge (length b) limit) else Inr b)"
    and digest_law: "digest r = bind_res (encode r) (\<lambda>b. Inr (sha256_digest K b))"
    and domain_ok: "domain \<noteq> []" "length domain < 2 ^ 16" "list_all (\<lambda>b. b < 128) domain"
begin

lemma protected_Inr_iff: "protected_bytes c = Inr p \<longleftrightarrow> check c = Inr () \<and> to_claims c = Inr p"
  by (auto simp: protected_law res_iffs)

text \<open>What is signed frames the protected bytes of the record that is sent.\<close>

lemma signed_is_sent:
  assumes "signing_input c = Inr f" and "from_claims c s = Inr r"
  shows "\<exists>p. to_claims c = Inr p \<and> r = make p s \<and> signing_frame domain p = Inr f \<and> check c = Inr ()"
  using assms by (auto simp: input_law from_claims_law protected_Inr_iff res_iffs)

lemma input_inject:
  assumes "signing_input c = Inr f" and "signing_input c' = Inr f"
  shows "to_claims c = to_claims c'"
  using assms by (auto simp: input_law protected_Inr_iff res_iffs dest: signing_frame_inject)

lemma input_separate:
  assumes "signing_input c = Inr f" and "signing_frame d p = Inr f"
  shows "d = domain"
  using assms by (auto simp: input_law res_iffs dest: signing_frame_inject)

lemma input_errors:
  "signing_input c = Inl e \<longleftrightarrow>
     check c = Inl e
     \<or> (check c = Inr () \<and> (\<exists>m. to_claims c = Inl m \<and> e = Encode m))
     \<or> (check c = Inr () \<and> (\<exists>p. to_claims c = Inr p \<and> 2 ^ 32 \<le> length p \<and> e = LengthOverflow))"
  using domain_ok by (auto simp: input_law protected_law res_iffs signing_frame_error)

lemma encode_Inr_iff: "encode r = Inr b \<longleftrightarrow> to_rec r = Inr b \<and> length b \<le> limit"
  by (cases "to_rec r") (auto simp: encode_law)

lemma encode_too_large:
  "encode r = Inl (TooLarge n m) \<longleftrightarrow> (\<exists>b. to_rec r = Inr b \<and> n = length b \<and> m = limit \<and> limit < n)"
  by (cases "to_rec r") (auto simp: encode_law)

lemma digest_Inr_iff:
  "digest r = Inr h \<longleftrightarrow> (\<exists>b. to_rec r = Inr b \<and> length b \<le> limit \<and> h = sha256_digest K b)"
  by (auto simp: digest_law encode_Inr_iff res_iffs)

end

subsection \<open>Properties\<close>

text \<open>
  C21: The signing frame is unambiguous: it exists exactly for a non-empty ASCII domain below
  \<open>2 ^ 16\<close> bytes and protected bytes below \<open>2 ^ 32\<close>, it is the two lengths, the domain, the
  version and the bytes in the documented layout, and it determines domain and bytes, so a
  signature in one domain is never one in another.  Lengths are checked before the domain's form.
\<close>

theorem signing_frame_unambiguous:
  "(\<forall>f. signing_frame d p = Inr f \<longleftrightarrow>
      length d < 2 ^ 16 \<and> length p < 2 ^ 32 \<and> d \<noteq> [] \<and> list_all (\<lambda>b. b < 128) d
      \<and> f = be_bytes 2 (length d) @ d @ [0, 1] @ be_bytes 4 (length p) @ p)
   \<and> (\<forall>d' p' f. signing_frame d p = Inr f \<longrightarrow> signing_frame d' p' = Inr f \<longrightarrow> d = d' \<and> p = p')
   \<and> (\<forall>e. signing_frame d p = Inl e \<longleftrightarrow>
        (if 2 ^ 16 \<le> length d \<or> 2 ^ 32 \<le> length p then e = LengthOverflow
         else (d = [] \<or> \<not> list_all (\<lambda>b. b < 128) d) \<and> e = InvalidDomain))"
proof (intro conjI allI)
  fix f
  show "signing_frame d p = Inr f \<longleftrightarrow>
      length d < 2 ^ 16 \<and> length p < 2 ^ 32 \<and> d \<noteq> [] \<and> list_all (\<lambda>b. b < 128) d
      \<and> f = be_bytes 2 (length d) @ d @ [0, 1] @ be_bytes 4 (length p) @ p"
    unfolding signing_frame_Inr_iff RECORD_PROFILE_VERSION_def u16_be_1
    by (metis word_be_of_nat(1,2))
next
  fix e
  show "signing_frame d p = Inl e \<longleftrightarrow>
        (if 2 ^ 16 \<le> length d \<or> 2 ^ 32 \<le> length p then e = LengthOverflow
         else (d = [] \<or> \<not> list_all (\<lambda>b. b < 128) d) \<and> e = InvalidDomain)"
    by (rule signing_frame_error)
qed (use signing_frame_inject in blast)

text \<open>The witness: the frame of a two-byte record in a three-byte domain.\<close>

theorem signing_frame_unambiguous_witness:
  "signing_frame [65, 66, 67] [8, 9] = Inr [0, 3, 65, 66, 67, 0, 1, 0, 0, 0, 2, 8, 9]"
proof -
  have "be_bytes 2 (length [65 :: byte, 66, 67]) = [0, 3]" "be_bytes 4 (length [8 :: byte, 9]) = [0, 0, 0, 2]"
    by code_simp+
  then show ?thesis
    using signing_frame_unambiguous [of "[65, 66, 67]" "[8, 9]"] by simp
qed

text \<open>
  A key identifier binds suite and key: identifiers of two valid keys are equal only when
  their preimages collide under SHA-256 or the keys have the same suite and the same canonical
  bytes; for Ed25519 and P-256 that is the same key.  Only \<^verbatim>\<open>InvalidPublicKey\<close> or an encoder
  error refuses a key.
\<close>

theorem key_id_binds_key:
  assumes "derive_key_id K to_rsa pk = Inr i" and "derive_key_id K to_rsa pk' = Inr i"
  shows "(\<exists>m m'. m \<noteq> m' \<and> sha256_digest K m = i \<and> sha256_digest K m' = i)
       \<or> (suite pk = suite pk' \<and> canonical_bytes to_rsa pk = canonical_bytes to_rsa pk'
          \<and> ((\<forall>k. pk \<noteq> PK_RsaPss k) \<longrightarrow> pk = pk'))"
proof -
  from assms obtain c c' where c: "canonical_bytes to_rsa pk = Inr c" "canonical_bytes to_rsa pk' = Inr c'"
    and i: "i = sha256_digest K (key_id_preimage pk c)" "i = sha256_digest K (key_id_preimage pk' c')"
    by (auto simp: derive_key_id_def res_iffs)
  show ?thesis
  proof (cases "key_id_preimage pk c = key_id_preimage pk' c'")
    case True
    then have "suite pk = suite pk'" "c = c'"
      by (simp_all add: key_id_preimage_def append_eq_append_conv)
    moreover from this have "pk = pk'" if "\<forall>k. pk \<noteq> PK_RsaPss k"
      using c that by (cases pk; cases pk') (auto simp: canonical_bytes_def res_iffs)
    ultimately show ?thesis using c by auto
  qed (use i in metis)
qed

text \<open>The witness: under a constant digest two different keys share an identifier.\<close>

theorem key_id_binds_key_witness:
  "\<exists>m m'. m \<noteq> m'
     \<and> sha256_digest (ref_crates \<lparr> sha256_digest := \<lambda>_. replicate 32 0 \<rparr>) m = replicate 32 0
     \<and> sha256_digest (ref_crates \<lparr> sha256_digest := \<lambda>_. replicate 32 0 \<rparr>) m' = replicate 32 0"
  using key_id_binds_key [of "ref_crates \<lparr> sha256_digest := \<lambda>_. replicate 32 0 \<rparr>" "\<lambda>_. Inl ''unused''"
      "PK_Ed25519 (replicate 32 7)" "replicate 32 0" "PK_Ed25519 (replicate 32 8)"]
  by (simp add: derive_key_id_def canonical_bytes_def)

end
