(* ===== verification/RuntimeCertificate.thy ===== *)
theory RuntimeCertificate
  imports RecordsCommon
begin

text \<open>
  Runtime certificates, \<^verbatim>\<open>src/records/runtime_certificate.rs\<close>: the claims, their validation
  (identifiers, key binding, validity interval, custody evidence) and the signed record.
\<close>

definition MAX_RUNTIME_LIFETIME_MS :: "64 word" where
  "MAX_RUNTIME_LIFETIME_MS = 86400000"

datatype subject_kind = Agent | DurableWorkload

datatype custody_class = SoftwareEphemeral | OsProtected | HardwareNonexportable

datatype canonical_public_key =
    CPK_Ed25519 "byte list"
  | CPK_EcdsaP256 "byte list"
  | CPK_RsaPss rsa_public_key

record runtime_claims =
  rc_profile_version :: "16 word"
  rc_certificate_id :: "byte list"
  rc_issuer_key_id :: "byte list"
  rc_issuer_key_version :: "64 word"
  rc_issuer_suite :: signature_suite
  rc_subject_kind :: subject_kind
  rc_subject_id :: string
  rc_runtime_id :: "byte list"
  rc_runtime_key_id :: "byte list"
  rc_runtime_key_version :: "64 word"
  rc_runtime_suite :: signature_suite
  rc_runtime_public_key :: canonical_public_key
  rc_host_subject_binding :: "byte list"
  rc_not_before_ms :: "64 word"
  rc_not_after_ms :: "64 word"
  rc_renew_after_ms :: "64 word"
  rc_custody_class :: custody_class
  rc_evidence_profile_id :: "string option"
  rc_evidence_digest :: "byte list option"
  rc_attestation_verifier_id :: "byte list option"
  rc_attested_at_ms :: "64 word option"
  rc_degraded :: bool
  rc_predecessor_certificate_digest :: "byte list option"
  rc_issuance_revision :: "64 word"
  rc_extensions_digest :: "byte list option"

fun to_public_key :: "canonical_public_key \<Rightarrow> record_error + public_key" where
  "to_public_key (CPK_Ed25519 v) = Inr (PK_Ed25519 v)"
| "to_public_key (CPK_EcdsaP256 v) =
     bind_res (ok_or InvalidPublicKey (try_into_array 33 v)) (\<lambda>v. Inr (PK_EcdsaP256 v))"
| "to_public_key (CPK_RsaPss v) = Inr (PK_RsaPss v)"

definition validate_times :: "runtime_claims \<Rightarrow> record_error + unit" where
  "validate_times c =
     bind_res (ok_or InvalidValidity (checked_sub (rc_not_after_ms c) (rc_not_before_ms c))) (\<lambda>lifetime.
     bind_res (ok_or InvalidValidity (checked_sub (rc_renew_after_ms c) (rc_not_before_ms c))) (\<lambda>renewal.
     if lifetime = 0 \<or> lifetime > MAX_RUNTIME_LIFETIME_MS \<or> rc_renew_after_ms c \<ge> rc_not_after_ms c
     then Inl InvalidValidity
     else
       let min = lifetime div 2 in
       bind_res (ok_or InvalidValidity (checked_mul lifetime 4)) (\<lambda>m.
       let max = m div 5 in
       if renewal < min \<or> renewal > max then Inl InvalidValidity else Inr ())))"

definition validate_custody :: "runtime_claims \<Rightarrow> record_error + unit" where
  "validate_custody c =
     (let evidence = (rc_evidence_profile_id c \<noteq> None \<and> rc_evidence_digest c \<noteq> None
            \<and> rc_attestation_verifier_id c \<noteq> None \<and> rc_attested_at_ms c \<noteq> None);
          absent = (rc_evidence_profile_id c = None \<and> rc_evidence_digest c = None
            \<and> rc_attestation_verifier_id c = None \<and> rc_attested_at_ms c = None)
      in case rc_custody_class c of
           SoftwareEphemeral \<Rightarrow> if absent then Inr () else Inl InvalidCustody
         | OsProtected \<Rightarrow> if evidence then Inr () else Inl InvalidCustody
         | HardwareNonexportable \<Rightarrow>
             if evidence \<and> \<not> rc_degraded c then Inr () else Inl InvalidCustody)"

definition RuntimeClaims_validate ::
  "crates \<Rightarrow> rsa_public_key to_vec \<Rightarrow> runtime_claims \<Rightarrow> record_error + unit" where
  "RuntimeClaims_validate K to_rsa c =
     (if rc_profile_version c \<noteq> RECORD_PROFILE_VERSION
      then Inl (UnsupportedVersion (rc_profile_version c))
      else
        bind_res (validate_ascii_identifier (rc_subject_id c) 255) (\<lambda>_.
        bind_res (case rc_evidence_profile_id c of
                    Some profile \<Rightarrow> validate_ascii_identifier profile 127
                  | None \<Rightarrow> Inr ()) (\<lambda>_.
        bind_res (to_public_key (rc_runtime_public_key c)) (\<lambda>public_key.
        if suite public_key \<noteq> rc_runtime_suite c then Inl SuiteMismatch
        else
          bind_res (derive_key_id K to_rsa public_key) (\<lambda>key_id.
          if key_id \<noteq> rc_runtime_key_id c then Inl KeyIdMismatch
          else
            bind_res (validate_times c) (\<lambda>_.
            validate_custody c))))))"

definition RuntimeClaims_protected_bytes ::
  "crates \<Rightarrow> rsa_public_key to_vec \<Rightarrow> runtime_claims to_vec \<Rightarrow> runtime_claims
     \<Rightarrow> record_error + byte list" where
  "RuntimeClaims_protected_bytes K to_rsa to_claims c =
     bind_res (RuntimeClaims_validate K to_rsa c) (\<lambda>_. map_err encode_error (to_claims c))"

definition RuntimeClaims_signing_input ::
  "crates \<Rightarrow> rsa_public_key to_vec \<Rightarrow> runtime_claims to_vec \<Rightarrow> runtime_claims
     \<Rightarrow> record_error + byte list" where
  "RuntimeClaims_signing_input K to_rsa to_claims c =
     bind_res (RuntimeClaims_protected_bytes K to_rsa to_claims c) (\<lambda>p.
     signing_frame RUNTIME_CERTIFICATE_DOMAIN p)"

record runtime_certificate =
  rcert_protected :: "byte list"
  rcert_signature :: "byte list"

definition RuntimeCertificate_from_claims ::
  "crates \<Rightarrow> rsa_public_key to_vec \<Rightarrow> runtime_claims to_vec \<Rightarrow> runtime_claims \<Rightarrow> byte list
     \<Rightarrow> record_error + runtime_certificate" where
  "RuntimeCertificate_from_claims K to_rsa to_claims c signature =
     bind_res (RuntimeClaims_protected_bytes K to_rsa to_claims c) (\<lambda>p.
     Inr \<lparr>rcert_protected = p, rcert_signature = signature\<rparr>)"

definition RuntimeCertificate_encode ::
  "runtime_certificate to_vec \<Rightarrow> runtime_certificate \<Rightarrow> record_error + byte list" where
  "RuntimeCertificate_encode to_cert self =
     bind_res (map_err encode_error (to_cert self)) (\<lambda>bytes.
     if length bytes > MAX_RUNTIME_CERTIFICATE_BYTES
     then Inl (TooLarge (length bytes) MAX_RUNTIME_CERTIFICATE_BYTES)
     else Inr bytes)"

definition RuntimeCertificate_digest ::
  "crates \<Rightarrow> runtime_certificate to_vec \<Rightarrow> runtime_certificate \<Rightarrow> record_error + byte list" where
  "RuntimeCertificate_digest K to_cert self =
     bind_res (RuntimeCertificate_encode to_cert self) (\<lambda>b. Inr (record_sha256 K b))"

interpretation runtime_record: signed_record K RUNTIME_CERTIFICATE_DOMAIN MAX_RUNTIME_CERTIFICATE_BYTES
  "RuntimeClaims_validate K to_rsa" to_claims to_cert
  "\<lambda>p s. \<lparr>rcert_protected = p, rcert_signature = s\<rparr>"
  "RuntimeClaims_protected_bytes K to_rsa to_claims"
  "RuntimeClaims_signing_input K to_rsa to_claims"
  "RuntimeCertificate_from_claims K to_rsa to_claims"
  "RuntimeCertificate_encode to_cert" "RuntimeCertificate_digest K to_cert"
  for K to_rsa to_claims to_cert
proof -
  have e: "encode_error = Encode" by (rule ext) (simp add: encode_error_def)
  have ascii: "list_all (\<lambda>b. b < 128) RUNTIME_CERTIFICATE_DOMAIN" by code_simp
  show "signed_record K RUNTIME_CERTIFICATE_DOMAIN MAX_RUNTIME_CERTIFICATE_BYTES
    (RuntimeClaims_validate K to_rsa) to_claims to_cert
    (\<lambda>p s. \<lparr>rcert_protected = p, rcert_signature = s\<rparr>)
    (RuntimeClaims_protected_bytes K to_rsa to_claims)
    (RuntimeClaims_signing_input K to_rsa to_claims)
    (RuntimeCertificate_from_claims K to_rsa to_claims)
    (RuntimeCertificate_encode to_cert) (RuntimeCertificate_digest K to_cert)"
    by unfold_locales
      (simp_all add: RuntimeClaims_signing_input_def RuntimeCertificate_from_claims_def
        RuntimeCertificate_digest_def record_sha256_def RUNTIME_CERTIFICATE_DOMAIN_def
        RuntimeClaims_protected_bytes_def RuntimeCertificate_encode_def e
        ascii [unfolded RUNTIME_CERTIFICATE_DOMAIN_def])
qed

subsection \<open>What the checks promise\<close>

text \<open>The validity rule over the integers: renewal lies in the upper half and within four fifths.\<close>

definition validity_ok :: "nat \<Rightarrow> nat \<Rightarrow> nat \<Rightarrow> bool" where
  "validity_ok nb na ra \<longleftrightarrow>
     nb < na \<and> na \<le> nb + 86400000 \<and> nb \<le> ra \<and> ra < na
     \<and> na - nb \<le> 2 * (ra - nb) + 1 \<and> 5 * (ra - nb) \<le> 4 * (na - nb)"

definition custody_ok :: "runtime_claims \<Rightarrow> bool" where
  "custody_ok c \<longleftrightarrow>
     (let fields = [rc_evidence_profile_id c = None, rc_evidence_digest c = None,
                    rc_attestation_verifier_id c = None, rc_attested_at_ms c = None]
      in if rc_custody_class c = SoftwareEphemeral then fields = [True, True, True, True]
         else fields = [False, False, False, False]
              \<and> (rc_custody_class c = HardwareNonexportable \<longrightarrow> \<not> rc_degraded c))"

definition runtime_key_bound :: "crates \<Rightarrow> rsa_public_key to_vec \<Rightarrow> runtime_claims \<Rightarrow> bool" where
  "runtime_key_bound K to_rsa c \<longleftrightarrow>
     (\<exists>pk. to_public_key (rc_runtime_public_key c) = Inr pk \<and> suite pk = rc_runtime_suite c
         \<and> derive_key_id K to_rsa pk = Inr (rc_runtime_key_id c))"

lemma renewal_window:
  fixes l r m :: nat
  assumes "m = l * 4"
  shows "l div 2 \<le> r \<and> r \<le> m div 5 \<longleftrightarrow> l \<le> 2 * r + 1 \<and> 5 * r \<le> 4 * l"
  using assms by linarith

lemma validity_ok_alt:
  "nb \<le> na \<Longrightarrow> nb \<le> ra \<Longrightarrow>
     validity_ok nb na ra \<longleftrightarrow> na - nb \<noteq> 0 \<and> na - nb \<le> 86400000 \<and> ra < na
       \<and> na - nb \<le> 2 * (ra - nb) + 1 \<and> 5 * (ra - nb) \<le> 4 * (na - nb)"
  unfolding validity_ok_def by linarith

lemma validate_times_cases:
  "validate_times c =
     (if validity_ok (unat (rc_not_before_ms c)) (unat (rc_not_after_ms c)) (unat (rc_renew_after_ms c))
      then Inr () else Inl InvalidValidity)"
proof (cases "unat (rc_not_before_ms c) \<le> unat (rc_not_after_ms c)
              \<and> unat (rc_not_before_ms c) \<le> unat (rc_renew_after_ms c)")
  case True
  define l r where "l = rc_not_after_ms c - rc_not_before_ms c"
    and "r = rc_renew_after_ms c - rc_not_before_ms c"
  from True have l: "checked_sub (rc_not_after_ms c) (rc_not_before_ms c) = Some l"
      "unat l = unat (rc_not_after_ms c) - unat (rc_not_before_ms c)"
    and r: "checked_sub (rc_renew_after_ms c) (rc_not_before_ms c) = Some r"
      "unat r = unat (rc_renew_after_ms c) - unat (rc_not_before_ms c)"
    by (simp_all add: checked_sub_def l_def r_def unat_minus_le)
  have spec: "validity_ok (unat (rc_not_before_ms c)) (unat (rc_not_after_ms c)) (unat (rc_renew_after_ms c))
      \<longleftrightarrow> unat l \<noteq> 0 \<and> unat l \<le> 86400000 \<and> unat (rc_renew_after_ms c) < unat (rc_not_after_ms c)
          \<and> unat l \<le> 2 * unat r + 1 \<and> 5 * unat r \<le> 4 * unat l"
    using validity_ok_alt [of "unat (rc_not_before_ms c)"] True unfolding l(2) r(2) by blast
  have first: "l = 0 \<or> l > MAX_RUNTIME_LIFETIME_MS \<or> rc_renew_after_ms c \<ge> rc_not_after_ms c
      \<longleftrightarrow> unat l = 0 \<or> 86400000 < unat l \<or> unat (rc_not_after_ms c) \<le> unat (rc_renew_after_ms c)"
    by (simp add: word_less_nat_alt word_le_nat_alt MAX_RUNTIME_LIFETIME_MS_def unat_eq_0)
  have second: "\<exists>m. checked_mul l 4 = Some m
      \<and> (\<not> (r < l div 2 \<or> r > m div 5) \<longleftrightarrow> unat l \<le> 2 * unat r + 1 \<and> 5 * unat r \<le> 4 * unat l)"
    if "unat l \<le> 86400000"
  proof -
    from that have m: "checked_mul l 4 = Some (l * 4)" by (simp add: checked_mul_def)
    then have "unat (l * 4) = unat l * 4" by (simp add: checked_mul_Some_iff)
    from renewal_window [OF this, of "unat r"] m show ?thesis
      by (simp add: word_less_nat_alt unat_word_div not_less)
  qed
  show ?thesis
  proof (cases "unat l = 0 \<or> 86400000 < unat l \<or> unat (rc_not_after_ms c) \<le> unat (rc_renew_after_ms c)")
    case True
    then have "validate_times c = Inl InvalidValidity"
      unfolding validate_times_def l(1) r(1) by (simp add: first)
    with True show ?thesis unfolding spec by auto
  next
    case False
    then obtain m where "checked_mul l 4 = Some m"
      "\<not> (r < l div 2 \<or> r > m div 5) \<longleftrightarrow> unat l \<le> 2 * unat r + 1 \<and> 5 * unat r \<le> 4 * unat l"
      using second by auto
    with False first show ?thesis
      unfolding validate_times_def l(1) r(1) spec by (auto simp: Let_def not_less not_le)
  qed
qed (auto simp: validate_times_def validity_ok_def checked_sub_def)

lemma validate_custody_cases:
  "validate_custody c = (if custody_ok c then Inr () else Inl InvalidCustody)"
  by (cases "rc_custody_class c") (auto simp: validate_custody_def custody_ok_def Let_def)

lemma RuntimeClaims_validate_Inr_iff:
  "RuntimeClaims_validate K to_rsa c = Inr () \<longleftrightarrow>
     rc_profile_version c = 1 \<and> security_identifier 255 (rc_subject_id c)
     \<and> (\<forall>p. rc_evidence_profile_id c = Some p \<longrightarrow> security_identifier 127 p)
     \<and> runtime_key_bound K to_rsa c
     \<and> validity_ok (unat (rc_not_before_ms c)) (unat (rc_not_after_ms c)) (unat (rc_renew_after_ms c))
     \<and> custody_ok c"
  unfolding RuntimeClaims_validate_def validate_times_cases validate_custody_cases
    validate_ascii_identifier_cases RECORD_PROFILE_VERSION_def runtime_key_bound_def
  by (auto simp: res_iffs split: option.splits if_splits)

lemma derive_key_id_Inl:
  "derive_key_id K to_rsa pk = Inl e \<Longrightarrow> e = InvalidPublicKey \<or> (\<exists>m. e = Encode m)"
  by (cases pk)
    (auto simp: derive_key_id_def canonical_bytes_def encode_error_def res_iffs dest: PublicKey_validate_Inl
      split: if_splits)

lemma to_public_key_Inl: "to_public_key p = Inl e \<Longrightarrow> e = InvalidPublicKey"
  by (cases p) (auto simp: res_iffs)

lemma RuntimeClaims_validate_custody_error:
  "RuntimeClaims_validate K to_rsa c = Inl InvalidCustody \<longleftrightarrow>
     rc_profile_version c = 1 \<and> security_identifier 255 (rc_subject_id c)
     \<and> (\<forall>p. rc_evidence_profile_id c = Some p \<longrightarrow> security_identifier 127 p)
     \<and> runtime_key_bound K to_rsa c
     \<and> validity_ok (unat (rc_not_before_ms c)) (unat (rc_not_after_ms c)) (unat (rc_renew_after_ms c))
     \<and> \<not> custody_ok c"
  unfolding RuntimeClaims_validate_def validate_times_cases validate_custody_cases
    validate_ascii_identifier_cases RECORD_PROFILE_VERSION_def runtime_key_bound_def
  by (auto simp: res_iffs dest!: to_public_key_Inl derive_key_id_Inl split: option.splits if_splits)

subsection \<open>Properties\<close>

text \<open>
  C12: Validation of runtime claims decides the profile: it accepts exactly the claims of version
  1 with printable identifiers, a runtime key whose suite and identifier are the declared ones, a
  lifetime of 1 ms to 24 h with the renewal between half and four fifths of it (over the integers:
  the checked 64-bit arithmetic never changes the verdict), and custody fields that fit the
  custody class; and custody is what it checks last.
\<close>

theorem runtime_claims_validation:
  "(RuntimeClaims_validate K to_rsa c = Inr () \<longleftrightarrow>
     rc_profile_version c = 1 \<and> security_identifier 255 (rc_subject_id c)
     \<and> (\<forall>p. rc_evidence_profile_id c = Some p \<longrightarrow> security_identifier 127 p)
     \<and> runtime_key_bound K to_rsa c
     \<and> validity_ok (unat (rc_not_before_ms c)) (unat (rc_not_after_ms c)) (unat (rc_renew_after_ms c))
     \<and> custody_ok c)
   \<and> (RuntimeClaims_validate K to_rsa c = Inl InvalidCustody \<longleftrightarrow>
     rc_profile_version c = 1 \<and> security_identifier 255 (rc_subject_id c)
     \<and> (\<forall>p. rc_evidence_profile_id c = Some p \<longrightarrow> security_identifier 127 p)
     \<and> runtime_key_bound K to_rsa c
     \<and> validity_ok (unat (rc_not_before_ms c)) (unat (rc_not_after_ms c)) (unat (rc_renew_after_ms c))
     \<and> \<not> custody_ok c)"
  using RuntimeClaims_validate_Inr_iff RuntimeClaims_validate_custody_error by blast

definition sample_claims :: runtime_claims where
  "sample_claims = \<lparr>
     rc_profile_version = 1, rc_certificate_id = replicate 16 1,
     rc_issuer_key_id = replicate 32 2, rc_issuer_key_version = 1, rc_issuer_suite = Suite_Ed25519,
     rc_subject_kind = DurableWorkload, rc_subject_id = ''workload-1'',
     rc_runtime_id = replicate 16 3,
     rc_runtime_key_id = lite_hash (key_id_preimage (PK_Ed25519 (replicate 32 7)) (replicate 32 7)),
     rc_runtime_key_version = 1, rc_runtime_suite = Suite_Ed25519,
     rc_runtime_public_key = CPK_Ed25519 (replicate 32 7),
     rc_host_subject_binding = replicate 32 4,
     rc_not_before_ms = 1000, rc_not_after_ms = 11000, rc_renew_after_ms = 7000,
     rc_custody_class = SoftwareEphemeral, rc_evidence_profile_id = None,
     rc_evidence_digest = None, rc_attestation_verifier_id = None, rc_attested_at_ms = None,
     rc_degraded = True, rc_predecessor_certificate_digest = None, rc_issuance_revision = 1,
     rc_extensions_digest = None \<rparr>"

theorem runtime_claims_validation_witness:
  "RuntimeClaims_validate lite_crates (\<lambda>_. Inl ''unused'') sample_claims = Inr ()
   \<and> RuntimeClaims_validate lite_crates (\<lambda>_. Inl ''unused'')
       (sample_claims \<lparr> rc_custody_class := OsProtected \<rparr>) = Inl InvalidCustody"
proof -
  have key: "runtime_key_bound lite_crates (\<lambda>_. Inl ''unused'') sample_claims"
    "runtime_key_bound lite_crates (\<lambda>_. Inl ''unused'') (sample_claims \<lparr> rc_custody_class := OsProtected \<rparr>)"
    by (simp_all add: runtime_key_bound_def sample_claims_def derive_key_id_def canonical_bytes_def
        lite_crates_def)
  show ?thesis
    using runtime_claims_validation [of lite_crates "\<lambda>_. Inl ''unused''" sample_claims]
      runtime_claims_validation [of lite_crates "\<lambda>_. Inl ''unused''"
        "sample_claims \<lparr> rc_custody_class := OsProtected \<rparr>"] key
    by (simp add: sample_claims_def security_identifier_def validity_ok_def custody_ok_def)
qed

end
