(* ===== verification/LifecycleTransition.thy ===== *)
theory LifecycleTransition
  imports RuntimeCertificate "HOL-Library.List_Lexorder"
begin

text \<open>
  Lifecycle transitions, \<^verbatim>\<open>src/records/lifecycle_transition.rs\<close>: domain keys, reconciliation of
  forks, the consistency rules of a transition and the signed record.
\<close>

datatype lifecycle_domain_key =
    DK_OwnerState string
  | DK_Authority string "byte list"
  | DK_RuntimeCertificate "byte list" subject_kind string
  | DK_Revocation "byte list"
  | DK_EnrollmentNonce "byte list"
  | DK_ReplicaQuota "byte list" "byte list"
  | DK_RecoveryPolicy string "64 word"
  | DK_ApiGrant "byte list" "byte list"
  | DK_AuditPurge string
  | DK_KeyFamily "byte list"

definition LifecycleDomainKey_validate :: "lifecycle_domain_key \<Rightarrow> record_error + unit" where
  "LifecycleDomainKey_validate self =
     map_err (\<lambda>_. InvalidDomainKey)
       (case self of
          DK_OwnerState domain \<Rightarrow> validate_ascii_identifier domain 255
        | DK_AuditPurge domain \<Rightarrow> validate_ascii_identifier domain 255
        | DK_Authority domain _ \<Rightarrow> validate_ascii_identifier domain 255
        | DK_RecoveryPolicy domain _ \<Rightarrow> validate_ascii_identifier domain 255
        | DK_RuntimeCertificate _ _ subject \<Rightarrow> validate_ascii_identifier subject 255
        | _ \<Rightarrow> Inr ())"

datatype transition_kind =
    Bootstrap | Issue | Activate | Retire | Suspend | Reinstate | RevokeAdministrative
  | RevokeCompromise | Consume | Tombstone | Reconcile | Grant | PurgeAuthorize

datatype target_kind =
    TK_RuntimeCertificate | TK_KeyVersion | TK_Authority | TK_OwnerState | TK_EnrollmentChallenge
  | TK_ReplicaLease | TK_RecoveryPolicy | TK_ApiGrant | TK_AuditPurgeProposal
  | TK_LifecycleTransition

datatype reason_code =
    Unspecified | RoutineRenewal | OperatorRequest | PolicyViolation | KeyCompromise
  | ProviderOrHostCompromise | AuthorityCompromise | AttestationInvalidation | LostCustody
  | Superseded | ProviderOperationFailed | RecoveryAction

datatype descendant_scope =
    TargetOnly | KeyVersionAndCertificates | AuthorityDescendants | ProviderOrHostBoundary
  | TrustDomain

record reconciliation =
  fork_predecessor_digest :: "byte list"
  winning_head_digest :: "byte list"
  rejected_head_digests :: "byte list list"
  superior_domain_key :: lifecycle_domain_key
  superior_transition_digest :: "byte list"

text \<open>\<^verbatim>\<open>windows(2).any(f)\<close>.\<close>

fun windows2_any :: "('a \<Rightarrow> 'a \<Rightarrow> bool) \<Rightarrow> 'a list \<Rightarrow> bool" where
  "windows2_any f (x # y # xs) \<longleftrightarrow> f x y \<or> windows2_any f (y # xs)"
| "windows2_any f _ \<longleftrightarrow> False"

definition Reconciliation_validate :: "reconciliation \<Rightarrow> record_error + unit" where
  "Reconciliation_validate self =
     (if rejected_head_digests self = [] \<or> length (rejected_head_digests self) > 64
      then Inl InvalidReconciliation
      else if list_ex (\<lambda>d. d = winning_head_digest self) (rejected_head_digests self)
              \<or> windows2_any (\<lambda>a b. a \<ge> b) (rejected_head_digests self)
      then Inl InvalidReconciliation
      else bind_res (LifecycleDomainKey_validate (superior_domain_key self)) (\<lambda>_. Inr ()))"

record lifecycle_claims =
  lt_profile_version :: "16 word"
  lt_transition_id :: "byte list"
  lt_domain_key :: lifecycle_domain_key
  lt_revision :: "64 word"
  lt_previous_transition_digest :: "byte list option"
  lt_transition_kind :: transition_kind
  lt_target_kind :: target_kind
  lt_target_id :: "byte list"
  lt_effective_at_ms :: "64 word"
  lt_reason_code :: reason_code
  lt_issuer_key_id :: "byte list"
  lt_issuer_key_version :: "64 word"
  lt_issuer_suite :: signature_suite
  lt_replacement_digest :: "byte list option"
  lt_compromise_not_before_ms :: "64 word option"
  lt_descendant_scope :: descendant_scope
  lt_reconciliation :: "reconciliation option"
  lt_extensions_digest :: "byte list option"

text \<open>The \<^verbatim>\<open>match\<close> on the transition kind and the reconciliation payload.\<close>

definition validate_fork :: "transition_kind \<Rightarrow> reconciliation option \<Rightarrow> record_error + unit" where
  "validate_fork kind payload =
     (case (kind, payload) of
        (Reconcile, Some value) \<Rightarrow> Reconciliation_validate value
      | (Reconcile, None) \<Rightarrow> Inl InvalidReconciliation
      | (_, Some _) \<Rightarrow> Inl InvalidReconciliation
      | _ \<Rightarrow> Inr ())"

definition LifecycleClaims_validate :: "lifecycle_claims \<Rightarrow> record_error + unit" where
  "LifecycleClaims_validate c =
     (if lt_profile_version c \<noteq> RECORD_PROFILE_VERSION
      then Inl (UnsupportedVersion (lt_profile_version c))
      else
        bind_res (LifecycleDomainKey_validate (lt_domain_key c)) (\<lambda>_.
        let bootstrap = (lt_transition_kind c = Bootstrap) in
        if bootstrap \<noteq> (lt_revision c = 0 \<and> lt_previous_transition_digest c = None)
        then Inl InvalidRevision
        else if \<not> bootstrap \<and> (lt_revision c = 0 \<or> lt_previous_transition_digest c = None)
        then Inl InvalidRevision
        else
          let compromise = (lt_transition_kind c = RevokeCompromise) in
          if \<not> compromise \<and> lt_compromise_not_before_ms c \<noteq> None then Inl InvalidTransition
          else if (case lt_compromise_not_before_ms c of
                     Some start \<Rightarrow> start > lt_effective_at_ms c | None \<Rightarrow> False)
          then Inl InvalidTransition
          else if compromise \<and> lt_descendant_scope c = TargetOnly then Inl InvalidTransition
          else if \<not> compromise \<and> lt_descendant_scope c \<noteq> TargetOnly then Inl InvalidTransition
          else
            bind_res (validate_fork (lt_transition_kind c) (lt_reconciliation c)) (\<lambda>_. Inr ())))"

definition LifecycleClaims_protected_bytes ::
  "lifecycle_claims to_vec \<Rightarrow> lifecycle_claims \<Rightarrow> record_error + byte list" where
  "LifecycleClaims_protected_bytes to_claims c =
     bind_res (LifecycleClaims_validate c) (\<lambda>_. map_err encode_error (to_claims c))"

definition LifecycleClaims_signing_input ::
  "lifecycle_claims to_vec \<Rightarrow> lifecycle_claims \<Rightarrow> record_error + byte list" where
  "LifecycleClaims_signing_input to_claims c =
     bind_res (LifecycleClaims_protected_bytes to_claims c) (\<lambda>p.
     signing_frame LIFECYCLE_TRANSITION_DOMAIN p)"

record lifecycle_transition =
  ltran_protected :: "byte list"
  ltran_signature :: "byte list"

definition LifecycleTransition_from_claims ::
  "lifecycle_claims to_vec \<Rightarrow> lifecycle_claims \<Rightarrow> byte list \<Rightarrow> record_error + lifecycle_transition" where
  "LifecycleTransition_from_claims to_claims c signature =
     bind_res (LifecycleClaims_protected_bytes to_claims c) (\<lambda>p.
     Inr \<lparr>ltran_protected = p, ltran_signature = signature\<rparr>)"

definition LifecycleTransition_encode ::
  "lifecycle_transition to_vec \<Rightarrow> lifecycle_transition \<Rightarrow> record_error + byte list" where
  "LifecycleTransition_encode to_rec self =
     bind_res (map_err encode_error (to_rec self)) (\<lambda>bytes.
     if length bytes > MAX_LIFECYCLE_TRANSITION_BYTES
     then Inl (TooLarge (length bytes) MAX_LIFECYCLE_TRANSITION_BYTES)
     else Inr bytes)"

definition LifecycleTransition_digest ::
  "crates \<Rightarrow> lifecycle_transition to_vec \<Rightarrow> lifecycle_transition \<Rightarrow> record_error + byte list" where
  "LifecycleTransition_digest K to_rec self =
     bind_res (LifecycleTransition_encode to_rec self) (\<lambda>b. Inr (record_sha256 K b))"

interpretation lifecycle_record: signed_record K LIFECYCLE_TRANSITION_DOMAIN MAX_LIFECYCLE_TRANSITION_BYTES
  LifecycleClaims_validate to_claims to_rec
  "\<lambda>p s. \<lparr>ltran_protected = p, ltran_signature = s\<rparr>"
  "LifecycleClaims_protected_bytes to_claims"
  "LifecycleClaims_signing_input to_claims"
  "LifecycleTransition_from_claims to_claims"
  "LifecycleTransition_encode to_rec" "LifecycleTransition_digest K to_rec"
  for K to_claims to_rec
proof -
  have e: "encode_error = Encode" by (rule ext) (simp add: encode_error_def)
  have ascii: "list_all (\<lambda>b. b < 128) LIFECYCLE_TRANSITION_DOMAIN" by code_simp
  show "signed_record K LIFECYCLE_TRANSITION_DOMAIN MAX_LIFECYCLE_TRANSITION_BYTES
    LifecycleClaims_validate to_claims to_rec
    (\<lambda>p s. \<lparr>ltran_protected = p, ltran_signature = s\<rparr>)
    (LifecycleClaims_protected_bytes to_claims)
    (LifecycleClaims_signing_input to_claims)
    (LifecycleTransition_from_claims to_claims)
    (LifecycleTransition_encode to_rec) (LifecycleTransition_digest K to_rec)"
    by unfold_locales
      (simp_all add: LifecycleClaims_signing_input_def LifecycleTransition_from_claims_def
        LifecycleTransition_digest_def record_sha256_def LIFECYCLE_TRANSITION_DOMAIN_def
        LifecycleClaims_protected_bytes_def LifecycleTransition_encode_def e
        ascii [unfolded LIFECYCLE_TRANSITION_DOMAIN_def])
qed

subsection \<open>What the checks promise\<close>

fun domain_key_text :: "lifecycle_domain_key \<Rightarrow> string option" where
  "domain_key_text (DK_OwnerState d) = Some d"
| "domain_key_text (DK_Authority d _) = Some d"
| "domain_key_text (DK_RuntimeCertificate _ _ s) = Some s"
| "domain_key_text (DK_RecoveryPolicy d _) = Some d"
| "domain_key_text (DK_AuditPurge d) = Some d"
| "domain_key_text _ = None"

definition domain_key_ok :: "lifecycle_domain_key \<Rightarrow> bool" where
  "domain_key_ok k \<longleftrightarrow> (\<forall>s. domain_key_text k = Some s \<longrightarrow> security_identifier 255 s)"

definition reconciliation_ok :: "reconciliation \<Rightarrow> bool" where
  "reconciliation_ok r \<longleftrightarrow>
     length (rejected_head_digests r) \<in> {1..64}
     \<and> sorted_wrt (<) (rejected_head_digests r)
     \<and> winning_head_digest r \<notin> set (rejected_head_digests r)
     \<and> domain_key_ok (superior_domain_key r)"

definition chain_position_ok :: "lifecycle_claims \<Rightarrow> bool" where
  "chain_position_ok c \<longleftrightarrow>
     (if lt_transition_kind c = Bootstrap
      then lt_revision c = 0 \<and> lt_previous_transition_digest c = None
      else lt_revision c \<noteq> 0 \<and> lt_previous_transition_digest c \<noteq> None)"

definition compromise_ok :: "lifecycle_claims \<Rightarrow> bool" where
  "compromise_ok c \<longleftrightarrow>
     (if lt_transition_kind c = RevokeCompromise
      then lt_descendant_scope c \<noteq> TargetOnly
           \<and> (\<forall>t. lt_compromise_not_before_ms c = Some t \<longrightarrow> unat t \<le> unat (lt_effective_at_ms c))
      else lt_descendant_scope c = TargetOnly \<and> lt_compromise_not_before_ms c = None)"

definition fork_ok :: "lifecycle_claims \<Rightarrow> bool" where
  "fork_ok c \<longleftrightarrow>
     (case lt_reconciliation c of
        None \<Rightarrow> lt_transition_kind c \<noteq> Reconcile
      | Some r \<Rightarrow> lt_transition_kind c = Reconcile \<and> reconciliation_ok r)"

lemma domain_key_cases:
  "LifecycleDomainKey_validate k = (if domain_key_ok k then Inr () else Inl InvalidDomainKey)"
  by (cases k)
    (simp_all add: LifecycleDomainKey_validate_def domain_key_ok_def validate_ascii_identifier_cases)

lemma windows2_sorted:
  "\<not> windows2_any (\<lambda>a b. a \<ge> b) xs \<longleftrightarrow> sorted_wrt (<) xs" for xs :: "'a::linorder list"
  by (induction "\<lambda>a b :: 'a. a \<ge> b" xs rule: windows2_any.induct) (force simp: not_le)+

lemma Reconciliation_validate_Inr_iff:
  "Reconciliation_validate r = Inr () \<longleftrightarrow> reconciliation_ok r"
proof -
  have len: "length xs \<in> {1..64} \<longleftrightarrow> \<not> (xs = [] \<or> 64 < length xs)" for xs :: "byte list list"
    by (cases xs) auto
  have mem: "list_ex (\<lambda>d. d = w) xs \<longleftrightarrow> w \<in> set xs" for w :: "byte list" and xs
    by (auto simp: list_ex_iff)
  show ?thesis
    unfolding Reconciliation_validate_def reconciliation_ok_def len mem
    using windows2_sorted [of "rejected_head_digests r"] by (auto simp: domain_key_cases)
qed

lemma LifecycleClaims_validate_Inr_iff:
  "LifecycleClaims_validate c = Inr () \<longleftrightarrow>
     lt_profile_version c = 1 \<and> domain_key_ok (lt_domain_key c)
     \<and> chain_position_ok c \<and> compromise_ok c \<and> fork_ok c"
proof (cases "lt_profile_version c = 1 \<and> domain_key_ok (lt_domain_key c)")
  case True
  then have *: "lt_profile_version c = RECORD_PROFILE_VERSION"
    "LifecycleDomainKey_validate (lt_domain_key c) = Inr ()"
    by (simp_all add: RECORD_PROFILE_VERSION_def domain_key_cases)
  have fork: "validate_fork (lt_transition_kind c) (lt_reconciliation c) = Inr () \<longleftrightarrow> fork_ok c"
    by (cases "lt_transition_kind c"; cases "lt_reconciliation c")
      (simp_all add: validate_fork_def fork_ok_def Reconciliation_validate_Inr_iff)
  define v where "v = validate_fork (lt_transition_kind c) (lt_reconciliation c)"
  have "LifecycleClaims_validate c = Inr () \<longleftrightarrow> chain_position_ok c \<and> compromise_ok c \<and> v = Inr ()"
    unfolding LifecycleClaims_validate_def *(2) v_def [symmetric]
    using True *(1)
    by (cases "lt_compromise_not_before_ms c")
      (auto simp: Let_def chain_position_ok_def compromise_ok_def word_less_nat_alt)
  with True show ?thesis by (simp add: fork v_def)
qed (auto simp: LifecycleClaims_validate_def RECORD_PROFILE_VERSION_def domain_key_cases)

text \<open>The reconciliation and transition errors of a claim are those of its own group of fields.\<close>

lemma LifecycleClaims_validate_errors:
  "LifecycleClaims_validate c = Inl e \<Longrightarrow>
     e \<in> {UnsupportedVersion (lt_profile_version c), InvalidDomainKey, InvalidRevision,
          InvalidTransition, InvalidReconciliation}"
proof -
  have fork: "e \<in> {InvalidDomainKey, InvalidReconciliation}" if "validate_fork k p = Inl e" for k p
    using that
    by (cases k; cases p)
      (auto simp: validate_fork_def Reconciliation_validate_def domain_key_cases split: if_splits)
  then show "LifecycleClaims_validate c = Inl e \<Longrightarrow> ?thesis"
    by (auto simp: LifecycleClaims_validate_def domain_key_cases Let_def res_iffs
        split: if_splits dest!: fork)
qed

subsection \<open>Properties\<close>

text \<open>
  C13: Validation of lifecycle claims decides the profile: it accepts exactly the claims of
  version 1 whose domain key is printable, whose position in the chain is the root for a bootstrap
  and has a non-zero revision and a predecessor otherwise, whose compromise fields appear only on
  a compromise revocation (which must reach beyond its target and not start after it takes
  effect), and which carry a reconciliation exactly when they reconcile: 1 to 64 rejected heads,
  strictly increasing as byte strings, none of them the winner.  Every refusal is one of the five
  documented errors.
\<close>

theorem lifecycle_claims_validation:
  "(LifecycleClaims_validate c = Inr () \<longleftrightarrow>
     lt_profile_version c = 1 \<and> domain_key_ok (lt_domain_key c)
     \<and> chain_position_ok c \<and> compromise_ok c \<and> fork_ok c)
   \<and> (\<forall>e. LifecycleClaims_validate c = Inl e \<longrightarrow>
     e \<in> {UnsupportedVersion (lt_profile_version c), InvalidDomainKey, InvalidRevision,
          InvalidTransition, InvalidReconciliation})"
  using LifecycleClaims_validate_Inr_iff LifecycleClaims_validate_errors by blast

definition sample_transition :: lifecycle_claims where
  "sample_transition = \<lparr>
     lt_profile_version = 1, lt_transition_id = replicate 16 1,
     lt_domain_key = DK_OwnerState ''operator'', lt_revision = 2,
     lt_previous_transition_digest = Some (replicate 32 5), lt_transition_kind = Reconcile,
     lt_target_kind = TK_OwnerState, lt_target_id = replicate 32 6, lt_effective_at_ms = 1000,
     lt_reason_code = RecoveryAction, lt_issuer_key_id = replicate 32 7, lt_issuer_key_version = 1,
     lt_issuer_suite = Suite_Ed25519, lt_replacement_digest = None,
     lt_compromise_not_before_ms = None, lt_descendant_scope = TargetOnly,
     lt_reconciliation = Some \<lparr>
       fork_predecessor_digest = replicate 32 1, winning_head_digest = replicate 32 2,
       rejected_head_digests = [replicate 32 3, replicate 32 4],
       superior_domain_key = DK_KeyFamily (replicate 32 9),
       superior_transition_digest = replicate 32 8 \<rparr>,
     lt_extensions_digest = None \<rparr>"

lemma sample_fork_ok: "fork_ok sample_transition"
proof -
  have "replicate 32 (3 :: byte) < replicate 32 4" by code_simp
  then show ?thesis
    by (simp add: fork_ok_def sample_transition_def reconciliation_ok_def domain_key_ok_def)
qed

theorem lifecycle_claims_validation_witness:
  "LifecycleClaims_validate sample_transition = Inr ()
   \<and> LifecycleClaims_validate (sample_transition \<lparr> lt_revision := 0 \<rparr>) \<noteq> Inr ()"
proof -
  have "fork_ok sample_transition" by (rule sample_fork_ok)
  then show ?thesis
    using lifecycle_claims_validation [of sample_transition]
      lifecycle_claims_validation [of "sample_transition \<lparr> lt_revision := 0 \<rparr>"]
    by (simp add: sample_transition_def domain_key_ok_def security_identifier_def
        chain_position_ok_def compromise_ok_def)
qed

text \<open>
  Signatures do not transfer between record types, and what is signed is what is sent: a
  runtime certificate's signing input is never a lifecycle transition's; two claims with the same
  signing input have the same encoding; and a record built from claims carries exactly the
  protected bytes its signing input frames, of claims that passed validation.
\<close>

theorem record_signatures_do_not_transfer:
  "\<not> (RuntimeClaims_signing_input K to_rsa to_rc c = Inr f
       \<and> LifecycleClaims_signing_input to_lt d = Inr f)
   \<and> (RuntimeClaims_signing_input K to_rsa to_rc c = Inr f
       \<and> RuntimeClaims_signing_input K to_rsa to_rc c' = Inr f \<longrightarrow> to_rc c = to_rc c')
   \<and> (LifecycleClaims_signing_input to_lt d = Inr f
       \<and> LifecycleClaims_signing_input to_lt d' = Inr f \<longrightarrow> to_lt d = to_lt d')
   \<and> (RuntimeClaims_signing_input K to_rsa to_rc c = Inr f
       \<and> RuntimeCertificate_from_claims K to_rsa to_rc c s = Inr r \<longrightarrow>
         RuntimeClaims_validate K to_rsa c = Inr () \<and> to_rc c = Inr (rcert_protected r)
         \<and> rcert_signature r = s
         \<and> signing_frame RUNTIME_CERTIFICATE_DOMAIN (rcert_protected r) = Inr f)
   \<and> (LifecycleClaims_signing_input to_lt d = Inr f
       \<and> LifecycleTransition_from_claims to_lt d s = Inr t \<longrightarrow>
         LifecycleClaims_validate d = Inr () \<and> to_lt d = Inr (ltran_protected t)
         \<and> ltran_signature t = s
         \<and> signing_frame LIFECYCLE_TRANSITION_DOMAIN (ltran_protected t) = Inr f)"
proof -
  have differ: "RUNTIME_CERTIFICATE_DOMAIN \<noteq> LIFECYCLE_TRANSITION_DOMAIN"
    by (simp add: RUNTIME_CERTIFICATE_DOMAIN_def LIFECYCLE_TRANSITION_DOMAIN_def)
  have "\<not> (RuntimeClaims_signing_input K to_rsa to_rc c = Inr f
       \<and> LifecycleClaims_signing_input to_lt d = Inr f)"
    using runtime_record.input_separate [of K to_rsa to_rc c f LIFECYCLE_TRANSITION_DOMAIN] differ
    by (auto simp: LifecycleClaims_signing_input_def res_iffs)
  moreover have "to_rc c = to_rc c'"
    if "RuntimeClaims_signing_input K to_rsa to_rc c = Inr f"
      and "RuntimeClaims_signing_input K to_rsa to_rc c' = Inr f"
    using that by (rule runtime_record.input_inject)
  moreover have "to_lt d = to_lt d'"
    if "LifecycleClaims_signing_input to_lt d = Inr f"
      and "LifecycleClaims_signing_input to_lt d' = Inr f"
    using that by (rule lifecycle_record.input_inject)
  moreover note runtime_record.signed_is_sent [of K to_rsa to_rc c f s r]
    lifecycle_record.signed_is_sent [of to_lt d f s t]
  ultimately show ?thesis by auto
qed

theorem record_signatures_do_not_transfer_witness:
  "\<exists>f. LifecycleClaims_signing_input (\<lambda>_. Inr [1, 2, 3]) sample_transition = Inr f
     \<and> \<not> (RuntimeClaims_signing_input lite_crates (\<lambda>_. Inl []) (\<lambda>_. Inr [1, 2, 3]) sample_claims = Inr f)"
proof -
  have "LifecycleClaims_validate sample_transition = Inr ()"
    using sample_fork_ok
    by (simp add: LifecycleClaims_validate_Inr_iff)
      (simp add: sample_transition_def domain_key_ok_def security_identifier_def
        chain_position_ok_def compromise_ok_def)
  moreover obtain f where "signing_frame LIFECYCLE_TRANSITION_DOMAIN [1, 2, 3] = Inr f"
    using lifecycle_record.domain_ok signing_frame_Inr_iff [of LIFECYCLE_TRANSITION_DOMAIN "[1, 2, 3]"]
    by auto
  ultimately have "LifecycleClaims_signing_input (\<lambda>_. Inr [1, 2, 3]) sample_transition = Inr f"
    by (simp add: LifecycleClaims_signing_input_def LifecycleClaims_protected_bytes_def)
  then show ?thesis
    using record_signatures_do_not_transfer [of lite_crates "\<lambda>_. Inl []" "\<lambda>_. Inr [1, 2, 3]"
        sample_claims f "\<lambda>_. Inr [1, 2, 3]" sample_transition]
    by blast
qed

text \<open>
  The size limits hold: an encoded runtime certificate has at most 16384 bytes and an encoded
  transition at most 65535, the refusal of a longer one reports its true length and the limit, and
  a record's digest is the SHA-256 of exactly the bytes that encoding returns, so a record that
  cannot be encoded has no digest.
\<close>

theorem record_encoding_limits:
  "(RuntimeCertificate_encode to_cert r = Inr b \<longleftrightarrow> to_cert r = Inr b \<and> length b \<le> 16384)
   \<and> (RuntimeCertificate_encode to_cert r = Inl (TooLarge n m) \<longleftrightarrow>
        (\<exists>b. to_cert r = Inr b \<and> n = length b \<and> m = 16384 \<and> 16384 < n))
   \<and> (RuntimeCertificate_digest K to_cert r = Inr h \<longleftrightarrow>
        (\<exists>b. RuntimeCertificate_encode to_cert r = Inr b \<and> h = sha256_digest K b))
   \<and> (LifecycleTransition_encode to_rec t = Inr b \<longleftrightarrow> to_rec t = Inr b \<and> length b \<le> 65535)
   \<and> (LifecycleTransition_encode to_rec t = Inl (TooLarge n m) \<longleftrightarrow>
        (\<exists>b. to_rec t = Inr b \<and> n = length b \<and> m = 65535 \<and> 65535 < n))
   \<and> (LifecycleTransition_digest K to_rec t = Inr h \<longleftrightarrow>
        (\<exists>b. LifecycleTransition_encode to_rec t = Inr b \<and> h = sha256_digest K b))"
  by (simp add: runtime_record.encode_Inr_iff runtime_record.encode_too_large
      runtime_record.digest_Inr_iff lifecycle_record.encode_Inr_iff
      lifecycle_record.encode_too_large lifecycle_record.digest_Inr_iff
      MAX_RUNTIME_CERTIFICATE_BYTES_def MAX_LIFECYCLE_TRANSITION_BYTES_def)

end
