(* ===== verification/RepositorySigning.thy ===== *)
theory RepositorySigning
  imports Identity
begin

text \<open>
  Bindings of epoch-indexed repository-signing keys to an identity,
  \<^verbatim>\<open>src/repository_signing.rs\<close>: issuing, the canonical CBOR encoding and strict verification.
  A decoder position is the unread rest of its input.
\<close>

definition PROFILE_VERSION :: "16 word" where
  "PROFILE_VERSION = 1"

definition PURPOSE :: string where
  "PURPOSE = ''styrene-repository-signing-v1''"

definition SIGNING_DOMAIN :: "byte list" where
  "SIGNING_DOMAIN = str_bytes ''styrene-repository-signer-binding-v1''"

definition DIGEST_DOMAIN :: "byte list" where
  "DIGEST_DOMAIN = str_bytes ''styrene-repository-signer-binding-id-v1'' @ [0]"

definition MAX_PROTECTED_BYTES :: nat where
  "MAX_PROTECTED_BYTES = 256"

definition MAX_BINDING_BYTES :: nat where
  "MAX_BINDING_BYTES = 384"

datatype binding_error =
  RSB_Format | RSB_TooLarge | RSB_Canonical | RSB_Semantic | RSB_IdentityMismatch | RSB_Signature

datatype binding_error_class =
  Class_Format | Class_TooLarge | Class_Canonical | Class_Semantic | Class_IdentityMismatch
  | Class_Signature

fun binding_error_class_of :: "binding_error \<Rightarrow> binding_error_class" where
  "binding_error_class_of RSB_Format = Class_Format"
| "binding_error_class_of RSB_TooLarge = Class_TooLarge"
| "binding_error_class_of RSB_Canonical = Class_Canonical"
| "binding_error_class_of RSB_Semantic = Class_Semantic"
| "binding_error_class_of RSB_IdentityMismatch = Class_IdentityMismatch"
| "binding_error_class_of RSB_Signature = Class_Signature"

record repository_signer_binding =
  rsb_protected :: "byte list"
  rsb_signature :: "byte list"

record verified_binding =
  vb_identity_id :: identity_id
  vb_identity_public_key :: "byte list"
  vb_repository_public_key :: "byte list"
  vb_epoch :: "32 word"
  vb_digest :: "byte list"

record binding_claims =
  cl_identity_id :: identity_id
  cl_identity_public_key :: "byte list"
  cl_repository_public_key :: "byte list"
  cl_epoch :: "32 word"

subsection \<open>Encoding\<close>

definition encode_protected ::
  "cbor \<Rightarrow> identity_id \<Rightarrow> byte list \<Rightarrow> byte list \<Rightarrow> 32 word \<Rightarrow> binding_error + byte list" where
  "encode_protected C identity_id identity_public_key repository_public_key epoch =
     bind_res (ok_or RSB_Format (encode_seq
       [enc_map C 7,
        enc_u8 C 0, enc_u16 C PROFILE_VERSION,
        enc_u8 C 1, enc_bytes C (as_bytes identity_id),
        enc_u8 C 2, enc_bytes C identity_public_key,
        enc_u8 C 3, enc_bytes C repository_public_key,
        enc_u8 C 4, enc_u32 C epoch,
        enc_u8 C 5, enc_str C PURPOSE,
        enc_u8 C 6, enc_u8 C 0])) (\<lambda>bytes.
     if length bytes > MAX_PROTECTED_BYTES then Inl RSB_TooLarge else Inr bytes)"

definition encode_outer :: "cbor \<Rightarrow> byte list \<Rightarrow> byte list \<Rightarrow> binding_error + byte list" where
  "encode_outer C protected signature =
     bind_res (ok_or RSB_Format (encode_seq
       [enc_map C 2,
        enc_u8 C 0, enc_bytes C protected,
        enc_u8 C 1, enc_bytes C signature])) (\<lambda>bytes.
     if length bytes > MAX_BINDING_BYTES then Inl RSB_TooLarge else Inr bytes)"

definition binding_frame :: "byte list \<Rightarrow> binding_error + byte list" where
  "binding_frame protected =
     bind_res (ok_or RSB_Format (u16_try_from (length SIGNING_DOMAIN))) (\<lambda>domain_len.
     bind_res (ok_or RSB_Format (u32_try_from (length protected))) (\<lambda>protected_len.
     Inr (u16_be domain_len @ SIGNING_DOMAIN @ u16_be PROFILE_VERSION
            @ u32_be protected_len @ protected)))"

subsection \<open>Decoding\<close>

definition require_map :: "cbor \<Rightarrow> nat \<Rightarrow> byte list \<Rightarrow> binding_error + byte list" where
  "require_map C expected d =
     bind_res (ok_or RSB_Format (dec_map C d)) (\<lambda>(n, d).
     case n of
       Some actual \<Rightarrow> if actual = expected then Inr d else Inl RSB_Format
     | None \<Rightarrow> Inl RSB_Canonical)"

definition require_key :: "cbor \<Rightarrow> 8 word \<Rightarrow> byte list \<Rightarrow> binding_error + byte list" where
  "require_key C expected d =
     bind_res (ok_or RSB_Format (dec_u8 C d)) (\<lambda>(k, d).
     if k = expected then Inr d else Inl RSB_Format)"

definition decode_outer :: "cbor \<Rightarrow> byte list \<Rightarrow> binding_error + (byte list \<times> byte list)" where
  "decode_outer C bytes =
     bind_res (require_map C 2 bytes) (\<lambda>d.
     bind_res (require_key C 0 d) (\<lambda>d.
     bind_res (ok_or RSB_Format (dec_bytes C d)) (\<lambda>(protected, d).
     bind_res (require_key C 1 d) (\<lambda>d.
     bind_res (ok_or RSB_Format (dec_bytes C d)) (\<lambda>(signature, d).
     bind_res (ok_or RSB_Format (try_into_array 64 signature)) (\<lambda>signature.
     if d \<noteq> [] then Inl RSB_Format else Inr (protected, signature)))))))"

definition decode_protected :: "cbor \<Rightarrow> byte list \<Rightarrow> binding_error + binding_claims" where
  "decode_protected C bytes =
     bind_res (require_map C 7 bytes) (\<lambda>d.
     bind_res (require_key C 0 d) (\<lambda>d.
     bind_res (ok_or RSB_Format (dec_u16 C d)) (\<lambda>(version, d).
     if version \<noteq> PROFILE_VERSION then Inl RSB_Semantic
     else
     bind_res (require_key C 1 d) (\<lambda>d.
     bind_res (ok_or RSB_Format (dec_bytes C d)) (\<lambda>(i, d).
     bind_res (ok_or RSB_Format (try_into_array 16 i)) (\<lambda>i.
     bind_res (require_key C 2 d) (\<lambda>d.
     bind_res (ok_or RSB_Format (dec_bytes C d)) (\<lambda>(ipk, d).
     bind_res (ok_or RSB_Format (try_into_array 32 ipk)) (\<lambda>ipk.
     bind_res (require_key C 3 d) (\<lambda>d.
     bind_res (ok_or RSB_Format (dec_bytes C d)) (\<lambda>(rpk, d).
     bind_res (ok_or RSB_Format (try_into_array 32 rpk)) (\<lambda>rpk.
     bind_res (require_key C 4 d) (\<lambda>d.
     bind_res (ok_or RSB_Format (dec_u32 C d)) (\<lambda>(epoch, d).
     bind_res (require_key C 5 d) (\<lambda>d.
     bind_res (ok_or RSB_Format (dec_str C d)) (\<lambda>(purpose, d).
     if purpose \<noteq> PURPOSE then Inl RSB_Semantic
     else
     bind_res (require_key C 6 d) (\<lambda>d.
     bind_res (ok_or RSB_Format (dec_u8 C d)) (\<lambda>(flags, d).
     if flags \<noteq> 0 then Inl RSB_Semantic
     else if d \<noteq> [] then Inl RSB_Format
     else Inr \<lparr>cl_identity_id = IdentityId_from_bytes i, cl_identity_public_key = ipk,
               cl_repository_public_key = rpk, cl_epoch = epoch\<rparr>))))))))))))))))))"

subsection \<open>Issuing and verifying\<close>

definition validate_public_key :: "crates \<Rightarrow> byte list \<Rightarrow> binding_error + unit" where
  "validate_public_key K bytes =
     (if \<not> ed_parse_key K bytes then Inl RSB_Signature
      else if ed_is_weak K bytes then Inl RSB_Signature else Inr ())"

definition binding_issue ::
  "crates \<Rightarrow> cbor \<Rightarrow> byte list \<Rightarrow> byte list \<Rightarrow> 32 word
     \<Rightarrow> binding_error + repository_signer_binding" where
  "binding_issue K C identity_signing_key repository_public_key epoch =
     bind_res (validate_public_key K repository_public_key) (\<lambda>_.
     let identity_public_key = ed_verifying_key K identity_signing_key;
         identity_id = IdentityId_from_public_key K identity_public_key in
     bind_res (encode_protected C identity_id identity_public_key repository_public_key epoch) (\<lambda>protected.
     bind_res (binding_frame protected) (\<lambda>frame.
     let signature = ed_sign K identity_signing_key frame in
     Inr \<lparr>rsb_protected = protected, rsb_signature = signature\<rparr>)))"

definition issue_from_identity_seed ::
  "crates \<Rightarrow> cbor \<Rightarrow> byte list \<Rightarrow> byte list \<Rightarrow> 32 word
     \<Rightarrow> binding_error + repository_signer_binding" where
  "issue_from_identity_seed K C seed repository_public_key epoch =
     binding_issue K C seed repository_public_key epoch"

definition issue_derived ::
  "crates \<Rightarrow> cbor \<Rightarrow> byte list \<Rightarrow> 32 word
     \<Rightarrow> (binding_error + repository_signer_binding) option" where
  "issue_derived K C root_secret epoch = do {
     let deriver = KeyDeriver_new K root_secret;
     identity_key \<leftarrow> signing_seed K deriver;
     repository_key \<leftarrow> derive_repository_signing_key K deriver epoch;
     Some (binding_issue K C identity_key (ed_verifying_key K repository_key) epoch)
   }"

definition binding_signing_frame :: "repository_signer_binding \<Rightarrow> binding_error + byte list" where
  "binding_signing_frame self = binding_frame (rsb_protected self)"

definition binding_canonical_bytes ::
  "cbor \<Rightarrow> repository_signer_binding \<Rightarrow> binding_error + byte list" where
  "binding_canonical_bytes C self = encode_outer C (rsb_protected self) (rsb_signature self)"

definition binding_digest ::
  "crates \<Rightarrow> cbor \<Rightarrow> repository_signer_binding \<Rightarrow> binding_error + byte list" where
  "binding_digest K C self =
     bind_res (binding_canonical_bytes C self) (\<lambda>bytes.
     Inr (sha256_digest K (DIGEST_DOMAIN @ bytes)))"

definition verify_repository_signer_binding ::
  "crates \<Rightarrow> cbor \<Rightarrow> byte list \<Rightarrow> binding_error + verified_binding" where
  "verify_repository_signer_binding K C bytes =
     (if length bytes > MAX_BINDING_BYTES then Inl RSB_TooLarge
      else
      bind_res (decode_outer C bytes) (\<lambda>(protected, signature).
      if length protected > MAX_PROTECTED_BYTES then Inl RSB_TooLarge
      else
      bind_res (decode_protected C protected) (\<lambda>claims.
      bind_res (validate_public_key K (cl_identity_public_key claims)) (\<lambda>_.
      bind_res (validate_public_key K (cl_repository_public_key claims)) (\<lambda>_.
      if \<not> matches_public_key K (cl_identity_id claims) (cl_identity_public_key claims)
      then Inl RSB_IdentityMismatch
      else
      bind_res (encode_protected C (cl_identity_id claims) (cl_identity_public_key claims)
          (cl_repository_public_key claims) (cl_epoch claims)) (\<lambda>expected.
      if expected \<noteq> protected then Inl RSB_Canonical
      else
      bind_res (encode_outer C protected signature) (\<lambda>outer.
      if outer \<noteq> bytes then Inl RSB_Canonical
      else if \<not> ed_parse_key K (cl_identity_public_key claims) then Inl RSB_Signature
      else
      bind_res (binding_frame protected) (\<lambda>frame.
      if \<not> ed_verify_strict K (cl_identity_public_key claims) frame signature
      then Inl RSB_Signature
      else Inr \<lparr>vb_identity_id = cl_identity_id claims,
                vb_identity_public_key = cl_identity_public_key claims,
                vb_repository_public_key = cl_repository_public_key claims,
                vb_epoch = cl_epoch claims,
                vb_digest = sha256_digest K (DIGEST_DOMAIN @ bytes)\<rparr>))))))))"

subsection \<open>The canonical encoding\<close>

text \<open>The bytes of a binding, written out.\<close>

definition protected_layout ::
  "identity_id \<Rightarrow> byte list \<Rightarrow> byte list \<Rightarrow> 32 word \<Rightarrow> byte list" where
  "protected_layout i ipk rpk e =
     concat [cbor_head 5 7,
       cbor_head 0 0, cbor_head 0 1,
       cbor_head 0 1, cbor_head 2 16 @ as_bytes i,
       cbor_head 0 2, cbor_head 2 32 @ ipk,
       cbor_head 0 3, cbor_head 2 32 @ rpk,
       cbor_head 0 4, cbor_head 0 (unat e),
       cbor_head 0 5, cbor_head 3 29 @ str_bytes PURPOSE,
       cbor_head 0 6, cbor_head 0 0]"

definition outer_layout :: "byte list \<Rightarrow> byte list \<Rightarrow> byte list" where
  "outer_layout p s =
     concat [cbor_head 5 2,
       cbor_head 0 0, cbor_head 2 (length p) @ p,
       cbor_head 0 1, cbor_head 2 64 @ s]"

text \<open>A claim whose arrays have their sizes.\<close>

definition sized_claims :: "identity_id \<Rightarrow> byte list \<Rightarrow> byte list \<Rightarrow> bool" where
  "sized_claims i ipk rpk \<longleftrightarrow> wf_identity_id i \<and> length ipk = 32 \<and> length rpk = 32"

lemma length_PURPOSE: "length PURPOSE = 29" and utf8_PURPOSE: "utf8_valid PURPOSE"
  by (code_simp, code_simp)

lemma length_protected_layout:
  "sized_claims i ipk rpk \<Longrightarrow> length (protected_layout i ipk rpk e) = 126 + cbor_head_len (unat e)"
  by (simp add: protected_layout_def sized_claims_def wf_identity_id_def length_PURPOSE
      cbor_head_len_def)

lemma cbor_head_len_u32: "cbor_head_len (unat (e :: 32 word)) \<in> {1, 2, 3, 5}"
  using unat_bounds(3) [of e] by (simp add: cbor_head_len_def)

lemma protected_bounds:
  assumes "sized_claims i ipk rpk"
  shows "127 \<le> length (protected_layout i ipk rpk e) \<and> length (protected_layout i ipk rpk e) \<le> 131"
  using length_protected_layout [OF assms, of e] cbor_head_len_u32 [of e] by auto

lemma length_outer_layout:
  "127 \<le> length p \<Longrightarrow> length p \<le> 131 \<Longrightarrow> length s = 64 \<Longrightarrow> length (outer_layout p s) = 71 + length p"
  by (simp add: outer_layout_def cbor_head_len_def)

lemma binding_frame_ok: "length p \<le> 131 \<Longrightarrow> \<exists>f. binding_frame p = Inr f"
proof -
  assume "length p \<le> 131"
  moreover have "length SIGNING_DOMAIN = 36" by (simp add: SIGNING_DOMAIN_def)
  ultimately show ?thesis
    by (simp add: binding_frame_def u16_try_from_def u32_try_from_def)
qed

context cbor_crate
begin

lemma encode_protected_layout:
  assumes "sized_claims i ipk rpk"
  shows "encode_protected C i ipk rpk e = Inr (protected_layout i ipk rpk e)"
proof -
  have calls: "[enc_map C 7,
        enc_u8 C 0, enc_u16 C PROFILE_VERSION,
        enc_u8 C 1, enc_bytes C (as_bytes i),
        enc_u8 C 2, enc_bytes C ipk,
        enc_u8 C 3, enc_bytes C rpk,
        enc_u8 C 4, enc_u32 C e,
        enc_u8 C 5, enc_str C PURPOSE,
        enc_u8 C 6, enc_u8 C 0] = map Some
       [cbor_head 5 7,
        cbor_head 0 0, cbor_head 0 1,
        cbor_head 0 1, cbor_head 2 16 @ as_bytes i,
        cbor_head 0 2, cbor_head 2 32 @ ipk,
        cbor_head 0 3, cbor_head 2 32 @ rpk,
        cbor_head 0 4, cbor_head 0 (unat e),
        cbor_head 0 5, cbor_head 3 29 @ str_bytes PURPOSE,
        cbor_head 0 6, cbor_head 0 0]"
    using assms
    by (simp add: enc_eqs sized_claims_def wf_identity_id_def PROFILE_VERSION_def length_PURPOSE)
  show ?thesis
    using protected_bounds [OF assms, of e]
    unfolding encode_protected_def calls encode_seq_all protected_layout_def [symmetric]
    by (simp add: MAX_PROTECTED_BYTES_def)
qed

lemma encode_outer_layout:
  assumes "127 \<le> length p" "length p \<le> 131" "length s = 64"
  shows "encode_outer C p s = Inr (outer_layout p s)"
proof -
  have calls: "[enc_map C 2, enc_u8 C 0, enc_bytes C p, enc_u8 C 1, enc_bytes C s]
      = map Some [cbor_head 5 2, cbor_head 0 0, cbor_head 2 (length p) @ p,
          cbor_head 0 1, cbor_head 2 64 @ s]"
    using assms by (simp add: enc_eqs)
  show ?thesis
    using length_outer_layout [OF assms] assms
    unfolding encode_outer_def calls encode_seq_all outer_layout_def [symmetric]
    by (simp add: MAX_BINDING_BYTES_def)
qed

lemma read_key:
  "n < 256 \<Longrightarrow> require_key C k (cbor_head 0 n @ r) = (if k = of_nat n then Inr r else Inl RSB_Format)"
  using dec_u8_eq [of "of_nat n" r] by (auto simp: require_key_def unat_of_nat take_bit_eq_mod)

lemma read_u8: "n < 256 \<Longrightarrow> dec_u8 C (cbor_head 0 n @ r) = Some (of_nat n, r)"
  using dec_u8_eq [of "of_nat n" r] by (simp add: unat_of_nat take_bit_eq_mod)

lemma read_u16: "n < 65536 \<Longrightarrow> dec_u16 C (cbor_head 0 n @ r) = Some (of_nat n, r)"
  using dec_u16_eq [of "of_nat n" r] by (simp add: unat_of_nat take_bit_eq_mod)

lemma read_bytes:
  "length b = n \<Longrightarrow> n < 2 ^ 64 \<Longrightarrow> dec_bytes C (cbor_head 2 n @ b @ r) = Some (b, r)"
  using dec_bytes_eq [of b r] by simp

lemma read_str:
  "length s = n \<Longrightarrow> n < 2 ^ 64 \<Longrightarrow> utf8_valid s \<Longrightarrow>
     dec_str C (cbor_head 3 n @ str_bytes s @ r) = Some (s, r)"
  using dec_str_eq [of s r] by simp

lemma read_map: "n < 2 ^ 64 \<Longrightarrow> require_map C n (cbor_head 5 n @ r) = Inr r"
  by (simp add: require_map_def dec_map_eq)

lemma decode_outer_layout:
  assumes "length p < 2 ^ 64" "length s = 64"
  shows "decode_outer C (outer_layout p s) = Inr (p, s)"
  using assms read_bytes [of s 64 "[]"]
  by (simp add: decode_outer_def outer_layout_def read_map read_key read_bytes)

lemma decode_protected_layout:
  assumes "sized_claims i ipk rpk"
  shows "decode_protected C (protected_layout i ipk rpk e) = Inr
    \<lparr>cl_identity_id = i, cl_identity_public_key = ipk, cl_repository_public_key = rpk, cl_epoch = e\<rparr>"
  using assms read_u8 [of 0 "[]"]
  by (simp add: decode_protected_def protected_layout_def read_map read_key read_bytes read_u16
      read_str dec_u32_eq sized_claims_def wf_identity_id_def PROFILE_VERSION_def length_PURPOSE
      utf8_PURPOSE IdentityId_from_bytes_def)

end

lemma validate_public_key_cases:
  "validate_public_key K pk =
     (if ed_parse_key K pk \<and> \<not> ed_is_weak K pk then Inr () else Inl RSB_Signature)"
  by (simp add: validate_public_key_def)

text \<open>The verdict on the canonical encoding of any claims and signature.\<close>

definition claims_verdict ::
  "crates \<Rightarrow> identity_id \<Rightarrow> byte list \<Rightarrow> byte list \<Rightarrow> 32 word \<Rightarrow> byte list
     \<Rightarrow> binding_error + verified_binding" where
  "claims_verdict K i ipk rpk e s =
     (let p = protected_layout i ipk rpk e in
      if \<not> (ed_parse_key K ipk \<and> \<not> ed_is_weak K ipk \<and> ed_parse_key K rpk \<and> \<not> ed_is_weak K rpk)
      then Inl RSB_Signature
      else if i \<noteq> IdentityId_from_public_key K ipk then Inl RSB_IdentityMismatch
      else if \<not> ed_verify_strict K ipk (projr (binding_frame p)) s then Inl RSB_Signature
      else Inr \<lparr>vb_identity_id = i, vb_identity_public_key = ipk, vb_repository_public_key = rpk,
                vb_epoch = e, vb_digest = sha256_digest K (DIGEST_DOMAIN @ outer_layout p s)\<rparr>)"

lemma verify_layout:
  assumes "cbor_crate C" "ct_crate K" "sized_claims i ipk rpk" "length s = 64"
  shows "verify_repository_signer_binding K C (outer_layout (protected_layout i ipk rpk e) s)
           = claims_verdict K i ipk rpk e s"
proof -
  define p where "p = protected_layout i ipk rpk e"
  have p: "127 \<le> length p" "length p \<le> 131"
    using protected_bounds [OF assms(3), of e] by (simp_all add: p_def)
  obtain f where f: "binding_frame p = Inr f" using binding_frame_ok [OF p(2)] by blast
  show ?thesis
    using p f assms length_outer_layout [OF p assms(4)]
      cbor_crate.decode_outer_layout [OF assms(1), of p s]
      cbor_crate.encode_outer_layout [OF assms(1) p assms(4)]
      cbor_crate.decode_protected_layout [OF assms(1,3), of e]
      cbor_crate.encode_protected_layout [OF assms(1,3), of e]
    by (simp add: verify_repository_signer_binding_def claims_verdict_def p_def [symmetric]
        MAX_BINDING_BYTES_def MAX_PROTECTED_BYTES_def validate_public_key_cases
        matches_public_key_iff) auto
qed

subsection \<open>Issued bindings\<close>

locale binding_crates = identity_crates K + cbor_crate C for K :: crates and C :: cbor
begin

lemma issue_eq:
  assumes "length seed = 32" "length rpk = 32"
  shows "binding_issue K C seed rpk e =
    (if ed_parse_key K rpk \<and> \<not> ed_is_weak K rpk
     then let p = protected_layout (IdentityId_from_public_key K (ed_verifying_key K seed))
                    (ed_verifying_key K seed) rpk e
          in Inr \<lparr>rsb_protected = p, rsb_signature = ed_sign K seed (projr (binding_frame p))\<rparr>
     else Inl RSB_Signature)"
proof -
  have sized: "sized_claims (IdentityId_from_public_key K (ed_verifying_key K seed))
      (ed_verifying_key K seed) rpk"
    using assms by (simp add: sized_claims_def)
  obtain f where "binding_frame (protected_layout
      (IdentityId_from_public_key K (ed_verifying_key K seed)) (ed_verifying_key K seed) rpk e) = Inr f"
    using binding_frame_ok protected_bounds [OF sized, of e] by blast
  then show ?thesis
    using encode_protected_layout [OF sized, of e]
    by (simp add: binding_issue_def validate_public_key_cases Let_def)
qed

lemma issue_verifies:
  assumes "length seed = 32" "length rpk = 32" "binding_issue K C seed rpk e = Inr b"
  shows "\<exists>bytes. binding_canonical_bytes C b = Inr bytes
       \<and> 198 \<le> length bytes \<and> length bytes \<le> 202
       \<and> verify_repository_signer_binding K C bytes = Inr
           \<lparr>vb_identity_id = IdentityId_from_public_key K (ed_verifying_key K seed),
            vb_identity_public_key = ed_verifying_key K seed,
            vb_repository_public_key = rpk, vb_epoch = e,
            vb_digest = projr (binding_digest K C b)\<rparr>"
proof -
  define ipk i where "ipk = ed_verifying_key K seed" and "i = IdentityId_from_public_key K ipk"
  define p where "p = protected_layout i ipk rpk e"
  from assms have ok: "ed_parse_key K rpk" "\<not> ed_is_weak K rpk"
    and b: "b = \<lparr>rsb_protected = p, rsb_signature = ed_sign K seed (projr (binding_frame p))\<rparr>"
    by (auto simp: issue_eq Let_def ipk_def i_def p_def split: if_splits)
  have sized: "sized_claims i ipk rpk"
    using assms by (simp add: sized_claims_def i_def ipk_def)
  have len: "127 \<le> length p" "length p \<le> 131"
    using protected_bounds [OF sized, of e] by (simp_all add: p_def)
  have sig: "length (rsb_signature b) = 64" using assms by (simp add: b)
  have bytes: "binding_canonical_bytes C b = Inr (outer_layout p (rsb_signature b))"
    using encode_outer_layout [OF len sig] by (simp add: binding_canonical_bytes_def b)
  have "verify_repository_signer_binding K C (outer_layout p (rsb_signature b))
      = claims_verdict K i ipk rpk e (rsb_signature b)"
    unfolding p_def by (rule verify_layout) (unfold_locales, rule sized, rule sig)
  also have "\<dots> = Inr \<lparr>vb_identity_id = i, vb_identity_public_key = ipk,
      vb_repository_public_key = rpk, vb_epoch = e, vb_digest = projr (binding_digest K C b)\<rparr>"
    using ok assms(1) bytes
    by (simp add: claims_verdict_def binding_digest_def p_def [symmetric] Let_def)
      (simp add: i_def ipk_def b)
  finally show ?thesis
    using bytes length_outer_layout [OF len sig] len by (simp add: i_def ipk_def)
qed

lemma issue_derived_eq:
  "issue_derived K C root e = Some (binding_issue K C (identity_seed K root)
     (ed_verifying_key K (path_key K root (request_path (RepositoryKey e)))) e)"
  by (simp add: issue_derived_def signing_seed_def derive_repository_path)

end

interpretation ref_binding: binding_crates ref_crates ref_cbor
  by unfold_locales

interpretation lite_binding: binding_crates lite_crates ref_cbor
  by unfold_locales

text \<open>Acceptance, taken apart without any law about CBOR.\<close>

lemma verify_Inr:
  assumes "verify_repository_signer_binding K C bytes = Inr v"
  shows "\<exists>p s f. length bytes \<le> 384 \<and> length p \<le> 256
     \<and> encode_protected C (vb_identity_id v) (vb_identity_public_key v)
         (vb_repository_public_key v) (vb_epoch v) = Inr p
     \<and> encode_outer C p s = Inr bytes \<and> binding_frame p = Inr f
     \<and> ed_verify_strict K (vb_identity_public_key v) f s
     \<and> validate_public_key K (vb_identity_public_key v) = Inr ()
     \<and> validate_public_key K (vb_repository_public_key v) = Inr ()
     \<and> matches_public_key K (vb_identity_id v) (vb_identity_public_key v)
     \<and> vb_digest v = sha256_digest K (DIGEST_DOMAIN @ bytes)"
  using assms
  by (auto simp: verify_repository_signer_binding_def res_iffs MAX_BINDING_BYTES_def
      MAX_PROTECTED_BYTES_def split: if_splits prod.splits)

subsection \<open>Properties\<close>

text \<open>
  C22: What is issued verifies: for every 32-byte identity seed, every repository key that parses
  and is not weak and every epoch, issuing succeeds (and fails with the signature error for any
  other key), the binding encodes in 198 to 202 bytes, and strict verification of these bytes
  returns exactly the identity of the seed, the repository key, the epoch and the binding's digest.
\<close>

theorem issued_binding_verifies:
  assumes "binding_crates K C" and "length seed = 32" and "length rpk = 32"
  shows "if ed_parse_key K rpk \<and> \<not> ed_is_weak K rpk
     then \<exists>b bytes d. issue_from_identity_seed K C seed rpk e = Inr b
       \<and> binding_canonical_bytes C b = Inr bytes \<and> 198 \<le> length bytes \<and> length bytes \<le> 202
       \<and> binding_digest K C b = Inr d
       \<and> verify_repository_signer_binding K C bytes = Inr
           \<lparr>vb_identity_id = IdentityId_from_public_key K (ed_verifying_key K seed),
            vb_identity_public_key = ed_verifying_key K seed,
            vb_repository_public_key = rpk, vb_epoch = e, vb_digest = d\<rparr>
     else issue_from_identity_seed K C seed rpk e = Inl RSB_Signature"
proof (cases "ed_parse_key K rpk \<and> \<not> ed_is_weak K rpk")
  case True
  then obtain b where "binding_issue K C seed rpk e = Inr b"
    using binding_crates.issue_eq [OF assms, of e] by (auto simp: Let_def)
  with True binding_crates.issue_verifies [OF assms this] show ?thesis
    by (auto simp: issue_from_identity_seed_def binding_digest_def)
next
  case False
  then have "issue_from_identity_seed K C seed rpk e = Inl RSB_Signature"
    using binding_crates.issue_eq [OF assms, of e] by (auto simp: issue_from_identity_seed_def)
  with False show ?thesis by simp
qed

theorem issued_binding_verifies_witness:
  "\<exists>b bytes v. issue_from_identity_seed ref_crates ref_cbor (replicate 32 5) (replicate 32 6) 7 = Inr b
     \<and> binding_canonical_bytes ref_cbor b = Inr bytes
     \<and> verify_repository_signer_binding ref_crates ref_cbor bytes = Inr v \<and> vb_epoch v = 7"
proof -
  have "ed_parse_key ref_crates (replicate 32 6)" "\<not> ed_is_weak ref_crates (replicate 32 6)"
    by (simp_all add: ref_crates_def)
  then show ?thesis
    using issued_binding_verifies [OF ref_binding.binding_crates_axioms,
        of "replicate 32 5" "replicate 32 6" 7]
    by auto
qed

text \<open>
  C7: What verifies is genuine and canonical, whatever the CBOR library does: accepted bytes have
  at most 384 bytes, are the encoder's own output for the claims returned and one signature, that
  signature is strictly valid for the framed claims under the returned identity key, neither key
  is malformed or weak, the identifier is the one of the key, and the digest is that of the bytes.
\<close>

theorem accepted_binding_is_canonical:
  assumes "verify_repository_signer_binding K C bytes = Inr v" and "ct_crate K"
  shows "length bytes \<le> 384
     \<and> (\<exists>p s f. encode_protected C (vb_identity_id v) (vb_identity_public_key v)
           (vb_repository_public_key v) (vb_epoch v) = Inr p
         \<and> encode_outer C p s = Inr bytes \<and> binding_frame p = Inr f
         \<and> ed_verify_strict K (vb_identity_public_key v) f s)
     \<and> vb_identity_id v = IdentityId_from_public_key K (vb_identity_public_key v)
     \<and> (\<forall>k \<in> {vb_identity_public_key v, vb_repository_public_key v}.
          ed_parse_key K k \<and> \<not> ed_is_weak K k)
     \<and> vb_digest v = sha256_digest K (DIGEST_DOMAIN @ bytes)"
  using verify_Inr [OF assms(1)] assms(2)
  by (auto simp: validate_public_key_cases matches_public_key_iff split: if_splits)

theorem accepted_binding_is_canonical_witness:
  "\<exists>bytes v. verify_repository_signer_binding ref_crates ref_cbor bytes = Inr v
     \<and> vb_digest v = sha256 (DIGEST_DOMAIN @ bytes) \<and> length bytes \<le> 384"
proof -
  have "ed_parse_key ref_crates (replicate 32 6)" "\<not> ed_is_weak ref_crates (replicate 32 6)"
    by (simp_all add: ref_crates_def)
  then obtain b where "binding_issue ref_crates ref_cbor (replicate 32 5) (replicate 32 6) 7 = Inr b"
    using ref_binding.issue_eq [of "replicate 32 5" "replicate 32 6" 7] by (auto simp: Let_def)
  then obtain bytes v where "verify_repository_signer_binding ref_crates ref_cbor bytes = Inr v"
    using ref_binding.issue_verifies [of "replicate 32 5" "replicate 32 6" 7 b] by auto
  then show ?thesis
    using accepted_binding_is_canonical [OF _ ref_ct.ct_crate_axioms] by fastforce
qed

text \<open>
  C23: The verdict on canonical bytes is decided by the claims, in this order: both keys must
  parse and not be weak, the identifier must be the identity key's, the signature must verify
  strictly; otherwise the class of the error is Signature, IdentityMismatch and Signature.  Any
  input above 384 bytes is refused as too large before it is read.
\<close>

theorem verification_verdict:
  assumes "cbor_crate C" and "ct_crate K"
    and "wf_identity_id i" "length ipk = 32" "length rpk = 32" "length s = 64"
  shows "map_err binding_error_class_of
           (verify_repository_signer_binding K C (outer_layout (protected_layout i ipk rpk e) s)) =
    (if \<not> (ed_parse_key K ipk \<and> \<not> ed_is_weak K ipk \<and> ed_parse_key K rpk \<and> \<not> ed_is_weak K rpk)
     then Inl Class_Signature
     else if i \<noteq> IdentityId_from_public_key K ipk then Inl Class_IdentityMismatch
     else if \<not> ed_verify_strict K ipk (projr (binding_frame (protected_layout i ipk rpk e))) s
     then Inl Class_Signature
     else Inr \<lparr>vb_identity_id = i, vb_identity_public_key = ipk, vb_repository_public_key = rpk,
       vb_epoch = e,
       vb_digest = sha256_digest K (DIGEST_DOMAIN @ outer_layout (protected_layout i ipk rpk e) s)\<rparr>)
   \<and> (\<forall>big. 384 < length big \<longrightarrow> verify_repository_signer_binding K C big = Inl RSB_TooLarge)"
proof -
  have "sized_claims i ipk rpk" using assms by (simp add: sized_claims_def)
  from verify_layout [OF assms(1,2) this assms(6)] show ?thesis
    by (simp add: claims_verdict_def Let_def verify_repository_signer_binding_def MAX_BINDING_BYTES_def)
qed

theorem verification_verdict_witness:
  "map_err binding_error_class_of (verify_repository_signer_binding
     (ref_crates \<lparr> sha256_digest := \<lambda>_. replicate 32 0 \<rparr>) ref_cbor
     (outer_layout (protected_layout (IdentityId (replicate 16 1)) (replicate 32 5) (replicate 32 6) 7)
       (replicate 64 0))) = Inl Class_IdentityMismatch"
proof -
  have "ct_crate (ref_crates \<lparr> sha256_digest := \<lambda>_. replicate 32 0 \<rparr>)"
    by unfold_locales (simp add: ref_crates_def)
  from verification_verdict [OF ref_cbor.cbor_crate_axioms this,
      of "IdentityId (replicate 16 1)" "replicate 32 5" "replicate 32 6" "replicate 64 0" 7]
  show ?thesis
    by (simp add: wf_identity_id_def ref_crates_def IdentityId_from_public_key_def)
qed

lemma derived_binding_ok:
  assumes "binding_crates K C"
  shows "\<exists>b bytes v repo_seed. issue_derived K C root e = Some (Inr b)
     \<and> derive_repository_signing_key K (KeyDeriver_new K root) e = Some repo_seed
     \<and> issue_from_identity_seed K C (identity_seed K root) (ed_verifying_key K repo_seed) e = Inr b
     \<and> binding_canonical_bytes C b = Inr bytes
     \<and> verify_repository_signer_binding K C bytes = Inr v
     \<and> identity_pubkey K root = Some (vb_identity_public_key v)
     \<and> vb_repository_public_key v = ed_verifying_key K repo_seed \<and> vb_epoch v = e"
proof -
  note laws = assms [unfolded binding_crates_def identity_crates_def]
  define seed where "seed = path_key K root (request_path (RepositoryKey e))"
  define rpk where "rpk = ed_verifying_key K seed"
  have len: "length seed = 32" "length (identity_seed K root) = 32"
    using laws by (simp_all add: seed_def identity_seed_def kdf_crate.length_path_key)
  with laws have rpk: "length rpk = 32" "ed_parse_key K rpk" "\<not> ed_is_weak K rpk"
    by (simp_all add: rpk_def ed25519_crate.length_key ed25519_crate.key_parses
        ed25519_crate.key_not_weak)
  then obtain b where "binding_issue K C (identity_seed K root) rpk e = Inr b"
    using binding_crates.issue_eq [OF assms len(2), of rpk e] by (auto simp: Let_def)
  moreover from binding_crates.issue_verifies [OF assms len(2) rpk(1) this]
  obtain bytes v where "binding_canonical_bytes C b = Inr bytes"
    "verify_repository_signer_binding K C bytes = Inr v" "vb_epoch v = e"
    "vb_identity_public_key v = ed_verifying_key K (identity_seed K root)"
    "vb_repository_public_key v = rpk"
    by fastforce
  moreover have "issue_derived K C root e = Some (binding_issue K C (identity_seed K root) rpk e)"
    using binding_crates.issue_derived_eq [OF assms] by (simp add: rpk_def seed_def)
  moreover have "derive_repository_signing_key K (KeyDeriver_new K root) e = Some seed"
    using laws by (simp add: seed_def kdf_crate.derive_repository_path del: request_path.simps)
  moreover have "identity_pubkey K root = Some (ed_verifying_key K (identity_seed K root))"
    using assms by (simp add: binding_crates_def identity_crates.identity_pubkey_eq)
  ultimately show ?thesis
    by (auto simp: issue_from_identity_seed_def rpk_def)
qed

text \<open>
  Issuing from a root never fails: for every root secret and epoch it issues, under the
  canonical identity seed, the binding of the key that the repository derivation of that epoch
  yields, and the binding verifies as such.
\<close>

theorem derived_binding_verifies:
  assumes "binding_crates K C"
  shows "\<exists>b bytes v repo_seed. issue_derived K C root e = Some (Inr b)
     \<and> derive_repository_signing_key K (KeyDeriver_new K root) e = Some repo_seed
     \<and> issue_from_identity_seed K C (identity_seed K root) (ed_verifying_key K repo_seed) e = Inr b
     \<and> binding_canonical_bytes C b = Inr bytes
     \<and> verify_repository_signer_binding K C bytes = Inr v
     \<and> identity_pubkey K root = Some (vb_identity_public_key v)
     \<and> vb_repository_public_key v = ed_verifying_key K repo_seed \<and> vb_epoch v = e"
  by (rule derived_binding_ok [OF assms])

theorem derived_binding_verifies_witness:
  "\<exists>b. issue_derived ref_crates ref_cbor (replicate 32 0x42) 0xFFFFFFFF = Some (Inr b)"
  using derived_binding_verifies [OF ref_binding.binding_crates_axioms,
      of "replicate 32 0x42" "0xFFFFFFFF"]
  by blast

lemma decode_protected_sizes:
  assumes "decode_protected C p = Inr c"
  shows "wf_identity_id (cl_identity_id c) \<and> length (cl_identity_public_key c) = 32
     \<and> length (cl_repository_public_key c) = 32"
  using assms
  by (auto simp: decode_protected_def res_iffs try_into_array_def wf_identity_id_def
      IdentityId_from_bytes_def split: if_splits prod.splits)

text \<open>
  C38: The values have the sizes of their Rust types, whatever the CBOR library does: an issued
  binding carries a 64-byte signature and at most 256 protected bytes, its canonical bytes are at
  most 384 and its digest is 32; what verification answers is a 16-byte identifier, two 32-byte
  keys and a 32-byte digest.
\<close>

theorem bindings_have_their_sizes:
  assumes "ed25519_crate K" and "hash_crate K"
  shows "(\<forall>seed rpk e b. length seed = 32 \<and> binding_issue K C seed rpk e = Inr b \<longrightarrow>
          length (rsb_signature b) = 64 \<and> length (rsb_protected b) \<le> 256)
     \<and> (\<forall>b bytes d. binding_canonical_bytes C b = Inr bytes \<and> binding_digest K C b = Inr d \<longrightarrow>
          length bytes \<le> 384 \<and> length d = 32)
     \<and> (\<forall>bytes v. verify_repository_signer_binding K C bytes = Inr v \<longrightarrow>
          wf_identity_id (vb_identity_id v) \<and> length (vb_identity_public_key v) = 32
          \<and> length (vb_repository_public_key v) = 32 \<and> length (vb_digest v) = 32)"
proof (intro conjI allI impI)
  fix bytes v
  assume "verify_repository_signer_binding K C bytes = Inr v"
  then have "\<exists>p c. decode_protected C p = Inr c \<and> vb_identity_id v = cl_identity_id c
      \<and> vb_identity_public_key v = cl_identity_public_key c
      \<and> vb_repository_public_key v = cl_repository_public_key c \<and> length (vb_digest v) = 32"
    using assms(2) by (auto simp: verify_repository_signer_binding_def res_iffs hash_crate.length_sha256
        split: if_splits prod.splits) blast
  with decode_protected_sizes [of C]
  show "wf_identity_id (vb_identity_id v)" "length (vb_identity_public_key v) = 32"
    "length (vb_repository_public_key v) = 32" "length (vb_digest v) = 32" by metis+
qed (use assms in \<open>auto simp: binding_issue_def encode_protected_def binding_canonical_bytes_def
      encode_outer_def binding_digest_def res_iffs Let_def MAX_PROTECTED_BYTES_def MAX_BINDING_BYTES_def
      ed25519_crate.length_sig hash_crate.length_sha256 split: if_splits\<close>)

theorem bindings_have_their_sizes_witness:
  "\<exists>b. issue_from_identity_seed ref_crates ref_cbor (replicate 32 5) (replicate 32 6) 7 = Inr b
     \<and> length (rsb_signature b) = 64"
proof -
  have "ed_parse_key ref_crates (replicate 32 6)" "\<not> ed_is_weak ref_crates (replicate 32 6)"
    by (simp_all add: ref_crates_def)
  then obtain b where "binding_issue ref_crates ref_cbor (replicate 32 5) (replicate 32 6) 7 = Inr b"
    using ref_binding.issue_eq [of "replicate 32 5" "replicate 32 6" 7] by (auto simp: Let_def)
  then show ?thesis
    using bindings_have_their_sizes [OF ref_ed.ed25519_crate_axioms ref_hash.hash_crate_axioms, of ref_cbor]
    by (metis issue_from_identity_seed_def length_replicate)
qed

end
