(* ===== verification/FileSystem.thy ===== *)
theory FileSystem
  imports Crates
begin

text \<open>
  The part of \<^verbatim>\<open>std::path\<close>, \<^verbatim>\<open>std::fs\<close> and the operating system's random generator that the
  custody code uses.  Directory entries name inodes, so that a hard link shares the file and an
  open handle outlives its name.  Every call is one step: other processes act first (\<open>env\<close>), then
  the call runs or fails as the fault schedule says, a failing write after any number of bytes.
  \<open>trail\<close> records every state passed, the ones a crash can leave behind; \<open>f_mine\<close> marks the inodes
  this program created.  Symbolic links and \<^verbatim>\<open>..\<close> are not resolved.
\<close>

subsection \<open>Paths\<close>

record path =
  absolute :: bool
  comps :: "string list"

definition path_empty :: "path \<Rightarrow> bool" where
  "path_empty p \<longleftrightarrow> \<not> absolute p \<and> comps p = []"

text \<open>\<^verbatim>\<open>Path::parent\<close>: none for the root and the empty path, the empty path for a bare name.\<close>

definition path_parent :: "path \<Rightarrow> path option" where
  "path_parent p = (if comps p = [] then None else Some (p \<lparr> comps := butlast (comps p) \<rparr>))"

definition path_file_name :: "path \<Rightarrow> string option" where
  "path_file_name p =
     (if comps p = [] \<or> last (comps p) = ''.'' \<or> last (comps p) = ''..'' then None
      else Some (last (comps p)))"

text \<open>\<^verbatim>\<open>Path::join\<close> with one plain component.\<close>

definition path_join :: "path \<Rightarrow> string \<Rightarrow> path" where
  "path_join p name = p \<lparr> comps := comps p @ [name] \<rparr>"

definition path_current :: path where
  "path_current = \<lparr> absolute = False, comps = [''.''] \<rparr>"

fun join_slash :: "string list \<Rightarrow> string" where
  "join_slash [] = []"
| "join_slash [c] = c"
| "join_slash (c # d # cs) = c @ ''/'' @ join_slash (d # cs)"

definition path_display :: "path \<Rightarrow> string" where
  "path_display p = (if absolute p then ''/'' else []) @ join_slash (comps p)"

subsection \<open>Files\<close>

datatype io_kind =
  NotFound | PermissionDenied | AlreadyExists | NotADirectory | IsADirectory | OtherKind nat

record fs_file =
  f_data :: "byte list"
  f_mode :: nat
  f_mine :: bool

text \<open>Mode \<^verbatim>\<open>0o600\<close>.\<close>

definition owner_only :: nat where
  "owner_only = 6 * 64"

datatype node = Dir | File nat

record fs =
  nodes :: "string list \<Rightarrow> node option"
  inodes :: "fs_file list"

type_synonym fault = "io_kind \<times> nat"

record world =
  disk :: fs
  cwd :: "string list"
  home_var :: "path option"
  env :: "nat \<Rightarrow> fs \<Rightarrow> fs"
  faults :: "nat \<Rightarrow> fault option"
  random :: "nat \<Rightarrow> byte"
  drawn :: nat
  calls :: nat
  trail :: "fs list"

text \<open>A \<^verbatim>\<open>.\<close> component names the directory itself.\<close>

definition resolve :: "'z world_scheme \<Rightarrow> path \<Rightarrow> string list" where
  "resolve w p =
     (if absolute p then [] else cwd w) @ filter (\<lambda>c. c \<noteq> ''.'') (comps p)"

text \<open>A call: its result, and the states it passes through, the last one after it.\<close>

type_synonym 'a call = "fault option \<Rightarrow> fs \<Rightarrow> (io_kind + 'a) \<times> fs list"

definition syscall :: "'a call \<Rightarrow> ('z world_scheme, io_kind + 'a) act" where
  "syscall op w =
     (let before = env w (calls w) (disk w);
          (r, states) = op (faults w (calls w)) before
      in (r, w \<lparr> disk := last (before # states), calls := calls w + 1,
                      trail := trail w @ before # states \<rparr>))"

definition dir_at :: "fs \<Rightarrow> string list \<Rightarrow> bool" where
  "dir_at f n \<longleftrightarrow> n = [] \<or> nodes f n = Some Dir"

text \<open>The error of reaching a name whose directory is missing or is a file.\<close>

definition parent_error :: "fs \<Rightarrow> string list \<Rightarrow> io_kind option" where
  "parent_error f n =
     (if dir_at f (butlast n) then None
      else if nodes f (butlast n) = None then Some NotFound else Some NotADirectory)"

definition exists_call :: "string list \<Rightarrow> bool call" where
  "exists_call n fault f =
     (case fault of Some (k, _) \<Rightarrow> (Inl k, []) | None \<Rightarrow> (Inr (n = [] \<or> nodes f n \<noteq> None), []))"

definition read_call :: "string list \<Rightarrow> byte list call" where
  "read_call n fault f =
     (case fault of
        Some (k, _) \<Rightarrow> (Inl k, [])
      | None \<Rightarrow>
          (case nodes f n of
             Some (File i) \<Rightarrow> (Inr (f_data (inodes f ! i)), [])
           | Some Dir \<Rightarrow> (Inl IsADirectory, [])
           | None \<Rightarrow> (Inl (if n = [] then IsADirectory else NotFound), [])))"

text \<open>The prefixes of a name that are missing, shortest first.\<close>

definition missing_prefixes :: "fs \<Rightarrow> string list \<Rightarrow> string list list" where
  "missing_prefixes f n = filter (\<lambda>q. nodes f q = None) (map (\<lambda>k. take k n) [1..<length n + 1])"

definition add_dirs :: "fs \<Rightarrow> string list list \<Rightarrow> fs" where
  "add_dirs f qs = f \<lparr> nodes := foldl (\<lambda>m q. m(q \<mapsto> Dir)) (nodes f) qs \<rparr>"

definition mkdirs_call :: "string list \<Rightarrow> unit call" where
  "mkdirs_call n fault f =
     (if list_ex (\<lambda>k. \<not> dir_at f (take k n) \<and> nodes f (take k n) \<noteq> None) [1..<length n]
      then (Inl NotADirectory, [])
      else if \<not> dir_at f n \<and> nodes f n \<noteq> None then (Inl AlreadyExists, [])
      else case fault of
        Some (k, m) \<Rightarrow> (Inl k, [add_dirs f (take m (missing_prefixes f n))])
      | None \<Rightarrow> (Inr (), [add_dirs f (missing_prefixes f n)]))"

text \<open>\<^verbatim>\<open>O_CREAT | O_EXCL\<close> with a mode: a new, empty inode.\<close>

definition create_new_call :: "string list \<Rightarrow> nat \<Rightarrow> nat call" where
  "create_new_call n m fault f =
     (case fault of
        Some (k, _) \<Rightarrow> (Inl k, [])
      | None \<Rightarrow>
          (case parent_error f n of
             Some k \<Rightarrow> (Inl k, [])
           | None \<Rightarrow>
               if n = [] \<or> nodes f n \<noteq> None then (Inl AlreadyExists, [])
               else (Inr (length (inodes f)),
                     [f \<lparr> nodes := (nodes f)(n \<mapsto> File (length (inodes f))),
                          inodes := inodes f @ [\<lparr> f_data = [], f_mode = m, f_mine = True \<rparr>] \<rparr>])))"

definition set_data :: "fs \<Rightarrow> nat \<Rightarrow> byte list \<Rightarrow> fs" where
  "set_data f h d = f \<lparr> inodes := (inodes f)[h := (inodes f ! h) \<lparr> f_data := d \<rparr>] \<rparr>"

text \<open>\<^verbatim>\<open>write_all\<close> on a handle at offset 0, byte by byte.\<close>

definition write_call :: "nat \<Rightarrow> byte list \<Rightarrow> unit call" where
  "write_call h bytes fault f =
     (let old = f_data (inodes f ! h);
          state = (\<lambda>k. set_data f h (take k bytes @ drop k old))
      in case fault of
           Some (k, m) \<Rightarrow> (Inl k, map state [0..<min m (length bytes) + 1])
         | None \<Rightarrow> (Inr (), map state [0..<length bytes + 1]))"

text \<open>A call without effect on names and contents: \<^verbatim>\<open>sync_all\<close>.\<close>

definition sync_call :: "unit call" where
  "sync_call fault f = (case fault of Some (k, _) \<Rightarrow> (Inl k, []) | None \<Rightarrow> (Inr (), []))"

definition open_call :: "string list \<Rightarrow> unit call" where
  "open_call n fault f =
     (case fault of
        Some (k, _) \<Rightarrow> (Inl k, [])
      | None \<Rightarrow> (if n = [] \<or> nodes f n \<noteq> None then Inr () else Inl NotFound, []))"

definition remove_call :: "string list \<Rightarrow> unit call" where
  "remove_call n fault f =
     (case fault of
        Some (k, _) \<Rightarrow> (Inl k, [])
      | None \<Rightarrow>
          (case nodes f n of
             Some (File i) \<Rightarrow> (Inr (), [f \<lparr> nodes := (nodes f)(n := None) \<rparr>])
           | Some Dir \<Rightarrow> (Inl IsADirectory, [])
           | None \<Rightarrow> (Inl NotFound, [])))"

definition link_call :: "string list \<Rightarrow> string list \<Rightarrow> unit call" where
  "link_call src dst fault f =
     (case fault of
        Some (k, _) \<Rightarrow> (Inl k, [])
      | None \<Rightarrow>
          (case nodes f src of
             Some (File i) \<Rightarrow>
               (case parent_error f dst of
                  Some k \<Rightarrow> (Inl k, [])
                | None \<Rightarrow>
                    if dst = [] \<or> nodes f dst \<noteq> None then (Inl AlreadyExists, [])
                    else (Inr (), [f \<lparr> nodes := (nodes f)(dst \<mapsto> File i) \<rparr>]))
           | Some Dir \<Rightarrow> (Inl PermissionDenied, [])
           | None \<Rightarrow> (Inl NotFound, [])))"

subsection \<open>The functions of the standard library\<close>

text \<open>The empty path names nothing.\<close>

definition on_path :: "path \<Rightarrow> (string list \<Rightarrow> 'a call) \<Rightarrow> ('z world_scheme, io_kind + 'a) act" where
  "on_path p op w =
     (if path_empty p then syscall (\<lambda>_ f. (Inl NotFound, [])) w else syscall (op (resolve w p)) w)"

text \<open>\<^verbatim>\<open>Path::exists\<close> answers false on any error.\<close>

definition path_exists :: "path \<Rightarrow> ('z world_scheme, bool) act" where
  "path_exists p w =
     (case on_path p exists_call w of (Inl _, w') \<Rightarrow> (False, w') | (Inr b, w') \<Rightarrow> (b, w'))"

definition fs_read :: "path \<Rightarrow> ('z world_scheme, io_kind, byte list) io" where
  "fs_read p = io_act (on_path p read_call)"

definition create_dir_all :: "path \<Rightarrow> ('z world_scheme, io_kind, unit) io" where
  "create_dir_all p =
     (if path_empty p then io_ok () else io_act (on_path p mkdirs_call))"

definition open_create_new :: "path \<Rightarrow> nat \<Rightarrow> ('z world_scheme, io_kind, nat) io" where
  "open_create_new p m = io_act (on_path p (\<lambda>n. create_new_call n m))"

definition write_all :: "nat \<Rightarrow> byte list \<Rightarrow> ('z world_scheme, io_kind, unit) io" where
  "write_all h bytes = io_act (syscall (write_call h bytes))"

definition sync_all :: "('z world_scheme, io_kind, unit) io" where
  "sync_all = io_act (syscall sync_call)"

definition file_open :: "path \<Rightarrow> ('z world_scheme, io_kind, unit) io" where
  "file_open p = io_act (on_path p open_call)"

definition remove_file :: "path \<Rightarrow> ('z world_scheme, io_kind, unit) io" where
  "remove_file p = io_act (on_path p remove_call)"

definition hard_link :: "path \<Rightarrow> path \<Rightarrow> ('z world_scheme, io_kind, unit) io" where
  "hard_link src dst =
     io_act (\<lambda>w. if path_empty src then syscall (\<lambda>_ f. (Inl NotFound, [])) w
                  else on_path dst (link_call (resolve w src)) w)"

text \<open>\<^verbatim>\<open>OsRng.fill_bytes\<close>: a panic when the system's generator fails.\<close>

definition fill_bytes :: "nat \<Rightarrow> ('z world_scheme, 'e, byte list) io" where
  "fill_bytes n w =
     (case faults w (calls w) of
        Some _ \<Rightarrow> None
      | None \<Rightarrow>
          let before = env w (calls w) (disk w) in
          Some (Inr (map (\<lambda>i. random w (drawn w + i)) [0..<n]),
                w \<lparr> disk := before, drawn := drawn w + n, calls := calls w + 1,
                    trail := trail w @ [before] \<rparr>))"

lemma fill_bytes_no_error [simp]: "fill_bytes k w \<noteq> Some (Inl e, w')"
  by (auto simp: fill_bytes_def Let_def split: option.splits)

lemma fill_bytes_length: "fill_bytes k w = Some (Inr b, w') \<Longrightarrow> length b = k"
  by (auto simp: fill_bytes_def Let_def split: option.splits)

subsection \<open>Runs and what they keep\<close>

text \<open>Every step of a sequence of states is related.\<close>

fun runs :: "('a \<Rightarrow> 'a \<Rightarrow> bool) \<Rightarrow> 'a \<Rightarrow> 'a list \<Rightarrow> bool" where
  "runs R f [] \<longleftrightarrow> True"
| "runs R f (g # gs) \<longleftrightarrow> R f g \<and> runs R g gs"

lemma runs_append: "runs R f (xs @ ys) \<longleftrightarrow> runs R f xs \<and> runs R (last (f # xs)) ys"
  by (induction xs arbitrary: f) auto

lemma runs_const: "R f f \<Longrightarrow> \<forall>g \<in> set gs. R f g \<and> (\<forall>h \<in> set gs. R g h) \<Longrightarrow> runs R f gs"
  by (induction gs arbitrary: f) auto

text \<open>
  \<open>secured G P m Q\<close>: from a world satisfying \<open>P\<close>, every step of \<open>m\<close> and of the other processes
  meanwhile satisfies \<open>G\<close>, and the result satisfies \<open>Q\<close>.
\<close>

definition secured :: "(fs \<Rightarrow> fs \<Rightarrow> bool) \<Rightarrow> ('z world_scheme \<Rightarrow> bool) \<Rightarrow> ('z world_scheme, 'e, 'a) io
    \<Rightarrow> ('e + 'a \<Rightarrow> 'z world_scheme \<Rightarrow> bool) \<Rightarrow> bool" where
  "secured G P m Q \<longleftrightarrow>
     (\<forall>w r w'. P w \<and> m w = Some (r, w') \<longrightarrow>
        Q r w' \<and> (\<exists>new. trail w' = trail w @ new \<and> runs G (disk w) new
                    \<and> disk w' = last (disk w # new)))"

lemma last_append_Cons: "last (x # xs @ ys) = last (last (x # xs) # ys)"
  by (induction xs arbitrary: x) auto

lemma secured_bind:
  assumes "secured G P m Q" and "\<And>a. secured G (Q (Inr a)) (g a) R" and "\<And>e w. Q (Inl e) w \<Longrightarrow> R (Inl e) w"
  shows "secured G P (io_bind m g) R"
  unfolding secured_def
proof (intro allI impI, elim conjE)
  fix w r w'
  assume P: "P w" and run: "io_bind m g w = Some (r, w')"
  from run consider e where "m w = Some (Inl e, w')" "r = Inl e"
    | a w1 where "m w = Some (Inr a, w1)" "g a w1 = Some (r, w')"
    by (auto simp: io_bind_Some_iff)
  then show "R r w' \<and> (\<exists>new. trail w' = trail w @ new \<and> runs G (disk w) new \<and> disk w' = last (disk w # new))"
  proof cases
    case 1
    then show ?thesis using assms(1,3) P unfolding secured_def by blast
  next
    case 2
    from assms(1) P 2(1) obtain n1 where q: "Q (Inr a) w1"
      and n1: "trail w1 = trail w @ n1" "runs G (disk w) n1" "disk w1 = last (disk w # n1)"
      unfolding secured_def by blast
    from assms(2) q 2(2) obtain n2 where "R r w'"
      and n2: "trail w' = trail w1 @ n2" "runs G (disk w1) n2" "disk w' = last (disk w1 # n2)"
      unfolding secured_def by blast
    with n1 show ?thesis
      by (intro conjI exI [of _ "n1 @ n2"]) (simp_all only: runs_append last_append_Cons append_assoc simp_thms)
  qed
qed

lemma secured_try:
  assumes "secured G P m Q" and "\<And>q. secured G (Q q) (g q) R"
  shows "secured G P (io_try m g) R"
  unfolding secured_def
proof (intro allI impI, elim conjE)
  fix w r w'
  assume P: "P w" and run: "io_try m g w = Some (r, w')"
  from run obtain q w1 where 2: "m w = Some (q, w1)" "g q w1 = Some (r, w')"
    by (auto simp: io_try_Some_iff)
  from assms(1) P 2(1) obtain n1 where q: "Q q w1"
    and n1: "trail w1 = trail w @ n1" "runs G (disk w) n1" "disk w1 = last (disk w # n1)"
    unfolding secured_def by blast
  from assms(2) q 2(2) obtain n2 where "R r w'"
    and n2: "trail w' = trail w1 @ n2" "runs G (disk w1) n2" "disk w' = last (disk w1 # n2)"
    unfolding secured_def by blast
  with n1 show "R r w' \<and> (\<exists>new. trail w' = trail w @ new \<and> runs G (disk w) new \<and> disk w' = last (disk w # new))"
    by (intro conjI exI [of _ "n1 @ n2"]) (simp_all only: runs_append last_append_Cons append_assoc simp_thms)
qed

lemma secured_map_err:
  assumes "secured G P m (\<lambda>r. Q (map_err g r))"
  shows "secured G P (io_map_err g m) Q"
  using assms unfolding secured_def io_map_err_Some_iff by blast

lemma secured_res: "(\<And>w. P w \<Longrightarrow> Q r w) \<Longrightarrow> secured G P (io_res r) Q"
  unfolding secured_def by (auto intro: exI [of _ "[]"])

lemma secured_ok: "(\<And>w. P w \<Longrightarrow> Q (Inr a) w) \<Longrightarrow> secured G P (io_ok a) Q"
  unfolding secured_def by (auto intro: exI [of _ "[]"])

lemma secured_err: "(\<And>w. P w \<Longrightarrow> Q (Inl e) w) \<Longrightarrow> secured G P (io_err e) Q"
  unfolding secured_def by (auto intro: exI [of _ "[]"])

lemma secured_conseq:
  assumes "secured G P m Q" and "\<And>w. P' w \<Longrightarrow> P w" and "\<And>r w. Q r w \<Longrightarrow> Q' r w"
  shows "secured G P' m Q'"
  using assms unfolding secured_def by blast

lemma secured_cong:
  "(\<And>w. P w \<Longrightarrow> m w = m' w) \<Longrightarrow> secured G P m Q \<longleftrightarrow> secured G P m' Q"
  unfolding secured_def by (metis (no_types, lifting))

lemma secured_pure:
  assumes "X \<Longrightarrow> secured G P m Q"
  shows "secured G (\<lambda>w. P w \<and> X) m Q"
  using assms unfolding secured_def by blast

lemma secured_and_result:
  assumes "secured G P m Q" and "\<And>w r w'. m w = Some (r, w') \<Longrightarrow> X r"
  shows "secured G P m (\<lambda>r w. Q r w \<and> X r)"
  using assms unfolding secured_def by blast

lemma secured_pre:
  "secured G P m Q \<Longrightarrow> (\<And>w. P' w \<Longrightarrow> P w) \<Longrightarrow> secured G P' m Q"
  unfolding secured_def by blast

lemma secured_post:
  "secured G P m Q \<Longrightarrow> (\<And>r w. Q r w \<Longrightarrow> Q' r w) \<Longrightarrow> secured G P m Q'"
  unfolding secured_def by blast

lemma secured_exI:
  assumes "\<And>x. secured G (P x) m Q"
  shows "secured G (\<lambda>w. \<exists>x. P x w) m Q"
  using assms unfolding secured_def by blast

subsection \<open>Custody of a name\<close>

definition wf_fs :: "fs \<Rightarrow> bool" where
  "wf_fs f \<longleftrightarrow> (\<forall>m i. nodes f m = Some (File i) \<longrightarrow> i < length (inodes f))"

text \<open>The file a name holds.\<close>

definition custody :: "string list \<Rightarrow> fs \<Rightarrow> fs_file option" where
  "custody n f = (case nodes f n of Some (File i) \<Rightarrow> Some (inodes f ! i) | _ \<Rightarrow> None)"

text \<open>
  What the other processes are relied on to do: they leave the file at \<open>n\<close> and the files of this
  program, with their names, alone.  They may create a file at \<open>n\<close> at any time.
\<close>

definition env_step :: "string list \<Rightarrow> fs \<Rightarrow> fs \<Rightarrow> bool" where
  "env_step n f f' \<longleftrightarrow>
     wf_fs f' \<and> length (inodes f) \<le> length (inodes f')
     \<and> (\<forall>i < length (inodes f). f_mine (inodes f ! i) \<longrightarrow>
          inodes f' ! i = inodes f ! i \<and> (\<forall>m. nodes f' m = Some (File i) \<longleftrightarrow> nodes f m = Some (File i)))
     \<and> (\<forall>i < length (inodes f'). f_mine (inodes f' ! i) \<longrightarrow>
          i < length (inodes f) \<and> f_mine (inodes f ! i))
     \<and> (\<forall>x. custody n f = Some x \<longrightarrow> custody n f' = Some x)"

text \<open>
  A step that never replaces or alters the file at \<open>n\<close>, and puts a file of this program there only
  when it is \<open>good\<close>.
\<close>

definition keeps :: "(fs_file \<Rightarrow> bool) \<Rightarrow> string list \<Rightarrow> fs \<Rightarrow> fs \<Rightarrow> bool" where
  "keeps good n f f' \<longleftrightarrow>
     wf_fs f' \<and> (\<forall>x. custody n f = Some x \<longrightarrow> custody n f' = Some x)
     \<and> (\<forall>x. custody n f' = Some x \<and> f_mine x \<longrightarrow> custody n f = Some x \<or> good x)"

lemma custody_Some_iff:
  "custody n f = Some x \<longleftrightarrow> (\<exists>i. nodes f n = Some (File i) \<and> inodes f ! i = x)"
  by (auto simp: custody_def split: option.splits node.splits)

lemma custody_cong:
  "nodes f' n = nodes f n \<Longrightarrow> (\<And>i. nodes f n = Some (File i) \<Longrightarrow> inodes f' ! i = inodes f ! i) \<Longrightarrow>
     custody n f' = custody n f"
  by (simp add: custody_def split: option.splits node.splits)

lemma env_step_keeps: "wf_fs f \<Longrightarrow> env_step n f f' \<Longrightarrow> keeps good n f f'"
  unfolding env_step_def keeps_def custody_Some_iff wf_fs_def by metis

lemma keeps_refl: "wf_fs f \<Longrightarrow> keeps good n f f"
  by (auto simp: keeps_def)

lemma keeps_same:
  "wf_fs f' \<Longrightarrow> custody n f' = custody n f \<Longrightarrow> keeps good n f f'"
  by (auto simp: keeps_def)

lemma runs_keeps_wf: "runs (keeps good n) f gs \<Longrightarrow> wf_fs f \<Longrightarrow> wf_fs (last (f # gs))"
  by (induction gs arbitrary: f) (auto simp: keeps_def)

lemma runs_keeps_custody:
  "runs (keeps good n) f gs \<Longrightarrow> custody n f = Some x \<Longrightarrow> g \<in> set gs \<Longrightarrow> custody n g = Some x"
  by (induction gs arbitrary: f) (auto simp: keeps_def)

lemma runs_split: "runs R f (xs @ g # ys) \<Longrightarrow> runs R g ys"
  by (induction xs arbitrary: f) auto

lemma runs_keeps_forever:
  assumes "runs (keeps good n) f gs" and "f # gs = xs @ g # ys" and "custody n g = Some x" and "g' \<in> set ys"
  shows "custody n g' = Some x"
proof -
  have "runs (keeps good n) g ys"
  proof (cases xs)
    case Nil
    with assms(1,2) show ?thesis by simp
  next
    case (Cons a zs)
    with assms(1,2) show ?thesis using runs_split by fastforce
  qed
  then show ?thesis using runs_keeps_custody assms(3,4) by blast
qed

lemma runs_keeps_good:
  "runs (keeps good n) f gs \<Longrightarrow> g \<in> set gs \<Longrightarrow> custody n g = Some x \<Longrightarrow> f_mine x \<Longrightarrow>
     custody n f = Some x \<or> good x"
  by (induction gs arbitrary: f) (auto simp: keeps_def)

text \<open>A world whose file system is well formed and satisfies \<open>B\<close>, among such processes.\<close>

definition guarded :: "string list \<Rightarrow> string list \<Rightarrow> (fs \<Rightarrow> bool) \<Rightarrow> 'z world_scheme \<Rightarrow> bool" where
  "guarded n c B w \<longleftrightarrow>
     (\<forall>k f. wf_fs f \<longrightarrow> env_step n f (env w k f)) \<and> wf_fs (disk w) \<and> cwd w = c \<and> B (disk w)"

definition stable :: "string list \<Rightarrow> (fs \<Rightarrow> bool) \<Rightarrow> bool" where
  "stable n B \<longleftrightarrow> (\<forall>f f'. wf_fs f \<longrightarrow> B f \<longrightarrow> env_step n f f' \<longrightarrow> B f')"

lemma guarded_mono: "guarded n c B w \<Longrightarrow> (\<And>f. B f \<Longrightarrow> B' f) \<Longrightarrow> guarded n c B' w"
  by (simp add: guarded_def)

definition name_of :: "string list \<Rightarrow> path \<Rightarrow> string list" where
  "name_of c p = (if absolute p then [] else c) @ filter (\<lambda>s. s \<noteq> ''.'') (comps p)"

lemma resolve_name_of: "resolve w p = name_of (cwd w) p"
  by (simp add: resolve_def name_of_def)

text \<open>
  A call is fine for a guarantee when its own states are, from any well-formed state satisfying \<open>B\<close>.
\<close>

definition call_ok :: "(fs \<Rightarrow> fs \<Rightarrow> bool) \<Rightarrow> (fs \<Rightarrow> bool) \<Rightarrow> 'a call
    \<Rightarrow> (io_kind + 'a \<Rightarrow> fs \<Rightarrow> bool) \<Rightarrow> bool" where
  "call_ok G B op B' \<longleftrightarrow>
     (\<forall>ft f r states. wf_fs f \<longrightarrow> B f \<longrightarrow> op ft f = (r, states) \<longrightarrow>
        runs G f states \<and> B' r (last (f # states)))"

text \<open>A guarantee about the name \<open>n\<close> that the other processes satisfy as well.\<close>

locale guarantee =
  fixes G :: "fs \<Rightarrow> fs \<Rightarrow> bool" and n :: "string list"
  assumes env_G: "wf_fs f \<Longrightarrow> env_step n f f' \<Longrightarrow> G f f'"
    and G_wf: "G f f' \<Longrightarrow> wf_fs f'"
begin

lemma runs_G_wf: "runs G f gs \<Longrightarrow> wf_fs f \<Longrightarrow> wf_fs (last (f # gs))"
  by (induction gs arbitrary: f) (auto dest: G_wf)

lemma secured_fill_bytes:
  assumes "stable n B"
  shows "secured G (guarded n c B) (fill_bytes k) (\<lambda>r. guarded n c B)"
  unfolding secured_def
proof (intro allI impI, elim conjE)
  fix w r w'
  assume w: "guarded n c B w" and run: "fill_bytes k w = Some (r, w')"
  define before where "before = env w (calls w) (disk w)"
  from w have step: "wf_fs (disk w)" "env_step n (disk w) before"
    by (simp_all add: guarded_def before_def)
  from run have w': "disk w' = before" "trail w' = trail w @ [before]" "env w' = env w" "cwd w' = cwd w"
    by (auto simp: fill_bytes_def before_def Let_def split: option.splits)
  from step(2) have "wf_fs before" by (simp add: env_step_def)
  moreover have "B before" using w step assms unfolding guarded_def stable_def by blast
  ultimately have "guarded n c B w'" using w w' by (simp add: guarded_def)
  with w' env_G [OF step]
  show "guarded n c B w' \<and> (\<exists>new. trail w' = trail w @ new \<and> runs G (disk w) new
      \<and> disk w' = last (disk w # new))"
    by (intro conjI exI [of _ "[before]"]) simp_all
qed

lemma secured_syscall:
  assumes "stable n B" and "call_ok G B op B'"
  shows "secured G (guarded n c B) (io_act (syscall op)) (\<lambda>r. guarded n c (B' r))"
  unfolding secured_def
proof (intro allI impI, elim conjE)
  fix w r w'
  assume w: "guarded n c B w" and run: "io_act (syscall op) w = Some (r, w')"
  define before where "before = env w (calls w) (disk w)"
  obtain states where op: "op (faults w (calls w)) before = (r, states)"
    and w': "disk w' = last (before # states)" "trail w' = trail w @ before # states"
      "env w' = env w" "cwd w' = cwd w"
    using run by (auto simp: syscall_def Let_def before_def split: prod.splits)
  from w have step: "wf_fs (disk w)" "env_step n (disk w) before"
    by (simp_all add: guarded_def before_def)
  from step(2) have "wf_fs before" by (simp add: env_step_def)
  have "B before" using w step assms(1) unfolding guarded_def stable_def by blast
  with assms(2) op \<open>wf_fs before\<close>
  have states: "runs G before states" "B' r (last (before # states))"
    unfolding call_ok_def by blast+
  with w w' \<open>wf_fs before\<close> have "guarded n c (B' r) w'"
    using runs_G_wf [OF states(1)] by (simp add: guarded_def)
  with w' states env_G [OF step]
  show "guarded n c (B' r) w' \<and> (\<exists>new. trail w' = trail w @ new \<and> runs G (disk w) new
      \<and> disk w' = last (disk w # new))"
    by (intro conjI exI [of _ "before # states"]) simp_all
qed

lemma secured_on_path:
  assumes "stable n B" and "call_ok G B (op (name_of c p)) B'"
    and "\<And>f. path_empty p \<Longrightarrow> B f \<Longrightarrow> B' (Inl NotFound) f"
  shows "secured G (guarded n c B) (io_act (on_path p op)) (\<lambda>r. guarded n c (B' r))"
proof (cases "path_empty p")
  case True
  have none: "call_ok G B (\<lambda>_ f. (Inl NotFound, [])) B'"
    using assms(3) [OF True] by (simp add: call_ok_def)
  show ?thesis
    by (rule secured_cong [THEN iffD1, OF _ secured_syscall [OF assms(1) none]])
      (simp add: on_path_def True)
next
  case False
  show ?thesis
    by (rule secured_cong [THEN iffD1, OF _ secured_syscall [OF assms(1,2)]])
      (simp add: on_path_def False resolve_name_of guarded_def)
qed

end

interpretation kept: guarantee "keeps good n" n for good n
  by unfold_locales (simp_all add: env_step_keeps, simp add: keeps_def)

text \<open>
  The weaker guarantee of code that writes in place: a file that another process put at \<open>n\<close> is never
  replaced or altered.
\<close>

definition keeps_foreign :: "string list \<Rightarrow> fs \<Rightarrow> fs \<Rightarrow> bool" where
  "keeps_foreign n f f' \<longleftrightarrow>
     wf_fs f' \<and> (\<forall>x. custody n f = Some x \<and> \<not> f_mine x \<longrightarrow> custody n f' = Some x)"

interpretation foreign: guarantee "keeps_foreign n" n for n
  by unfold_locales (simp_all add: keeps_foreign_def env_step_def)

subsection \<open>Each call keeps custody\<close>

text \<open>An inode of this program, its contents and its names.\<close>

definition named :: "nat \<Rightarrow> string list set \<Rightarrow> fs_file \<Rightarrow> fs \<Rightarrow> bool" where
  "named h S x f \<longleftrightarrow>
     h < length (inodes f) \<and> inodes f ! h = x \<and> f_mine x
     \<and> (\<forall>m. nodes f m = Some (File h) \<longleftrightarrow> m \<in> S)"

lemma stable_True [simp]: "stable n (\<lambda>_. True)"
  by (simp add: stable_def)

lemma stable_named [simp]: "stable n (named h S x)"
  unfolding stable_def named_def env_step_def by fastforce

lemma stable_ex: "(\<And>x. stable n (B x)) \<Longrightarrow> stable n (\<lambda>f. \<exists>x. B x f)"
  unfolding stable_def by blast

lemma call_ok_idle:
  assumes "\<And>ft f. snd (op ft f) = []"
  shows "call_ok G B op (\<lambda>_. B)"
  unfolding call_ok_def using assms by (metis last.simps runs.simps(1) snd_conv)

lemma idle_calls:
  "snd (exists_call m ft f) = []" "snd (read_call m ft f) = []" "snd (open_call m ft f) = []"
  "snd (sync_call ft f) = []"
  by (auto simp: exists_call_def read_call_def open_call_def sync_call_def
      split: option.splits node.splits)

lemma nodes_add_dirs: "nodes (add_dirs f qs) m = (if m \<in> set qs then Some Dir else nodes f m)"
  unfolding add_dirs_def by (induction qs arbitrary: f rule: rev_induct) auto

lemma add_dirs_keeps:
  assumes "wf_fs f" and "set qs \<subseteq> set (missing_prefixes f m)"
  shows "keeps good n f (add_dirs f qs)"
proof -
  have missing: "nodes f q = None" if "q \<in> set qs" for q
    using assms(2) that by (auto simp: missing_prefixes_def)
  have inodes: "inodes (add_dirs f qs) = inodes f" by (simp add: add_dirs_def)
  from assms(1) have "wf_fs (add_dirs f qs)"
    by (auto simp: wf_fs_def nodes_add_dirs inodes split: if_splits)
  moreover have "custody n (add_dirs f qs) = custody n f"
  proof (cases "n \<in> set qs")
    case True
    then show ?thesis using missing by (simp add: custody_def nodes_add_dirs)
  qed (auto intro!: custody_cong simp: nodes_add_dirs inodes)
  ultimately show ?thesis by (rule keeps_same)
qed

lemma call_ok_mkdirs: "call_ok (keeps good n) (\<lambda>_. True) (mkdirs_call m) (\<lambda>_ _. True)"
proof -
  have "keeps good n f (add_dirs f (take k (missing_prefixes f m)))"
    "keeps good n f (add_dirs f (missing_prefixes f m))" if "wf_fs f" for f k
    using that by (auto intro!: add_dirs_keeps dest: in_set_takeD)
  then show ?thesis
    unfolding call_ok_def mkdirs_call_def by (auto split: if_splits option.splits)
qed

lemma call_ok_create_new:
  assumes "m \<noteq> n"
  shows "call_ok (keeps good n) (\<lambda>_. True) (create_new_call m md)
     (\<lambda>r f. case r of Inl _ \<Rightarrow> True
                    | Inr h \<Rightarrow> named h {m} \<lparr> f_data = [], f_mode = md, f_mine = True \<rparr> f)"
  unfolding call_ok_def
proof (intro allI impI)
  fix ft f r states
  assume wf: "wf_fs f" and op: "create_new_call m md ft f = (r, states)"
  show "runs (keeps good n) f states
      \<and> (case r of Inl _ \<Rightarrow> True
         | Inr h \<Rightarrow> named h {m} \<lparr> f_data = [], f_mode = md, f_mine = True \<rparr> (last (f # states)))"
  proof (cases r)
    case (Inr h)
    define f' where "f' = f \<lparr> nodes := (nodes f)(m \<mapsto> File (length (inodes f))),
      inodes := inodes f @ [\<lparr> f_data = [], f_mode = md, f_mine = True \<rparr>] \<rparr>"
    from op Inr have st: "h = length (inodes f)" "states = [f']"
      by (auto simp: create_new_call_def f'_def split: option.splits if_splits)
    have old: "nodes f q \<noteq> Some (File (length (inodes f)))" for q
      using wf by (auto simp: wf_fs_def)
    have "wf_fs f'" using wf by (auto simp: wf_fs_def f'_def less_Suc_eq)
    moreover have "custody n f' = custody n f"
      using assms wf by (intro custody_cong) (auto simp: f'_def wf_fs_def nth_append)
    ultimately have "keeps good n f f'" by (rule keeps_same)
    moreover have "named h {m} \<lparr> f_data = [], f_mode = md, f_mine = True \<rparr> f'"
      using old by (auto simp: named_def f'_def st(1))
    ultimately show ?thesis using Inr st by simp
  next
    case (Inl e)
    with op show ?thesis by (auto simp: create_new_call_def split: option.splits if_splits)
  qed
qed

lemma set_data_twice: "h < length (inodes f) \<Longrightarrow> set_data (set_data f h d) h e = set_data f h e"
  by (simp add: set_data_def)

lemma set_data_keeps:
  assumes "wf_fs f" and "nodes f n \<noteq> Some (File h)"
  shows "keeps good n f (set_data f h d)"
proof (rule keeps_same)
  show "wf_fs (set_data f h d)" using assms(1) by (simp add: wf_fs_def set_data_def)
  show "custody n (set_data f h d) = custody n f"
    using assms by (intro custody_cong) (auto simp: set_data_def nth_list_update)
qed

lemma set_data_named:
  "named h S x f \<Longrightarrow> named h S (x \<lparr> f_data := d \<rparr>) (set_data f h d)"
  by (simp add: named_def set_data_def)

text \<open>Writing to an inode that every step of a guarantee may alter.\<close>

lemma runs_map_set_data:
  assumes "\<And>f x d. wf_fs f \<Longrightarrow> named h S x f \<Longrightarrow> G f (set_data f h d)"
    and "wf_fs f" and "named h S x f"
  shows "runs G f (map (\<lambda>k. set_data f h (g k)) ks)"
  using assms(2,3)
proof (induction ks arbitrary: f x)
  case (Cons k ks)
  define f1 where "f1 = set_data f h (g k)"
  have same: "set_data f h (g j) = set_data f1 h (g j)" for j
    using Cons.prems(2) by (simp add: set_data_twice named_def f1_def)
  have "G f f1"
    unfolding f1_def by (rule assms(1) [OF Cons.prems])
  moreover have "wf_fs f1" using Cons.prems(1) by (simp add: wf_fs_def set_data_def f1_def)
  moreover from this have "runs G f1 (map (\<lambda>k. set_data f1 h (g k)) ks)"
    using Cons.IH set_data_named [OF Cons.prems(2), of "g k"] by (simp add: f1_def)
  moreover have "map (\<lambda>k. set_data f h (g k)) ks = map (\<lambda>k. set_data f1 h (g k)) ks"
    by (rule map_cong [OF refl same])
  ultimately show ?case
    unfolding list.map runs.simps f1_def [symmetric] by metis
qed simp

lemma call_ok_write_gen:
  assumes "\<And>f x d. wf_fs f \<Longrightarrow> named h S x f \<Longrightarrow> G f (set_data f h d)"
  shows "call_ok G (named h S x) (write_call h bytes)
     (\<lambda>r f. case r of Inl _ \<Rightarrow> \<exists>d. named h S (x \<lparr> f_data := d \<rparr>) f
        | Inr _ \<Rightarrow> named h S (x \<lparr> f_data := bytes @ drop (length bytes) (f_data x) \<rparr>) f)"
  unfolding call_ok_def
proof (intro allI impI)
  fix ft f r states
  assume wf: "wf_fs f" and named: "named h S x f" and op: "write_call h bytes ft f = (r, states)"
  define g where "g = (\<lambda>k. take k bytes @ drop k (f_data (inodes f ! h)))"
  obtain m where st: "states = map (\<lambda>k. set_data f h (g k)) [0..<m + 1]"
    and r: "r = Inr () \<Longrightarrow> m = length bytes"
  proof (cases ft)
    case None
    with op that [of "length bytes"] show ?thesis by (simp add: write_call_def Let_def g_def)
  next
    case (Some km)
    with op that [of "min (snd km) (length bytes)"] show ?thesis
      by (cases km) (auto simp add: write_call_def Let_def g_def)
  qed
  have "last (f # states) = set_data f h (g m)" by (simp add: st)
  moreover have "named h S (x \<lparr> f_data := g m \<rparr>) (set_data f h (g m))"
    by (rule set_data_named [OF named])
  moreover have "g (length bytes) = bytes @ drop (length bytes) (f_data x)"
    using named by (simp add: g_def named_def)
  ultimately have post: "\<exists>d. named h S (x \<lparr> f_data := d \<rparr>) (last (f # states))"
    "r = Inr () \<Longrightarrow>
       named h S (x \<lparr> f_data := bytes @ drop (length bytes) (f_data x) \<rparr>) (last (f # states))"
    using r by metis+
  have "runs G f states"
    unfolding st using assms wf named by (rule runs_map_set_data)
  with post show "runs G f states \<and>
      (case r of Inl _ \<Rightarrow> \<exists>d. named h S (x \<lparr> f_data := d \<rparr>) (last (f # states))
        | Inr _ \<Rightarrow> named h S (x \<lparr> f_data := bytes @ drop (length bytes) (f_data x) \<rparr>) (last (f # states)))"
    by (cases r) simp_all
qed

lemma call_ok_write:
  assumes "n \<notin> S"
  shows "call_ok (keeps good n) (named h S x) (write_call h bytes)
     (\<lambda>r f. case r of Inl _ \<Rightarrow> \<exists>d. named h S (x \<lparr> f_data := d \<rparr>) f
        | Inr _ \<Rightarrow> named h S (x \<lparr> f_data := bytes @ drop (length bytes) (f_data x) \<rparr>) f)"
  by (rule call_ok_write_gen, rule set_data_keeps) (use assms in \<open>auto simp: named_def\<close>)

lemma call_ok_remove:
  assumes "m \<noteq> n"
  shows "call_ok (keeps good n) (named h S x) (remove_call m)
     (\<lambda>r f. \<exists>S'. S - {m} \<subseteq> S' \<and> named h S' x f)"
  unfolding call_ok_def
proof (intro allI impI)
  fix ft f r states
  assume wf: "wf_fs f" and named: "named h S x f" and op: "remove_call m ft f = (r, states)"
  define f' where "f' = f \<lparr> nodes := (nodes f)(m := None) \<rparr>"
  from op consider "states = []" | "states = [f']"
    by (auto simp: remove_call_def f'_def split: option.splits node.splits)
  then show "runs (keeps good n) f states \<and> (\<exists>S'. S - {m} \<subseteq> S' \<and> named h S' x (last (f # states)))"
  proof cases
    case 1
    with named show ?thesis by auto
  next
    case 2
    have "keeps good n f f'"
      using wf assms by (intro keeps_same custody_cong) (auto simp: wf_fs_def f'_def split: if_splits)
    moreover have "named h (S - {m}) x f'" using named by (auto simp: named_def f'_def)
    ultimately show ?thesis using 2 by auto
  qed
qed

lemma call_ok_link:
  assumes "src \<noteq> n" and "good x"
  shows "call_ok (keeps good n) (named h {src} x) (link_call src n)
     (\<lambda>r f. case r of Inl _ \<Rightarrow> named h {src} x f | Inr _ \<Rightarrow> named h {src, n} x f)"
  unfolding call_ok_def
proof (intro allI impI)
  fix ft f r states
  assume wf: "wf_fs f" and named: "named h {src} x f" and op: "link_call src n ft f = (r, states)"
  define f' where "f' = f \<lparr> nodes := (nodes f)(n \<mapsto> File h) \<rparr>"
  from named have src: "nodes f src = Some (File h)" "h < length (inodes f)" by (auto simp: named_def)
  show "runs (keeps good n) f states \<and> (case r of Inl _ \<Rightarrow> named h {src} x (last (f # states))
      | Inr _ \<Rightarrow> named h {src, n} x (last (f # states)))"
  proof (cases r)
    case (Inl e)
    with op named src show ?thesis by (auto simp: link_call_def split: option.splits if_splits)
  next
    case (Inr u)
    with op src have st: "states = [f']" and free: "nodes f n = None"
      by (auto simp: link_call_def f'_def split: option.splits if_splits)
    have "wf_fs f'" using wf src(2) by (auto simp: wf_fs_def f'_def)
    moreover have "custody n f = None" "custody n f' = Some x"
      using free named by (simp_all add: custody_def f'_def named_def)
    ultimately have "keeps good n f f'" using assms(2) by (simp add: keeps_def)
    moreover have "named h {src, n} x f'" using named by (auto simp: named_def f'_def)
    ultimately show ?thesis using Inr st by simp
  qed
qed

subsection \<open>Calm worlds\<close>

text \<open>No faults and no other processes: every call does what it says.\<close>

definition calm :: "'z world_scheme \<Rightarrow> bool" where
  "calm w \<longleftrightarrow> (\<forall>k. faults w k = None) \<and> (\<forall>k f. env w k f = f)"

text \<open>The world after a calm call: its file system is \<open>f\<close>, the directory is the same.\<close>

definition calm_after :: "'z world_scheme \<Rightarrow> fs \<Rightarrow> 'z world_scheme \<Rightarrow> bool" where
  "calm_after w f w' \<longleftrightarrow> calm w' \<and> disk w' = f \<and> cwd w' = cwd w"

lemma calm_syscall:
  assumes "calm w" and "op None (disk w) = (r, st)"
  shows "\<exists>w'. syscall op w = (r, w') \<and> calm_after w (last (disk w # st)) w'"
  using assms by (auto simp: syscall_def calm_def calm_after_def Let_def)

lemma calm_on_path:
  assumes "calm w" and "\<not> path_empty p" and "op (name_of (cwd w) p) None (disk w) = (r, st)"
  shows "\<exists>w'. on_path p op w = (r, w') \<and> calm_after w (last (disk w # st)) w'"
  using calm_syscall [where op = "op (name_of (cwd w) p)", OF assms(1,3)] assms(2)
  by (simp add: on_path_def resolve_name_of)

lemma calm_on_empty_path:
  assumes "calm w" and "path_empty p"
  shows "\<exists>w'. on_path p op w = (Inl NotFound, w') \<and> calm_after w (disk w) w'"
  using calm_syscall [where op = "\<lambda>_ f. (Inl NotFound, [])", OF assms(1) refl] assms(2)
  by (simp add: on_path_def)

lemma calm_fill_bytes:
  assumes "calm w"
  obtains b w' where "fill_bytes k w = Some (Inr b :: 'e + _, w')" and "length b = k"
    and "calm_after w (disk w) w'"
  using assms by (auto simp: fill_bytes_def calm_def calm_after_def Let_def)

lemma calm_exists:
  assumes "calm w" and "\<not> path_empty p"
  shows "\<exists>w'. path_exists p w = (name_of (cwd w) p = [] \<or> nodes (disk w) (name_of (cwd w) p) \<noteq> None, w')
     \<and> calm_after w (disk w) w'"
  using calm_on_path [where op = exists_call, OF assms exists_call_def [THEN trans, OF option.case(1)]]
  by (auto simp: path_exists_def)

lemma calm_read:
  assumes "calm w" and "\<not> path_empty p" and "nodes (disk w) (name_of (cwd w) p) = Some (File i)"
  shows "\<exists>w'. fs_read p w = Some (Inr (f_data (inodes (disk w) ! i)), w') \<and> calm_after w (disk w) w'"
proof -
  have "read_call (name_of (cwd w) p) None (disk w) = (Inr (f_data (inodes (disk w) ! i)), [])"
    using assms(3) by (simp add: read_call_def)
  from calm_on_path [where op = read_call, OF assms(1,2) this] show ?thesis
    by (auto simp: fs_read_def)
qed

lemma calm_world: "(\<And>k f. env w k f = f) \<Longrightarrow> wf_fs (disk w) \<Longrightarrow> guarded n (cwd w) (\<lambda>_. True) w"
  by (auto simp: guarded_def env_step_def)

text \<open>An empty disk with a root directory, for witnesses.\<close>

definition sample_world :: world where
  "sample_world = \<lparr>
     disk = \<lparr> nodes = (\<lambda>_. None), inodes = [] \<rparr>, cwd = [], home_var = None,
     env = (\<lambda>_ f. f), faults = (\<lambda>_. None), random = (\<lambda>i. of_nat (7 * i + 3)),
     drawn = 0, calls = 0, trail = [] \<rparr>"

lemma sample_world_calm [simp]: "calm sample_world" "wf_fs (disk sample_world)"
  "nodes (disk sample_world) n = None" "cwd sample_world = []" "dir_at (disk sample_world) []"
  by (simp_all add: sample_world_def calm_def wf_fs_def dir_at_def)

end
