(* ===== verification/Signer.thy ===== *)
theory Signer
  imports Identity FileSystem "HOL-Library.Multiset"
begin

text \<open>
  The signer interface and the chain of signers, \<^verbatim>\<open>src/signer.rs\<close>.  A \<^verbatim>\<open>dyn IdentitySigner\<close> is
  a record of its methods over the world they act on: an availability probe is a step too, since
  it asks a device, a key store or the file system.
\<close>

datatype signer_tier = HardwareHsm | DeviceHsm | CredentialManager | EncryptedFile

datatype signer_error =
    Unavailable string
  | AuthRequired string
  | KeyNotFound string
  | SigningFailed string
  | DecryptionFailed string
  | Io io_kind

text \<open>The derived order: declaration order.\<close>

fun tier_rank :: "signer_tier \<Rightarrow> nat" where
  "tier_rank HardwareHsm = 0"
| "tier_rank DeviceHsm = 1"
| "tier_rank CredentialManager = 2"
| "tier_rank EncryptedFile = 3"

lemma tier_rank_inject: "tier_rank s = tier_rank t \<longleftrightarrow> s = t"
  by (cases s; cases t) simp_all

instantiation signer_tier :: linorder
begin

definition less_eq_signer_tier :: "signer_tier \<Rightarrow> signer_tier \<Rightarrow> bool" where
  "less_eq_signer_tier s t \<longleftrightarrow> tier_rank s \<le> tier_rank t"

definition less_signer_tier :: "signer_tier \<Rightarrow> signer_tier \<Rightarrow> bool" where
  "less_signer_tier s t \<longleftrightarrow> tier_rank s < tier_rank t"

instance
  by intro_classes (auto simp: less_eq_signer_tier_def less_signer_tier_def tier_rank_inject)

end

record 'w signer =
  sg_tier :: "('w, signer_tier) act"
  sg_label :: "('w, string) act"
  sg_is_available :: "('w, bool) act"
  sg_root_secret :: "('w, signer_error, byte list) io"
  sg_sign :: "byte list \<Rightarrow> ('w, signer_error, byte list) io"

datatype root_secret = RootSecret (secret_bytes: "byte list")

definition RootSecret_new :: "byte list \<Rightarrow> root_secret" where
  "RootSecret_new bytes = RootSecret bytes"

definition RootSecret_ephemeral :: "('z world_scheme, 'e, root_secret) io" where
  "RootSecret_ephemeral = io_bind (fill_bytes 32) (\<lambda>bytes. io_ok (RootSecret bytes))"

definition RootSecret_debug :: "root_secret \<Rightarrow> string" where
  "RootSecret_debug s = ''RootSecret([REDACTED])''"

subsection \<open>The chain\<close>

type_synonym 'w signer_chain = "'w signer list"

definition SignerChain_new :: "'w signer list \<Rightarrow> 'w signer_chain" where
  "SignerChain_new signers = signers"

text \<open>
  \<^verbatim>\<open>new_sorted\<close> sorts stably by what each signer's own \<^verbatim>\<open>tier()\<close> answers.  \<^verbatim>\<open>sort_by_key\<close> asks while
  it compares, as often as its algorithm needs; here each signer is asked once, in the given order.
  The adapters answer a constant, so for them the number of questions makes no difference.
\<close>

fun read_tiers :: "'w signer list \<Rightarrow> ('w, (signer_tier \<times> 'w signer) list) act" where
  "read_tiers [] w = ([], w)"
| "read_tiers (s # ss) w =
     (let (tier, w1) = sg_tier s w; (rest, w2) = read_tiers ss w1 in ((tier, s) # rest, w2))"

definition SignerChain_new_sorted :: "'w signer list \<Rightarrow> ('w, 'w signer_chain) act" where
  "SignerChain_new_sorted signers w =
     (let (keyed, w') = read_tiers signers w in (map snd (sort_key fst keyed), w'))"

fun chain_available :: "'w signer_chain \<Rightarrow> ('w, 'w signer option) act" where
  "chain_available [] w = (None, w)"
| "chain_available (s # ss) w =
     (case sg_is_available s w of
        (True, w') \<Rightarrow> (Some s, w')
      | (False, w') \<Rightarrow> chain_available ss w')"

fun chain_status :: "'w signer_chain \<Rightarrow> ('w, (string \<times> signer_tier \<times> bool) list) act" where
  "chain_status [] w = ([], w)"
| "chain_status (s # ss) w =
     (let (label, w1) = sg_label s w;
          (tier, w2) = sg_tier s w1;
          (avail, w3) = sg_is_available s w2;
          (rest, w4) = chain_status ss w3
      in ((label, tier, avail) # rest, w4))"

definition chain_tier :: "'w signer_chain \<Rightarrow> ('w, signer_tier) act" where
  "chain_tier c w =
     (case chain_available c w of
        (Some s, w') \<Rightarrow> sg_tier s w'
      | (None, w') \<Rightarrow> (EncryptedFile, w'))"

definition chain_label :: "'w signer_chain \<Rightarrow> ('w, string) act" where
  "chain_label c w =
     (case chain_available c w of
        (Some s, w') \<Rightarrow> sg_label s w'
      | (None, w') \<Rightarrow> (''(no signer available)'', w'))"

fun chain_is_available :: "'w signer_chain \<Rightarrow> ('w, bool) act" where
  "chain_is_available [] w = (False, w)"
| "chain_is_available (s # ss) w =
     (case sg_is_available s w of
        (True, w') \<Rightarrow> (True, w')
      | (False, w') \<Rightarrow> chain_is_available ss w')"

fun chain_root_secret :: "'w signer_chain \<Rightarrow> ('w, signer_error, byte list) io" where
  "chain_root_secret [] w = Some (Inl (Unavailable ''no signer available in chain''), w)"
| "chain_root_secret (s # ss) w =
     (case sg_is_available s w of
        (True, w') \<Rightarrow> sg_root_secret s w'
      | (False, w') \<Rightarrow> chain_root_secret ss w')"

fun chain_sign :: "'w signer_chain \<Rightarrow> byte list \<Rightarrow> ('w, signer_error, byte list) io" where
  "chain_sign [] msg w = Some (Inl (Unavailable ''no signer available in chain''), w)"
| "chain_sign (s # ss) msg w =
     (case sg_is_available s w of
        (True, w') \<Rightarrow> sg_sign s msg w'
      | (False, w') \<Rightarrow> chain_sign ss msg w')"

text \<open>The chain is a signer itself.\<close>

definition SignerChain_signer :: "'w signer_chain \<Rightarrow> 'w signer" where
  "SignerChain_signer c = \<lparr>
     sg_tier = chain_tier c, sg_label = chain_label c, sg_is_available = chain_is_available c,
     sg_root_secret = chain_root_secret c, sg_sign = chain_sign c \<rparr>"

subsection \<open>The signing contract\<close>

text \<open>
  What every adapter's \<^verbatim>\<open>sign\<close> does with the root it obtained: derive the canonical signing seed
  and sign with it.
\<close>

definition sign_with_root :: "crates \<Rightarrow> byte list \<Rightarrow> byte list \<Rightarrow> (signer_error + byte list) option" where
  "sign_with_root K root msg = do {
     seed \<leftarrow> derive K (KeyDeriver_new K root) Signing;
     Some (Inr (sign_with_seed K seed msg))
   }"

locale identity_signer =
  fixes K :: crates
    and root_secret :: "('w, signer_error, byte list) io"
    and sign :: "byte list \<Rightarrow> ('w, signer_error, byte list) io"
  assumes sign_law: "sign msg = io_bind root_secret (\<lambda>root. io_pure (sign_with_root K root msg))"
begin

lemma sign_error: "root_secret w = Some (Inl e, w') \<Longrightarrow> sign msg w = Some (Inl e, w')"
  by (simp add: sign_law io_bind_def)

lemma sign_ok:
  assumes "identity_crates K" and "root_secret w = Some (Inr root, w')"
  shows "sign msg w = Some (Inr (ed_sign K (identity_seed K root) msg), w')"
  using assms
  by (simp add: sign_law io_bind_def sign_with_root_def identity_crates.derive_signing
      sign_with_seed_def ed25519_signing_key_def)

lemma sign_panics_iff:
  assumes "identity_crates K"
  shows "sign msg w = None \<longleftrightarrow> root_secret w = None"
  using assms
  by (auto simp: sign_law io_iffs sign_with_root_def identity_crates.derive_signing)

lemma sign_verifies:
  assumes "identity_crates K" and "sign msg w = Some (Inr sig, w')"
  shows "\<exists>root pk. root_secret w = Some (Inr root, w') \<and> identity_pubkey K root = Some pk
       \<and> identity_verify K pk msg sig \<and> length sig = 64"
proof -
  from assms(2) obtain root where root: "root_secret w = Some (Inr root, w')"
    by (auto simp: sign_law io_iffs sign_with_root_def identity_crates.derive_signing [OF assms(1)])
  from sign_ok [OF assms(1) root, of msg] assms(2)
  have sig: "sig = ed_sign K (identity_seed K root) msg" by simp
  have "length (identity_seed K root) = 32"
    by (rule identity_crates.length_identity_seed [OF assms(1)])
  with assms(1) sig show ?thesis
    by (auto simp: identity_crates.identity_pubkey_eq identity_verify_def root identity_crates_def
        ed25519_crate.key_parses ed25519_crate.sign_verifies ed25519_crate.length_sig)
qed

end

lemma chain_is_available_eq: "chain_is_available c w = map_prod (\<lambda>s. s \<noteq> None) id (chain_available c w)"
  by (induction c w rule: chain_is_available.induct) (auto split: bool.splits prod.splits)

lemma chain_root_secret_eq:
  "chain_root_secret c w =
     (case chain_available c w of
        (Some s, w') \<Rightarrow> sg_root_secret s w'
      | (None, w') \<Rightarrow> Some (Inl (Unavailable ''no signer available in chain''), w'))"
  by (induction c w rule: chain_root_secret.induct) (auto split: bool.splits prod.splits)

lemma chain_sign_eq:
  "chain_sign c msg w =
     (case chain_available c w of
        (Some s, w') \<Rightarrow> sg_sign s msg w'
      | (None, w') \<Rightarrow> Some (Inl (Unavailable ''no signer available in chain''), w'))"
  by (induction c msg w rule: chain_sign.induct) (auto split: bool.splits prod.splits)

lemma chain_available_mem: "chain_available c w = (Some s, w') \<Longrightarrow> s \<in> set c"
  by (induction c w rule: chain_available.induct) (auto split: bool.splits prod.splits)

lemma chain_keeps_contract:
  assumes "\<forall>s \<in> set c. identity_signer K (sg_root_secret s) (sg_sign s)"
  shows "identity_signer K (chain_root_secret c) (chain_sign c)"
proof
  fix msg
  show "chain_sign c msg = io_bind (chain_root_secret c) (\<lambda>root. io_pure (sign_with_root K root msg))"
  proof
    fix w
    obtain so w' where so: "chain_available c w = (so, w')" by (cases "chain_available c w")
    show "chain_sign c msg w = io_bind (chain_root_secret c) (\<lambda>root. io_pure (sign_with_root K root msg)) w"
    proof (cases so)
      case (Some s)
      with so chain_available_mem [of c w s w'] assms
      have "identity_signer K (sg_root_secret s) (sg_sign s)" by auto
      from identity_signer.sign_law [OF this] show ?thesis
        using so Some by (simp add: chain_sign_eq chain_root_secret_eq io_bind_def)
    qed (use so in \<open>simp add: chain_sign_eq chain_root_secret_eq io_bind_def\<close>)
  qed
qed

subsection \<open>Which signer a chain uses\<close>

text \<open>The world after every signer of a list has answered that it is not available.\<close>

fun all_refuse :: "'w signer list \<Rightarrow> 'w \<Rightarrow> 'w option" where
  "all_refuse [] w = Some w"
| "all_refuse (s # ss) w =
     (case sg_is_available s w of (True, _) \<Rightarrow> None | (False, w') \<Rightarrow> all_refuse ss w')"

lemma chain_available_Some_iff:
  "chain_available c w = (Some s, w') \<longleftrightarrow>
     (\<exists>pre post w1. c = pre @ s # post \<and> all_refuse pre w = Some w1 \<and> sg_is_available s w1 = (True, w'))"
proof (induction c w rule: chain_available.induct)
  case (2 a ss w)
  obtain b w1 where a: "sg_is_available a w = (b, w1)" by (cases "sg_is_available a w")
  show ?case
  proof (cases b)
    case True
    with a show ?thesis by (auto simp: Cons_eq_append_conv)
  next
    case False
    have "(\<exists>pre post w1. a # ss = pre @ s # post \<and> all_refuse pre w = Some w1
              \<and> sg_is_available s w1 = (True, w'))
      \<longleftrightarrow> (\<exists>pre post w2. ss = pre @ s # post \<and> all_refuse pre w1 = Some w2
              \<and> sg_is_available s w2 = (True, w'))"
    proof (intro iffI; elim exE conjE)
      fix pre post w2
      assume "ss = pre @ s # post" "all_refuse pre w1 = Some w2" "sg_is_available s w2 = (True, w')"
      with a False show "\<exists>pre post w1. a # ss = pre @ s # post \<and> all_refuse pre w = Some w1
          \<and> sg_is_available s w1 = (True, w')"
        by (intro exI [where x = "a # pre"] exI [where x = post] exI [where x = w2]) simp
    qed (use a False in \<open>auto simp: Cons_eq_append_conv\<close>)
    with 2 [OF a [symmetric]] a False show ?thesis by simp
  qed
qed simp

lemma chain_available_None_iff: "chain_available c w = (None, w') \<longleftrightarrow> all_refuse c w = Some w'"
  by (induction c w rule: chain_available.induct) (auto split: bool.splits prod.splits)

text \<open>Probes that leave the world alone: the first available signer of the list.\<close>

lemma chain_available_pure:
  assumes "\<forall>s \<in> set c. \<exists>b. sg_is_available s w = (b, w)"
  shows "chain_available c w = (find (\<lambda>s. fst (sg_is_available s w)) c, w)"
  using assms by (induction c) (auto split: bool.splits)

subsection \<open>Sorted chains\<close>

text \<open>The tiers from the strongest to the weakest, as \<^verbatim>\<open>signer.rs\<close> lists them.\<close>

definition tiers_strongest_first :: "signer_tier list" where
  "tiers_strongest_first = [HardwareHsm, DeviceHsm, CredentialManager, EncryptedFile]"

definition tier_at :: "'w \<Rightarrow> 'w signer \<Rightarrow> signer_tier" where
  "tier_at w s = fst (sg_tier s w)"

definition available_at :: "'w \<Rightarrow> 'w signer \<Rightarrow> bool" where
  "available_at w s = fst (sg_is_available s w)"

text \<open>The signers by tier, strongest first, each tier in the given order.\<close>

definition by_tier :: "'w \<Rightarrow> 'w signer list \<Rightarrow> 'w signer list" where
  "by_tier w signers = concat (map (\<lambda>t. filter (\<lambda>s. tier_at w s = t) signers) tiers_strongest_first)"

lemma read_tiers_pure:
  "\<forall>s \<in> set signers. snd (sg_tier s w) = w \<Longrightarrow>
     read_tiers signers w = (map (\<lambda>s. (tier_at w s, s)) signers, w)"
  by (induction signers) (simp_all add: tier_at_def split_beta Let_def)

lemma filter_sort_key_map:
  "filter (\<lambda>s. k s = t) (map snd (sort_key fst (map (\<lambda>s. (k s, s)) xs))) = filter (\<lambda>s. k s = t) xs"
proof -
  let ?ps = "map (\<lambda>s. (k s, s)) xs"
  have "filter (\<lambda>s. k s = t) (map snd (sort_key fst ?ps)) = map snd (filter (\<lambda>p. k (snd p) = t) (sort_key fst ?ps))"
    by (simp add: filter_map comp_def)
  also have "filter (\<lambda>p. k (snd p) = t) (sort_key fst ?ps) = filter (\<lambda>p. fst p = t) (sort_key fst ?ps)"
    by (rule filter_cong) auto
  also have "\<dots> = filter (\<lambda>p. fst p = t) ?ps" by (rule sort_key_stable)
  finally show ?thesis by (simp add: filter_map comp_def)
qed

text \<open>A list sorted by a key over four values is the concatenation of its four parts.\<close>

lemma sorted_by_tier:
  "sorted (map k xs) \<Longrightarrow> xs = concat (map (\<lambda>t. filter (\<lambda>s. k s = t) xs) tiers_strongest_first)"
proof (induction xs)
  case (Cons x xs)
  then have rec: "xs = concat (map (\<lambda>t. filter (\<lambda>s. k s = t) xs) tiers_strongest_first)"
    and least: "\<forall>y \<in> set xs. k x \<le> k y" by auto
  then have none: "filter (\<lambda>s. k s = t) xs = []" if "t < k x" for t
    using that by (auto simp: filter_empty_conv)
  from rec none show ?case
    by (cases "k x") (auto simp: tiers_strongest_first_def less_signer_tier_def)
qed (simp add: tiers_strongest_first_def)

lemma new_sorted_eq:
  assumes "\<forall>s \<in> set signers. snd (sg_tier s w) = w"
  shows "SignerChain_new_sorted signers w = (by_tier w signers, w)"
proof -
  let ?sorted = "map snd (sort_key fst (map (\<lambda>s. (tier_at w s, s)) signers))"
  have "map (tier_at w) ?sorted = map fst (sort_key fst (map (\<lambda>s. (tier_at w s, s)) signers))"
    by auto
  then have sorted: "sorted (map (tier_at w) ?sorted)" by (metis sorted_sort_key)
  from sorted_by_tier [OF sorted] have "?sorted = by_tier w signers"
    by (simp only: filter_sort_key_map by_tier_def)
  then show ?thesis by (simp add: SignerChain_new_sorted_def read_tiers_pure [OF assms])
qed

lemma by_tier_sorted: "sorted (map (tier_at w) (by_tier w signers))"
proof -
  have "sorted (map (tier_at w) (filter (\<lambda>s. tier_at w s = t) signers))" for t
    by (induction signers) auto
  then show ?thesis
    by (auto simp: by_tier_def tiers_strongest_first_def sorted_append less_eq_signer_tier_def)
qed

lemma find_SomeD: "find P xs = Some x \<Longrightarrow> P x \<and> x \<in> set xs"
  by (auto simp: find_Some_iff)

lemma find_sorted_least:
  assumes "sorted (map k xs)" and "find P xs = Some x" and "y \<in> set xs" and "P y"
  shows "k x \<le> k y"
  using assms by (induction xs) (auto split: if_splits)

lemma tier_cases_le: "t \<le> HardwareHsm \<Longrightarrow> t = HardwareHsm" "EncryptedFile \<le> t \<Longrightarrow> t = EncryptedFile"
  by (cases t; simp add: less_eq_signer_tier_def)+

lemma set_by_tier [simp]: "set (by_tier w signers) = set signers"
proof -
  have "tier_at w s \<in> set tiers_strongest_first" for s
    by (cases "tier_at w s") (simp_all add: tiers_strongest_first_def)
  then show ?thesis by (auto simp: by_tier_def)
qed

subsection \<open>Properties\<close>

text \<open>
  A chain delegates to one signer and never falls back: when the signers before \<open>s\<close> have
  refused one after another and \<open>s\<close> then reports itself available, the root secret, the signature,
  the tier and the label of the chain are exactly those of \<open>s\<close> in the world that the probes left,
  errors and panics included; when every signer refuses, both operations answer the one
  \<^verbatim>\<open>Unavailable\<close> error and the chain reports itself unavailable.
\<close>

theorem chain_delegates_to_first_available:
  "(all_refuse pre w = Some w1 \<and> sg_is_available s w1 = (True, w2) \<longrightarrow>
      chain_root_secret (pre @ s # post) w = sg_root_secret s w2
      \<and> chain_sign (pre @ s # post) msg w = sg_sign s msg w2
      \<and> chain_tier (pre @ s # post) w = sg_tier s w2
      \<and> chain_label (pre @ s # post) w = sg_label s w2
      \<and> chain_is_available (pre @ s # post) w = (True, w2))
   \<and> (all_refuse c w = Some w' \<longrightarrow>
      chain_root_secret c w = Some (Inl (Unavailable ''no signer available in chain''), w')
      \<and> chain_sign c msg w = Some (Inl (Unavailable ''no signer available in chain''), w')
      \<and> chain_tier c w = (EncryptedFile, w')
      \<and> chain_is_available c w = (False, w'))
   \<and> (all_refuse c w \<noteq> None \<or>
      (\<exists>pre s post w1 w2. c = pre @ s # post \<and> all_refuse pre w = Some w1
         \<and> sg_is_available s w1 = (True, w2)))"
proof -
  have "chain_available (pre @ s # post) w = (Some s, w2)"
    if "all_refuse pre w = Some w1" "sg_is_available s w1 = (True, w2)"
    using that by (auto simp: chain_available_Some_iff)
  moreover have "chain_available c w = (None, w')" if "all_refuse c w = Some w'"
    using that by (simp add: chain_available_None_iff)
  moreover have "all_refuse c w \<noteq> None \<or>
      (\<exists>pre s post w1 w2. c = pre @ s # post \<and> all_refuse pre w = Some w1
         \<and> sg_is_available s w1 = (True, w2))"
    using chain_available_None_iff [of c w] chain_available_Some_iff [of c w]
    by (cases "chain_available c w"; cases "fst (chain_available c w)") fastforce+
  ultimately show ?thesis
    by (auto simp: chain_root_secret_eq chain_sign_eq chain_tier_def chain_label_def
        chain_is_available_eq)
qed

text \<open>A signer that keeps a fixed root, for witnesses.\<close>

definition fixed_signer :: "crates \<Rightarrow> signer_tier \<Rightarrow> bool \<Rightarrow> byte list \<Rightarrow> nat signer" where
  "fixed_signer K t avail root = \<lparr>
     sg_tier = (\<lambda>w. (t, w)), sg_label = (\<lambda>w. (''fixed'', w)),
     sg_is_available = (\<lambda>w. (avail, w + 1)),
     sg_root_secret = (\<lambda>w. Some (Inr root, w)),
     sg_sign = (\<lambda>msg. io_bind (\<lambda>w. Some (Inr root, w)) (\<lambda>r. io_pure (sign_with_root K r msg))) \<rparr>"

theorem chain_delegates_to_first_available_witness:
  "chain_root_secret
     [fixed_signer ref_crates HardwareHsm False (replicate 32 1),
      fixed_signer ref_crates EncryptedFile True (replicate 32 2),
      fixed_signer ref_crates EncryptedFile True (replicate 32 3)] 0 = Some (Inr (replicate 32 2), 2)"
  using chain_delegates_to_first_available
    [of "[fixed_signer ref_crates HardwareHsm False (replicate 32 1)]" 0 1
      "fixed_signer ref_crates EncryptedFile True (replicate 32 2)" 2
      "[fixed_signer ref_crates EncryptedFile True (replicate 32 3)]"]
  by (simp add: fixed_signer_def)

text \<open>
  C24: A sorted chain uses the strongest signer: when asking the signers for their tier and their
  availability leaves the world as it is, building the chain lists exactly the given signers, all
  hardware tokens first, then the platform stores, the credential managers and the encrypted files,
  each tier in the given order.  The root secret, the signature and the tier of the chain are then
  those of the first available signer of that list, errors included; so no other tier is used while
  a hardware token is available, and a file only when nothing else is.
\<close>

theorem sorted_chain_prefers_strongest:
  assumes "\<forall>s \<in> set signers. snd (sg_tier s w) = w \<and> snd (sg_is_available s w) = w"
    and "SignerChain_new_sorted signers w = (chain, w1)"
  shows "w1 = w
     \<and> chain = concat (map (\<lambda>t. filter (\<lambda>s. tier_at w s = t) signers)
         [HardwareHsm, DeviceHsm, CredentialManager, EncryptedFile])
     \<and> (case find (available_at w) chain of
          Some s \<Rightarrow> chain_root_secret chain w = sg_root_secret s w \<and> chain_sign chain msg w = sg_sign s msg w
            \<and> chain_tier chain w = (tier_at w s, w) \<and> available_at w s
        | None \<Rightarrow> chain_root_secret chain w = Some (Inl (Unavailable ''no signer available in chain''), w)
            \<and> chain_sign chain msg w = Some (Inl (Unavailable ''no signer available in chain''), w)
            \<and> (\<forall>s \<in> set signers. \<not> available_at w s))
     \<and> ((\<exists>s \<in> set signers. available_at w s \<and> tier_at w s = HardwareHsm) \<longrightarrow> chain_tier chain w = (HardwareHsm, w))
     \<and> ((\<exists>s \<in> set signers. available_at w s \<and> tier_at w s \<noteq> EncryptedFile) \<longrightarrow>
          fst (chain_tier chain w) \<noteq> EncryptedFile)"
proof -
  have chain: "chain = by_tier w signers" "w1 = w"
    using new_sorted_eq [of signers w] assms by auto
  have probes: "\<forall>s \<in> set (by_tier w signers). \<exists>b. sg_is_available s w = (b, w)"
    using assms(1) by (auto intro: exI [of _ "fst (sg_is_available _ w)"] simp: prod_eq_iff)
  have avail: "chain_available (by_tier w signers) w = (find (available_at w) (by_tier w signers), w)"
    using chain_available_pure [OF probes] by (simp add: available_at_def [abs_def])
  have delegates: "case find (available_at w) (by_tier w signers) of
          Some s \<Rightarrow> chain_root_secret (by_tier w signers) w = sg_root_secret s w
            \<and> chain_sign (by_tier w signers) msg w = sg_sign s msg w
            \<and> chain_tier (by_tier w signers) w = (tier_at w s, w) \<and> available_at w s
        | None \<Rightarrow> chain_root_secret (by_tier w signers) w = Some (Inl (Unavailable ''no signer available in chain''), w)
            \<and> chain_sign (by_tier w signers) msg w = Some (Inl (Unavailable ''no signer available in chain''), w)
            \<and> (\<forall>s \<in> set signers. \<not> available_at w s)"
  proof (cases "find (available_at w) (by_tier w signers)")
    case None
    then have "\<forall>s \<in> set signers. \<not> available_at w s" by (auto simp: find_None_iff)
    with None avail show ?thesis by (simp add: chain_root_secret_eq chain_sign_eq)
  next
    case (Some s)
    from find_SomeD [OF Some] have s: "available_at w s" "s \<in> set signers" by simp_all
    with assms(1) have "sg_tier s w = (tier_at w s, w)" by (simp add: tier_at_def prod_eq_iff)
    with Some s avail show ?thesis by (simp add: chain_root_secret_eq chain_sign_eq chain_tier_def)
  qed
  have least: "\<exists>t. chain_tier (by_tier w signers) w = (t, w) \<and> t \<le> tier_at w s"
    if s: "s \<in> set signers" "available_at w s" for s
  proof -
    obtain r where r: "find (available_at w) (by_tier w signers) = Some r"
      using s by (cases "find (available_at w) (by_tier w signers)") (auto simp: find_None_iff)
    then have "tier_at w r \<le> tier_at w s"
      using find_sorted_least [OF by_tier_sorted r] s by simp
    with delegates r show ?thesis by auto
  qed
  have "chain_tier (by_tier w signers) w = (HardwareHsm, w)"
    if "s \<in> set signers" "available_at w s" "tier_at w s = HardwareHsm" for s
    using least [OF that(1,2)] that(3) tier_cases_le by auto
  moreover have "fst (chain_tier (by_tier w signers) w) \<noteq> EncryptedFile"
    if "s \<in> set signers" "available_at w s" "tier_at w s \<noteq> EncryptedFile" for s
    using least [OF that(1,2)] that(3) tier_cases_le by auto
  ultimately show ?thesis
    using delegates unfolding chain by (auto simp: by_tier_def tiers_strongest_first_def)
qed

definition steady_signer :: "signer_tier \<Rightarrow> bool \<Rightarrow> byte list \<Rightarrow> nat signer" where
  "steady_signer t avail root =
     (fixed_signer ref_crates t avail root) \<lparr> sg_is_available := \<lambda>w. (avail, w) \<rparr>"

theorem sorted_chain_prefers_strongest_witness:
  "\<exists>chain. SignerChain_new_sorted
       [steady_signer EncryptedFile True [1], steady_signer HardwareHsm False [2],
        steady_signer DeviceHsm True [3], steady_signer DeviceHsm True [4]] 0 = (chain, 0)
     \<and> chain_root_secret chain 0 = Some (Inr [3], 0)"
proof -
  let ?signers = "[steady_signer EncryptedFile True [1], steady_signer HardwareHsm False [2],
        steady_signer DeviceHsm True [3], steady_signer DeviceHsm True [4]]"
  obtain chain w1 where run: "SignerChain_new_sorted ?signers 0 = (chain, w1)"
    by (cases "SignerChain_new_sorted ?signers 0")
  note simps = steady_signer_def fixed_signer_def tier_at_def available_at_def
  have steady: "\<forall>s \<in> set ?signers. snd (sg_tier s 0) = 0 \<and> snd (sg_is_available s 0) = 0"
    by (simp add: simps)
  from sorted_chain_prefers_strongest [OF steady run] run show ?thesis
    by (auto simp: simps)
qed

end
