(* ===== verification/FileSigner.thy ===== *)
theory FileSigner
  imports Signer
begin

text \<open>
  The encrypted identity file, \<^verbatim>\<open>src/file_signer.rs\<close>: the passphrase providers, the file format,
  exclusive and crash-safe installation, loading, and the signer on top.
\<close>

definition MAGIC :: "byte list" where
  "MAGIC = str_bytes ''STID''"

definition FORMAT_VERSION :: byte where
  "FORMAT_VERSION = 1"

definition HEADER_LEN :: nat where
  "HEADER_LEN = length MAGIC + 1"

definition SALT_LEN :: nat where
  "SALT_LEN = 32"

definition NONCE_LEN :: nat where
  "NONCE_LEN = 12"

definition SECRET_LEN :: nat where
  "SECRET_LEN = 32"

definition TAG_LEN :: nat where
  "TAG_LEN = 16"

definition FILE_LEN :: nat where
  "FILE_LEN = HEADER_LEN + SALT_LEN + NONCE_LEN + SECRET_LEN + TAG_LEN"

definition LEGACY_FILE_LEN :: nat where
  "LEGACY_FILE_LEN = SALT_LEN + NONCE_LEN + SECRET_LEN + TAG_LEN"

text \<open>Memory in KiB, iterations, parallelism.\<close>

definition argon2_params :: "nat \<times> nat \<times> nat" where
  "argon2_params = (65536, 3, 1)"

type_synonym 'w passphrase_provider = "('w, signer_error, byte list) io"

record 'w file_signer =
  fsg_path :: path
  fsg_label :: string
  fsg_passphrase_provider :: "'w passphrase_provider"

definition ClosurePassphraseProvider :: "('w, signer_error, byte list) io \<Rightarrow> 'w passphrase_provider" where
  "ClosurePassphraseProvider f = f"

definition StaticPassphraseProvider :: "byte list \<Rightarrow> 'w passphrase_provider" where
  "StaticPassphraseProvider passphrase = io_ok passphrase"

definition FileSigner_new :: "path \<Rightarrow> 'w passphrase_provider \<Rightarrow> 'w file_signer" where
  "FileSigner_new path provider =
     \<lparr>fsg_path = path, fsg_label = ''file:'' @ path_display path, fsg_passphrase_provider = provider\<rparr>"

definition with_static_passphrase :: "path \<Rightarrow> byte list \<Rightarrow> 'w file_signer" where
  "with_static_passphrase path passphrase = FileSigner_new path (StaticPassphraseProvider passphrase)"

definition default_path :: "'z world_scheme \<Rightarrow> path" where
  "default_path w =
     (let home = (case home_var w of Some h \<Rightarrow> h | None \<Rightarrow> path_current)
      in path_join (path_join (path_join home ''.config'') ''styrene'') ''identity.key'')"

subsection \<open>The format\<close>

definition seal_root ::
  "crates \<Rightarrow> byte list \<Rightarrow> byte list \<Rightarrow> byte list \<Rightarrow> byte list \<Rightarrow> signer_error + byte list" where
  "seal_root K root passphrase salt nonce =
     bind_res (map_err (\<lambda>e. SigningFailed (''argon2id: '' @ e))
       (argon2id K argon2_params passphrase salt)) (\<lambda>key.
     bind_res (map_err (\<lambda>e. SigningFailed (''cipher init: '' @ e)) (chacha_new K key)) (\<lambda>cipher.
     bind_res (map_err (\<lambda>e. SigningFailed (''encrypt: '' @ e))
       (chacha_encrypt K cipher nonce root)) (\<lambda>ciphertext.
     Inr (MAGIC @ [FORMAT_VERSION] @ salt @ nonce @ ciphertext))))"

definition encrypt_root_secret ::
  "crates \<Rightarrow> byte list \<Rightarrow> byte list \<Rightarrow> ('z world_scheme, signer_error, byte list) io" where
  "encrypt_root_secret K root passphrase =
     io_bind (fill_bytes SALT_LEN) (\<lambda>salt.
     io_bind (fill_bytes NONCE_LEN) (\<lambda>nonce.
     io_res (seal_root K root passphrase salt nonce)))"

definition file_payload :: "byte list \<Rightarrow> signer_error + byte list" where
  "file_payload file_data =
     (if length file_data = FILE_LEN \<and> take (length MAGIC) file_data = MAGIC then
        let version = file_data ! length MAGIC in
        if version \<noteq> FORMAT_VERSION
        then Inl (DecryptionFailed (''unsupported identity file version: '' @ show_nat (unat version)
               @ '' (expected '' @ show_nat (unat FORMAT_VERSION) @ '')''))
        else Inr (drop HEADER_LEN file_data)
      else if length file_data = LEGACY_FILE_LEN then Inr file_data
      else Inl (DecryptionFailed (''invalid identity file: '' @ show_nat (length file_data)
             @ '' bytes (expected '' @ show_nat FILE_LEN @ '' or '' @ show_nat LEGACY_FILE_LEN @ '')'')))"

definition file_decrypt ::
  "crates \<Rightarrow> byte list \<Rightarrow> byte list \<Rightarrow> (signer_error + byte list) option" where
  "file_decrypt K file_data passphrase =
     try_opt (Some (file_payload file_data)) (\<lambda>payload.
     let salt = take SALT_LEN payload;
         nonce = take NONCE_LEN (drop SALT_LEN payload);
         ciphertext = drop (SALT_LEN + NONCE_LEN) payload in
     try_opt (Some (map_err (\<lambda>e. DecryptionFailed (''argon2id: '' @ e))
       (argon2id K argon2_params passphrase salt))) (\<lambda>key.
     try_opt (Some (map_err (\<lambda>e. DecryptionFailed (''cipher init: '' @ e)) (chacha_new K key))) (\<lambda>cipher.
     try_opt (Some (ok_or (DecryptionFailed ''wrong passphrase or corrupted file'')
       (chacha_decrypt K cipher nonce ciphertext))) (\<lambda>plaintext. do {
         secret \<leftarrow> copy_at 0 SECRET_LEN plaintext (replicate SECRET_LEN 0);
         Some (Inr secret)
       }))))"

subsection \<open>Installing the file\<close>

definition staging_path :: "crates \<Rightarrow> path \<Rightarrow> path \<Rightarrow> byte list \<Rightarrow> path" where
  "staging_path K p parent suffix =
     (let file_name = (case path_file_name p of
                         Some name \<Rightarrow> if utf8_valid name then name else ''identity''
                       | None \<Rightarrow> ''identity'')
      in path_join parent (''.'' @ file_name @ ''.'' @ hex_encode K suffix @ ''.tmp''))"

definition identity_parent :: "path \<Rightarrow> path" where
  "identity_parent p = (case path_parent p of Some d \<Rightarrow> d | None \<Rightarrow> path_current)"

text \<open>The part after the staging file is open: fill it, link it into place, tidy up.\<close>

definition install_staged ::
  "path \<Rightarrow> path \<Rightarrow> path \<Rightarrow> nat \<Rightarrow> byte list \<Rightarrow> ('z world_scheme, signer_error, unit) io" where
  "install_staged p parent staging handle file_data =
     io_try (io_bind (write_all handle file_data) (\<lambda>_. sync_all)) (\<lambda>staged.
       case staged of
         Inl e \<Rightarrow> io_try (remove_file staging) (\<lambda>_. io_err (Io e))
       | Inr _ \<Rightarrow>
           io_try (hard_link staging p) (\<lambda>installed.
           io_try (remove_file staging) (\<lambda>_.
           io_bind (io_res (map_err Io installed)) (\<lambda>_.
           io_bind (io_map_err Io (file_open parent)) (\<lambda>_.
           io_map_err Io sync_all)))))"

definition save_exclusive ::
  "crates \<Rightarrow> 'z world_scheme file_signer \<Rightarrow> byte list \<Rightarrow> byte list
     \<Rightarrow> ('z world_scheme, signer_error, unit) io" where
  "save_exclusive K self root passphrase =
     io_bind (encrypt_root_secret K root passphrase) (\<lambda>file_data.
     let parent = identity_parent (fsg_path self) in
     io_bind (io_map_err Io (create_dir_all parent)) (\<lambda>_.
     io_bind (fill_bytes 8) (\<lambda>suffix.
     let staging = staging_path K (fsg_path self) parent suffix in
     io_bind (io_map_err Io (open_create_new staging owner_only)) (\<lambda>handle.
     install_staged (fsg_path self) parent staging handle file_data))))"

definition file_generate ::
  "crates \<Rightarrow> 'z world_scheme file_signer \<Rightarrow> byte list \<Rightarrow> ('z world_scheme, signer_error, unit) io" where
  "file_generate K self passphrase =
     io_bind (fill_bytes SECRET_LEN) (\<lambda>root. save_exclusive K self root passphrase)"

definition restore_root_secret ::
  "crates \<Rightarrow> 'z world_scheme file_signer \<Rightarrow> byte list \<Rightarrow> ('z world_scheme, signer_error, unit) io" where
  "restore_root_secret K self root =
     io_bind (fsg_passphrase_provider self) (\<lambda>passphrase. save_exclusive K self root passphrase)"

subsection \<open>Loading and signing\<close>

definition file_load ::
  "crates \<Rightarrow> 'z world_scheme file_signer \<Rightarrow> byte list \<Rightarrow> ('z world_scheme, signer_error, byte list) io" where
  "file_load K self passphrase =
     io_bind (io_map_err Io (fs_read (fsg_path self))) (\<lambda>file_data.
     io_pure (file_decrypt K file_data passphrase))"

definition load_encrypted_bytes ::
  "crates \<Rightarrow> 'z world_scheme file_signer \<Rightarrow> byte list \<Rightarrow> ('z world_scheme, signer_error, byte list) io" where
  "load_encrypted_bytes K self file_data =
     io_bind (fsg_passphrase_provider self) (\<lambda>passphrase.
     io_pure (file_decrypt K file_data passphrase))"

definition file_exists :: "'z world_scheme file_signer \<Rightarrow> ('z world_scheme, bool) act" where
  "file_exists self = path_exists (fsg_path self)"

definition file_root_secret ::
  "crates \<Rightarrow> 'z world_scheme file_signer \<Rightarrow> ('z world_scheme, signer_error, byte list) io" where
  "file_root_secret K self =
     io_bind (fsg_passphrase_provider self) (\<lambda>passphrase. file_load K self passphrase)"

definition file_sign ::
  "crates \<Rightarrow> 'z world_scheme file_signer \<Rightarrow> byte list \<Rightarrow> ('z world_scheme, signer_error, byte list) io" where
  "file_sign K self msg =
     io_bind (file_root_secret K self) (\<lambda>root.
     io_pure (do {
       seed \<leftarrow> derive K (KeyDeriver_new K root) Signing;
       let sig = sign_with_seed K seed msg;
       Some (Inr sig)
     }))"

definition file_as_signer :: "crates \<Rightarrow> 'z world_scheme file_signer \<Rightarrow> 'z world_scheme signer" where
  "file_as_signer K self = \<lparr>
     sg_tier = (\<lambda>w. (EncryptedFile, w)), sg_label = (\<lambda>w. (fsg_label self, w)),
     sg_is_available = path_exists (fsg_path self),
     sg_root_secret = file_root_secret K self, sg_sign = file_sign K self \<rparr>"

interpretation file_contract: identity_signer K "file_root_secret K self" "file_sign K self"
  for K :: crates and self :: "'z world_scheme file_signer"
  by unfold_locales (simp add: file_sign_def sign_with_root_def Let_def)

subsection \<open>Lemmas on the format\<close>

lemmas file_sizes = FILE_LEN_def LEGACY_FILE_LEN_def HEADER_LEN_def SALT_LEN_def NONCE_LEN_def
  SECRET_LEN_def TAG_LEN_def

lemma length_MAGIC [simp]: "length MAGIC = 4"
  by (simp add: MAGIC_def)

lemma file_len_values: "FILE_LEN = 97" "LEGACY_FILE_LEN = 92" "HEADER_LEN = 5"
  by (simp_all add: file_sizes)

lemma file_payload_Inr_iff:
  "file_payload d = Inr p \<longleftrightarrow>
     (length d = 97 \<and> take 5 d = MAGIC @ [FORMAT_VERSION] \<and> p = drop 5 d) \<or> (length d = 92 \<and> p = d)"
proof -
  have "take 5 d = take 4 d @ [d ! 4]" if "length d = 97"
    using that take_Suc_conv_app_nth [of 4 d] by simp
  then show ?thesis
    by (auto simp: file_payload_def file_len_values Let_def)
qed

lemma file_payload_length: "file_payload d = Inr p \<Longrightarrow> length p = 92"
  by (auto simp: file_payload_Inr_iff)

lemma file_payload_Inl: "file_payload d = Inl e \<Longrightarrow> \<exists>m. e = DecryptionFailed m"
  by (auto simp: file_payload_def Let_def split: if_splits)

context aead_crate
begin

text \<open>Decryption never panics, and refuses with one kind of error.\<close>

lemma file_decrypt_total: "file_decrypt K d pw \<noteq> None"
proof (cases "file_payload d")
  case (Inr p)
  then have p: "length p = 92" by (rule file_payload_length)
  have "length pt = 32" if "chacha_decrypt K c n (drop 44 p) = Some pt" for c n pt
    using length_chacha_decrypt [OF that] p by simp
  with Inr show ?thesis
    by (auto simp: file_decrypt_def try_opt_def Let_def file_sizes copy_at_def ok_or_def
        split: sum.splits option.splits)
qed (simp add: file_decrypt_def)

lemma file_decrypt_Inl: "file_decrypt K d pw = Some (Inl e) \<Longrightarrow> \<exists>m. e = DecryptionFailed m"
  using file_payload_Inl [of d]
  by (auto simp: file_decrypt_def try_opt_def Let_def ok_or_def map_err_def
      split: sum.splits option.splits Option.bind_splits)

lemma file_decrypt_length: "file_decrypt K d pw = Some (Inr root) \<Longrightarrow> length root = 32"
  by (auto simp: file_decrypt_def try_opt_def Let_def copy_at_def file_sizes
      split: sum.splits option.splits Option.bind_splits if_splits)

text \<open>What encryption returns, and that decryption opens it in either format.\<close>

lemma encrypt_decrypt:
  assumes "length pw < 2 ^ 32" and "length root = 32" and "length salt = 32" "length nonce = 12"
  obtains ct where "seal_root K root pw salt nonce = Inr (MAGIC @ [FORMAT_VERSION] @ salt @ nonce @ ct)"
    and "length ct = 48"
    and "file_decrypt K (MAGIC @ [FORMAT_VERSION] @ salt @ nonce @ ct) pw = Some (Inr root)"
    and "file_decrypt K (salt @ nonce @ ct) pw = Some (Inr root)"
proof -
  obtain key where key: "argon2id K argon2_params pw salt = Inr key" "length key = 32"
    using argon2id_ok assms by blast
  obtain c where c: "chacha_new K key = Inr c" using chacha_new_ok key(2) by blast
  obtain ct where ct: "chacha_encrypt K c nonce root = Inr ct" "length ct = 48"
    "chacha_decrypt K c nonce ct = Some root"
    using chacha_encrypt_ok [OF c assms(4,2)] assms(2) by auto
  have payload: "file_payload (MAGIC @ [FORMAT_VERSION] @ salt @ nonce @ ct) = Inr (salt @ nonce @ ct)"
    "file_payload (salt @ nonce @ ct) = Inr (salt @ nonce @ ct)"
    using assms ct(2) by (auto simp: file_payload_Inr_iff)
  show ?thesis
    by (rule that [of ct])
      (use assms key c ct payload in \<open>simp_all add: seal_root_def file_decrypt_def Let_def file_sizes copy_at_def\<close>)
qed

lemma encrypt_root_secret_cases:
  assumes "length pw < 2 ^ 32" and "length root = 32"
    and "encrypt_root_secret K root pw w = Some (r, w')"
  shows "\<exists>d. r = Inr d \<and> length d = 97 \<and> take 5 d = MAGIC @ [FORMAT_VERSION]
     \<and> file_decrypt K d pw = Some (Inr root) \<and> file_decrypt K (drop 5 d) pw = Some (Inr root)"
proof -
  from assms(3) obtain salt w1 nonce where fill:
    "fill_bytes 32 w = Some (Inr salt :: signer_error + _, w1)"
    "fill_bytes 12 w1 = Some (Inr nonce :: signer_error + _, w')" and r: "r = seal_root K root pw salt nonce"
    unfolding encrypt_root_secret_def SALT_LEN_def NONCE_LEN_def by (auto simp: io_bind_Some_iff)
  note len = fill_bytes_length [OF fill(1)] fill_bytes_length [OF fill(2)]
  obtain ct where ct: "r = Inr (MAGIC @ [FORMAT_VERSION] @ salt @ nonce @ ct)" "length ct = 48"
    "file_decrypt K (MAGIC @ [FORMAT_VERSION] @ salt @ nonce @ ct) pw = Some (Inr root)"
    "file_decrypt K (salt @ nonce @ ct) pw = Some (Inr root)"
    using encrypt_decrypt [OF assms(1,2) len] unfolding r by metis
  have "take 5 (MAGIC @ [FORMAT_VERSION] @ salt @ nonce @ ct) = MAGIC @ [FORMAT_VERSION]"
    "drop 5 (MAGIC @ [FORMAT_VERSION] @ salt @ nonce @ ct) = salt @ nonce @ ct"
    by simp_all
  with ct len show ?thesis by auto
qed

end

subsection \<open>Custody of the identity file\<close>

text \<open>A path whose last component is a plain name.\<close>

definition has_name :: "path \<Rightarrow> bool" where
  "has_name p \<longleftrightarrow> (\<exists>n. path_file_name p = Some n \<and> utf8_valid n)"

lemma staging_differs:
  assumes "has_name p"
  shows "name_of c (staging_path K p (identity_parent p) suffix) \<noteq> name_of c p"
proof -
  from assms obtain n where name: "path_file_name p = Some n" "utf8_valid n"
    by (auto simp: has_name_def)
  then have n: "comps p \<noteq> []" "last (comps p) = n" "n \<noteq> ''.''"
    by (auto simp: path_file_name_def split: if_splits)
  define s where "s = ''.'' @ n @ ''.'' @ hex_encode K suffix @ ''.tmp''"
  have parent: "identity_parent p = p \<lparr> comps := butlast (comps p) \<rparr>"
    using n(1) by (simp add: identity_parent_def path_parent_def)
  have "length s \<ge> 6" by (simp add: s_def)
  then have s: "s \<noteq> ''.''" by auto
  have comps: "comps p = butlast (comps p) @ [n]"
    using n(1,2) append_butlast_last_id by force
  have "filter (\<lambda>s. s \<noteq> ''.'') (comps p) = filter (\<lambda>s. s \<noteq> ''.'') (butlast (comps p)) @ [n]"
    using n(3) by (subst comps) simp
  moreover have "name_of c (staging_path K p (identity_parent p) suffix)
      = (if absolute p then [] else c) @ filter (\<lambda>s. s \<noteq> ''.'') (butlast (comps p)) @ [s]"
    using s by (simp add: name_of_def staging_path_def parent name path_join_def s_def Let_def)
  moreover have "s \<noteq> n"
  proof
    assume "s = n"
    moreover have "length s > length n" by (simp add: s_def)
    ultimately show False by simp
  qed
  ultimately show ?thesis by (simp add: name_of_def)
qed

text \<open>The file of this program with given contents.\<close>

definition private_file :: "byte list \<Rightarrow> fs_file" where
  "private_file d = \<lparr> f_data = d, f_mode = owner_only, f_mine = True \<rparr>"

lemma private_file_simps [simp]:
  "f_data (private_file d) = d" "f_mode (private_file d) = owner_only" "f_mine (private_file d)"
  "(private_file d) \<lparr> f_data := e \<rparr> = private_file e"
  by (simp_all add: private_file_def)

lemma secured_stage:
  assumes "n \<notin> S"
  shows "secured (keeps good n) (guarded n c (named h S (private_file [])))
     (io_bind (write_all h d) (\<lambda>_. sync_all))
     (\<lambda>r. guarded n c (\<lambda>f. case r of Inl _ \<Rightarrow> \<exists>e. named h S (private_file e) f
                         | Inr _ \<Rightarrow> named h S (private_file d) f))"
proof (rule secured_bind)
  show "secured (keeps good n) (guarded n c (named h S (private_file []))) (write_all h d)
     (\<lambda>r. guarded n c (\<lambda>f. case r of Inl _ \<Rightarrow> \<exists>e. named h S (private_file e) f
                         | Inr _ \<Rightarrow> named h S (private_file d) f))"
    unfolding write_all_def
    by (rule secured_post [OF kept.secured_syscall [OF stable_named call_ok_write [OF assms]]])
      (auto simp: guarded_def split: sum.splits)
  fix a :: unit
  show "secured (keeps good n)
     (guarded n c (\<lambda>f. case Inr a :: io_kind + unit of Inl _ \<Rightarrow> \<exists>e. named h S (private_file e) f
                         | Inr _ \<Rightarrow> named h S (private_file d) f)) sync_all
     (\<lambda>r. guarded n c (\<lambda>f. case r of Inl _ \<Rightarrow> \<exists>e. named h S (private_file e) f
                         | Inr _ \<Rightarrow> named h S (private_file d) f))"
    unfolding sync_all_def
    by (rule secured_post [OF kept.secured_syscall [OF _ call_ok_idle]])
      (auto simp: idle_calls guarded_def split: sum.splits)
qed simp

lemma secured_remove:
  assumes "name_of c q \<noteq> n"
  shows "secured (keeps good n) (guarded n c (named h S x)) (remove_file q)
     (\<lambda>_. guarded n c (\<lambda>f. \<exists>S'. S - {name_of c q} \<subseteq> S' \<and> named h S' x f))"
  unfolding remove_file_def
proof (rule kept.secured_on_path)
  show "call_ok (keeps good n) (named h S x) (remove_call (name_of c q))
      (\<lambda>_ f. \<exists>S'. S - {name_of c q} \<subseteq> S' \<and> named h S' x f)"
    by (rule call_ok_remove [OF assms])
qed auto

lemma secured_link:
  assumes "name_of c src \<noteq> name_of c p" and "good x" and "\<not> path_empty src"
  shows "secured (keeps good (name_of c p)) (guarded (name_of c p) c (named h {name_of c src} x))
     (hard_link src p)
     (\<lambda>r. guarded (name_of c p) c (\<lambda>f. case r of Inl _ \<Rightarrow> named h {name_of c src} x f
                                   | Inr _ \<Rightarrow> named h {name_of c src, name_of c p} x f))"
proof -
  have "secured (keeps good (name_of c p)) (guarded (name_of c p) c (named h {name_of c src} x))
     (io_act (on_path p (link_call (name_of c src))))
     (\<lambda>r. guarded (name_of c p) c (\<lambda>f. case r of Inl _ \<Rightarrow> named h {name_of c src} x f
                                   | Inr _ \<Rightarrow> named h {name_of c src, name_of c p} x f))"
  proof (rule kept.secured_on_path)
    show "call_ok (keeps good (name_of c p)) (named h {name_of c src} x)
       (link_call (name_of c src) (name_of c p))
       (\<lambda>r f. case r of Inl _ \<Rightarrow> named h {name_of c src} x f
              | Inr _ \<Rightarrow> named h {name_of c src, name_of c p} x f)"
      by (rule call_ok_link [OF assms(1), where good = good, OF assms(2)])
  qed simp_all
  then show ?thesis
    by (rule secured_cong [THEN iffD1, rotated])
      (simp add: hard_link_def assms(3) guarded_def resolve_name_of)
qed

text \<open>The tail of the installation, after the link.\<close>

lemma secured_tail:
  assumes "stable n B"
  shows "secured (keeps good n) (guarded n c B)
     (io_bind (io_map_err Io (file_open parent)) (\<lambda>_. io_map_err Io sync_all)) (\<lambda>_. guarded n c B)"
proof (rule secured_bind [where Q = "\<lambda>_. guarded n c B"])
  show "secured (keeps good n) (guarded n c B) (io_map_err Io (file_open parent)) (\<lambda>_. guarded n c B)"
    unfolding file_open_def
    by (rule secured_map_err [OF kept.secured_on_path [OF assms call_ok_idle]]) (simp_all add: idle_calls)
  show "secured (keeps good n) (guarded n c B) (io_map_err Io sync_all) (\<lambda>_. guarded n c B)"
    unfolding sync_all_def
    by (rule secured_map_err [OF kept.secured_syscall [OF assms call_ok_idle]]) (simp add: idle_calls)
qed

lemma secured_install:
  assumes "name_of c staging \<noteq> name_of c p" and "good (private_file d)" and "\<not> path_empty staging"
  shows "secured (keeps good (name_of c p))
     (guarded (name_of c p) c (named h {name_of c staging} (private_file [])))
     (install_staged p parent staging h d)
     (\<lambda>r. guarded (name_of c p) c (\<lambda>f. r = Inr () \<longrightarrow> custody (name_of c p) f = Some (private_file d)))"
proof -
  let ?n = "name_of c p" and ?s = "name_of c staging"
  let ?G = "keeps good ?n"
  let ?R = "\<lambda>r. guarded ?n c (\<lambda>f. r = Inr () \<longrightarrow> custody ?n f = Some (private_file d))"
  let ?linked = "\<lambda>f. \<exists>S. ?n \<in> S \<and> named h S (private_file d) f"
  have stable_linked: "stable ?n ?linked"
    using stable_ex [of ?n "\<lambda>S f. ?n \<in> S \<and> named h S (private_file d) f"] stable_named
    unfolding stable_def by blast
  have linked: "custody ?n f = Some (private_file d)" if "?linked f" for f
    using that by (auto simp: custody_Some_iff named_def)
  have failed: "secured ?G (guarded ?n c (\<lambda>f. \<exists>e. named h {?s} (private_file e) f))
      (io_try (remove_file staging) (\<lambda>_. io_err (Io k))) ?R" for k
  proof (rule secured_try)
    have "secured ?G (\<lambda>w. \<exists>e. guarded ?n c (named h {?s} (private_file e)) w) (remove_file staging)
        (\<lambda>_. guarded ?n c (\<lambda>_. True))"
      by (rule secured_exI, rule secured_post [OF secured_remove [OF assms(1)]]) (auto simp: guarded_def)
    then show "secured ?G (guarded ?n c (\<lambda>f. \<exists>e. named h {?s} (private_file e) f))
        (remove_file staging) (\<lambda>_. guarded ?n c (\<lambda>_. True))"
      by (rule secured_pre) (auto simp: guarded_def)
  qed (rule secured_err, simp add: guarded_def)
  have removed: "secured ?G (guarded ?n c (named h S (private_file d))) (remove_file staging)
      (\<lambda>_. guarded ?n c (\<lambda>f. ?n \<in> S \<longrightarrow> ?linked f))" for S
    by (rule secured_post [OF secured_remove [OF assms(1)]]) (use assms(1) in \<open>auto simp: guarded_def\<close>)
  have finish: "secured ?G (guarded ?n c (\<lambda>f. installed = Inr () \<longrightarrow> ?linked f))
      (io_bind (io_res (map_err Io installed)) (\<lambda>_.
         io_bind (io_map_err Io (file_open parent)) (\<lambda>_. io_map_err Io sync_all))) ?R"
    for installed :: "io_kind + unit"
  proof (rule secured_bind [where Q = "\<lambda>r. guarded ?n c (\<lambda>f. r = Inr () \<longrightarrow> ?linked f)"])
    show "secured ?G (guarded ?n c (\<lambda>f. installed = Inr () \<longrightarrow> ?linked f))
        (io_res (map_err Io installed)) (\<lambda>r. guarded ?n c (\<lambda>f. r = Inr () \<longrightarrow> ?linked f))"
      by (rule secured_res) (cases installed, auto simp: guarded_def)
    show "secured ?G (guarded ?n c (\<lambda>f. Inr a = (Inr () :: signer_error + unit) \<longrightarrow> ?linked f))
        (io_bind (io_map_err Io (file_open parent)) (\<lambda>_. io_map_err Io sync_all)) ?R" for a
    proof (rule secured_conseq [OF secured_tail [OF stable_linked]])
      show "?R r w" if "guarded ?n c ?linked w" for r w
        by (rule guarded_mono [OF that]) (use linked in blast)
    qed (simp add: guarded_def)
  qed (simp add: guarded_def)
  have succeeded: "secured ?G (guarded ?n c (named h {?s} (private_file d)))
      (io_try (hard_link staging p) (\<lambda>installed.
       io_try (remove_file staging) (\<lambda>_.
       io_bind (io_res (map_err Io installed)) (\<lambda>_.
       io_bind (io_map_err Io (file_open parent)) (\<lambda>_. io_map_err Io sync_all))))) ?R"
  proof (rule secured_try [OF secured_link [OF assms(1), where good = good, OF assms(2,3)]])
    fix installed :: "io_kind + unit"
    show "secured ?G
       (guarded ?n c (\<lambda>f. case installed of Inl _ \<Rightarrow> named h {?s} (private_file d) f
                        | Inr _ \<Rightarrow> named h {?s, ?n} (private_file d) f))
       (io_try (remove_file staging) (\<lambda>_.
        io_bind (io_res (map_err Io installed)) (\<lambda>_.
        io_bind (io_map_err Io (file_open parent)) (\<lambda>_. io_map_err Io sync_all)))) ?R"
    proof (rule secured_try [OF _ finish])
      show "secured ?G
         (guarded ?n c (\<lambda>f. case installed of Inl _ \<Rightarrow> named h {?s} (private_file d) f
                          | Inr _ \<Rightarrow> named h {?s, ?n} (private_file d) f))
         (remove_file staging) (\<lambda>_. guarded ?n c (\<lambda>f. installed = Inr () \<longrightarrow> ?linked f))"
      proof (cases installed)
        case (Inl e)
        then show ?thesis
          by (auto intro!: secured_post [OF removed [of "{?s}"]] simp: guarded_def)
      next
        case (Inr u)
        then show ?thesis
          by (auto intro!: secured_post [OF removed [of "{?s, ?n}"]] simp: guarded_def)
      qed
    qed
  qed
  show ?thesis
    unfolding install_staged_def
  proof (rule secured_try [OF secured_stage])
    show "?n \<notin> {?s}" using assms(1) by simp
    fix staged :: "io_kind + unit"
    show "secured ?G
       (guarded ?n c (\<lambda>f. case staged of Inl _ \<Rightarrow> \<exists>e. named h {?s} (private_file e) f
                        | Inr _ \<Rightarrow> named h {?s} (private_file d) f))
       (case staged of
          Inl e \<Rightarrow> io_try (remove_file staging) (\<lambda>_. io_err (Io e))
        | Inr _ \<Rightarrow>
            io_try (hard_link staging p) (\<lambda>installed.
            io_try (remove_file staging) (\<lambda>_.
            io_bind (io_res (map_err Io installed)) (\<lambda>_.
            io_bind (io_map_err Io (file_open parent)) (\<lambda>_. io_map_err Io sync_all))))) ?R"
      using failed succeeded by (cases staged) simp_all
  qed
qed

text \<open>A sealed identity: 97 bytes that the passphrase opens to the root.\<close>

definition sealed :: "crates \<Rightarrow> byte list \<Rightarrow> byte list \<Rightarrow> byte list \<Rightarrow> bool" where
  "sealed K pw root d \<longleftrightarrow> length d = 97 \<and> file_decrypt K d pw = Some (Inr root)"

lemma secured_save:
  assumes "aead_crate K" and "has_name (fsg_path self)" and "length pw < 2 ^ 32" and "length root = 32"
    and "\<And>d. sealed K pw root d \<Longrightarrow> good (private_file d)"
  shows "secured (keeps good (name_of c (fsg_path self))) (guarded (name_of c (fsg_path self)) c (\<lambda>_. True))
     (save_exclusive K self root pw)
     (\<lambda>r. guarded (name_of c (fsg_path self)) c (\<lambda>f. r = Inr () \<longrightarrow>
        (\<exists>d. sealed K pw root d \<and> custody (name_of c (fsg_path self)) f = Some (private_file d))))"
proof -
  let ?p = "fsg_path self"
  let ?n = "name_of c ?p" and ?parent = "identity_parent ?p"
  let ?G = "keeps good ?n" and ?T = "guarded ?n c (\<lambda>_. True)"
  let ?R = "\<lambda>r. guarded ?n c (\<lambda>f. r = Inr () \<longrightarrow>
        (\<exists>d. sealed K pw root d \<and> custody ?n f = Some (private_file d)))"
  have fill: "secured ?G ?T (fill_bytes k) (\<lambda>r. ?T)" for k
    by (rule kept.secured_fill_bytes) simp
  have encrypt: "secured ?G ?T (encrypt_root_secret K root pw)
      (\<lambda>r w. ?T w \<and> (\<exists>d. r = Inr d \<and> sealed K pw root d))"
  proof (rule secured_and_result)
    show "secured ?G ?T (encrypt_root_secret K root pw) (\<lambda>r. ?T)"
      unfolding encrypt_root_secret_def
      by (rule secured_bind [OF fill], rule secured_bind [OF fill], rule secured_res) simp_all
  qed (use aead_crate.encrypt_root_secret_cases [OF assms(1,3,4)] in \<open>fastforce simp: sealed_def\<close>)
  have mkdir: "secured ?G ?T (io_map_err Io (create_dir_all ?parent)) (\<lambda>_. ?T)"
    unfolding create_dir_all_def
  proof (cases "path_empty ?parent")
    case True
    then show "secured ?G ?T (io_map_err Io (if path_empty ?parent then io_ok () else io_act (on_path ?parent mkdirs_call))) (\<lambda>_. ?T)"
      by (auto intro!: secured_map_err secured_ok)
  next
    case False
    have "secured ?G ?T (io_act (on_path ?parent mkdirs_call)) (\<lambda>_. ?T)"
      by (rule kept.secured_on_path [OF stable_True call_ok_mkdirs]) simp
    with False show "secured ?G ?T (io_map_err Io (if path_empty ?parent then io_ok () else io_act (on_path ?parent mkdirs_call))) (\<lambda>_. ?T)"
      by (auto intro!: secured_map_err)
  qed
  have install: "secured ?G ?T
      (io_bind (io_map_err Io (open_create_new (staging_path K ?p ?parent suffix) owner_only)) (\<lambda>handle.
       install_staged ?p ?parent (staging_path K ?p ?parent suffix) handle d)) ?R"
    if d: "sealed K pw root d" for suffix d
  proof -
    let ?st = "staging_path K ?p ?parent suffix"
    have differs: "name_of c ?st \<noteq> ?n" by (rule staging_differs [OF assms(2)])
    have nonempty: "\<not> path_empty ?st"
      by (simp add: path_empty_def staging_path_def path_join_def Let_def)
    have opened: "secured ?G ?T (open_create_new ?st owner_only)
        (\<lambda>r. guarded ?n c (\<lambda>f. case r of Inl _ \<Rightarrow> True
           | Inr h \<Rightarrow> named h {name_of c ?st} (private_file []) f))"
      unfolding open_create_new_def private_file_def
    proof (rule kept.secured_on_path [where op = "\<lambda>n. create_new_call n owner_only", OF stable_True])
      show "call_ok (keeps good ?n) (\<lambda>_. True) (create_new_call (name_of c ?st) owner_only)
         (\<lambda>r f. case r of Inl _ \<Rightarrow> True
                | Inr h \<Rightarrow> named h {name_of c ?st} \<lparr> f_data = [], f_mode = owner_only, f_mine = True \<rparr> f)"
        by (rule call_ok_create_new [OF differs])
    qed simp
    show ?thesis
    proof (rule secured_bind [OF secured_map_err])
      show "secured ?G ?T (open_create_new ?st owner_only)
          (\<lambda>r. (\<lambda>q. guarded ?n c (\<lambda>f. case q of Inl _ \<Rightarrow> True
             | Inr h \<Rightarrow> named h {name_of c ?st} (private_file []) f)) (map_err Io r))"
        by (rule secured_post [OF opened]) (auto simp: guarded_def split: sum.splits)
      show "secured ?G (guarded ?n c (\<lambda>f. case Inr h :: signer_error + nat of Inl _ \<Rightarrow> True
             | Inr h \<Rightarrow> named h {name_of c ?st} (private_file []) f))
          (install_staged ?p ?parent ?st h d) ?R" for h
        by (rule secured_conseq [OF secured_install [where good = good, OF differs assms(5) [OF d] nonempty]])
          (use d in \<open>auto simp: guarded_def\<close>)
    qed (simp add: guarded_def)
  qed
  show ?thesis
    unfolding save_exclusive_def Let_def
  proof (rule secured_bind [OF encrypt])
    fix d
    have "secured ?G (\<lambda>w. ?T w \<and> sealed K pw root d)
       (io_bind (io_map_err Io (create_dir_all ?parent)) (\<lambda>_.
        io_bind (fill_bytes 8) (\<lambda>suffix.
        io_bind (io_map_err Io (open_create_new (staging_path K ?p ?parent suffix) owner_only)) (\<lambda>handle.
        install_staged ?p ?parent (staging_path K ?p ?parent suffix) handle d)))) ?R"
      by (rule secured_pure, rule secured_bind [OF mkdir], rule secured_bind [OF fill], rule install)
        (simp_all add: guarded_def)
    then show "secured ?G (\<lambda>w. ?T w \<and> (\<exists>d'. Inr d = (Inr d' :: signer_error + _) \<and> sealed K pw root d'))
       (io_bind (io_map_err Io (create_dir_all ?parent)) (\<lambda>_.
        io_bind (fill_bytes 8) (\<lambda>suffix.
        io_bind (io_map_err Io (open_create_new (staging_path K ?p ?parent suffix) owner_only)) (\<lambda>handle.
        install_staged ?p ?parent (staging_path K ?p ?parent suffix) handle d)))) ?R"
      by (rule secured_pre) auto
  qed simp
qed

subsection \<open>Installation in a calm world\<close>

text \<open>The file system after the installation of \<open>d\<close> at \<open>n\<close>: nothing else changes, an occupied name stays.\<close>

definition installed_at :: "string list \<Rightarrow> byte list \<Rightarrow> fs \<Rightarrow> fs" where
  "installed_at n d f =
     (if nodes f n = None
      then f \<lparr> nodes := (nodes f)(n \<mapsto> File (length (inodes f))), inodes := inodes f @ [private_file d] \<rparr>
      else f \<lparr> inodes := inodes f @ [private_file d] \<rparr>)"

lemma calm_install:
  assumes "calm w" and "name_of (cwd w) p = q @ [m]" and "name_of (cwd w) staging = q @ [s]"
    and "s \<noteq> m" and "\<not> path_empty p" and "\<not> path_empty staging" and "dir_at f q"
    and "name_of (cwd w) parent = q" and "nodes f (q @ [s]) = None"
    and "disk w = f \<lparr> nodes := (nodes f)(q @ [s] \<mapsto> File (length (inodes f))),
                     inodes := inodes f @ [private_file []] \<rparr>"
  shows "\<exists>w'. install_staged p parent staging (length (inodes f)) d w =
      Some (if nodes f (q @ [m]) \<noteq> None then Inl (Io AlreadyExists)
            else if path_empty parent then Inl (Io NotFound) else Inr (), w')
    \<and> calm_after w (installed_at (q @ [m]) d f) w'"
proof -
  let ?h = "length (inodes f)" and ?s = "q @ [s]" and ?n = "q @ [m]"
  have ns: "?n \<noteq> ?s" "q \<noteq> ?s" using assms(4) by auto
  define f1 where "f1 = f \<lparr> nodes := (nodes f)(?s \<mapsto> File ?h), inodes := inodes f @ [private_file d] \<rparr>"
  have "last (disk w # snd (write_call ?h d None (disk w))) = f1"
    by (simp add: write_call_def Let_def set_data_def f1_def assms(10) nth_append)
  moreover have "write_call ?h d None (disk w) = (Inr (), snd (write_call ?h d None (disk w)))"
    by (simp add: write_call_def Let_def)
  ultimately obtain w1 where w1: "write_all ?h d w = Some (Inr (), w1)" "calm_after w f1 w1"
    using calm_syscall [where op = "write_call ?h d", OF assms(1)] by (auto simp: write_all_def)
  then have c1: "calm w1" "disk w1 = f1" "cwd w1 = cwd w" by (simp_all add: calm_after_def)
  obtain w2 where w2: "sync_all w1 = Some (Inr (), w2)" "calm_after w1 f1 w2"
    using calm_syscall [where op = sync_call, OF c1(1), of "Inr ()" "[]"] c1
    by (auto simp: sync_all_def sync_call_def)
  then have c2: "calm w2" "disk w2 = f1" "cwd w2 = cwd w" using c1 by (simp_all add: calm_after_def)
  have parent1: "parent_error f1 ?n = None" using assms(7) ns by (simp add: parent_error_def dir_at_def f1_def)
  have src: "nodes f1 ?s = Some (File ?h)" by (simp add: f1_def)
  have dst: "nodes f1 ?n = nodes f ?n" using ns(1) by (simp add: f1_def)
  define f2 where "f2 = (if nodes f ?n = None then f1 \<lparr> nodes := (nodes f1)(?n \<mapsto> File ?h) \<rparr> else f1)"
  define res where "res = (if nodes f ?n = None then Inr () else Inl AlreadyExists)"
  have "link_call (name_of (cwd w2) staging) (name_of (cwd w2) p) None (disk w2)
      = (res, if nodes f ?n = None then [f2] else [])"
    using parent1 src dst assms(2,3) c2 by (simp add: link_call_def res_def f2_def)
  from calm_on_path [where op = "link_call (name_of (cwd w2) staging)", OF c2(1) assms(5) this]
  obtain w3 where link: "on_path p (link_call (name_of (cwd w2) staging)) w2 = (res, w3)"
    and last: "calm_after w2 (last (disk w2 # (if nodes f ?n = None then [f2] else []))) w3" by blast
  have "last (disk w2 # (if nodes f ?n = None then [f2] else [])) = f2"
    using c2(2) by (simp add: f2_def)
  with link last have w3: "hard_link staging p w2 = Some (res, w3)" "calm_after w2 f2 w3"
    using assms(6) by (simp_all add: hard_link_def resolve_name_of)
  then have c3: "calm w3" "disk w3 = f2" "cwd w3 = cwd w" using c2 by (simp_all add: calm_after_def)
  define f3 where "f3 = f2 \<lparr> nodes := (nodes f2)(?s := None) \<rparr>"
  have "remove_call (name_of (cwd w3) staging) None (disk w3) = (Inr (), [f3])"
    using assms(3) c3 ns src by (auto simp: remove_call_def f3_def f2_def)
  from calm_on_path [where op = remove_call, OF c3(1) assms(6) this]
  obtain w4 where w4: "remove_file staging w3 = Some (Inr (), w4)" "calm_after w3 f3 w4"
    by (auto simp: remove_file_def)
  then have c4: "calm w4" "disk w4 = f3" "cwd w4 = cwd w" using c3 by (simp_all add: calm_after_def)
  have "(nodes f)(?s := None) = nodes f" using assms(9) by auto
  then have f3: "f3 = installed_at ?n d f"
    using ns by (simp add: f3_def f2_def f1_def installed_at_def fun_upd_twist)
  have staged: "io_bind (write_all ?h d) (\<lambda>_. sync_all) w = Some (Inr (), w2)"
    using w1 w2 by (simp add: io_bind_def)
  have after: "calm_after w x w'" if "calm_after w4 x w'" for x w'
    using that c4 by (simp add: calm_after_def)
  show ?thesis
  proof (cases "nodes f ?n = None \<and> \<not> path_empty parent")
    case True
    have "dir_at f3 q" using assms(7) ns True by (simp add: dir_at_def f3_def f2_def f1_def)
    then have "open_call (name_of (cwd w4) parent) None (disk w4) = (Inr (), [])"
      using assms(8) c4 by (auto simp: open_call_def dir_at_def)
    from calm_on_path [where op = open_call, OF c4(1) _ this] True
    obtain w5 where w5: "file_open parent w4 = Some (Inr (), w5)" "calm_after w4 f3 w5"
      using c4 by (auto simp: file_open_def)
    then have c5: "calm w5" "disk w5 = f3" by (simp_all add: calm_after_def)
    obtain w6 where w6: "sync_all w5 = Some (Inr (), w6)" "calm_after w5 f3 w6"
      using calm_syscall [where op = sync_call, OF c5(1), of "Inr ()" "[]"] c5
      by (auto simp: sync_all_def sync_call_def)
    have "calm_after w f3 w6" using w5(2) w6(2) c4 by (simp add: calm_after_def)
    moreover have "install_staged p parent staging ?h d w = Some (Inr (), w6)"
      using staged w3(1) w4(1) w5(1) w6(1) True
      by (simp add: install_staged_def io_try_def io_bind_def io_map_err_def res_def)
    ultimately show ?thesis using True f3 by auto
  next
    case False
    show ?thesis
    proof (cases "nodes f ?n = None")
      case None: True
      with False have "path_empty parent" by simp
      from calm_on_empty_path [OF c4(1) this, of open_call]
      obtain w5 where w5: "file_open parent w4 = Some (Inl NotFound, w5)" "calm_after w4 f3 w5"
        using c4 by (auto simp: file_open_def)
      have "install_staged p parent staging ?h d w = Some (Inl (Io NotFound), w5)"
        using staged w3(1) w4(1) w5(1) None
        by (simp add: install_staged_def io_try_def io_bind_def io_map_err_def res_def)
      with after [OF w5(2)] None \<open>path_empty parent\<close> f3 show ?thesis by auto
    next
      case Some: False
      have "install_staged p parent staging ?h d w = Some (Inl (Io AlreadyExists), w4)"
        using staged w3(1) w4(1) Some
        by (simp add: install_staged_def io_try_def io_bind_def io_map_err_def res_def)
      moreover have "calm_after w f3 w4" using c4 by (simp add: calm_after_def)
      ultimately show ?thesis using Some f3 by auto
    qed
  qed
qed

text \<open>
  A calm world in which a named path can be reached: its directories exist or can be made.
\<close>

definition reachable :: "path \<Rightarrow> 'z world_scheme \<Rightarrow> bool" where
  "reachable p w \<longleftrightarrow>
     calm w \<and> wf_fs (disk w) \<and> has_name p \<and> dir_at (disk w) (cwd w)
     \<and> (let q = name_of (cwd w) (identity_parent p) in
        \<forall>k \<le> length q. dir_at (disk w) (take k q) \<or> nodes (disk w) (take k q) = None)"

text \<open>An installation also needs that no stale staging file is in the way.\<close>

definition ready :: "crates \<Rightarrow> path \<Rightarrow> 'z world_scheme \<Rightarrow> bool" where
  "ready K p w \<longleftrightarrow>
     reachable p w
     \<and> (\<forall>suffix. nodes (disk w) (name_of (cwd w) (staging_path K p (identity_parent p) suffix)) = None)"

lemma reachable_same:
  "reachable p w \<Longrightarrow> calm_after w (disk w) w1 \<Longrightarrow> reachable p w1"
  unfolding reachable_def calm_after_def by (simp only: simp_thms)

lemma reachable_name:
  assumes "reachable p w"
  obtains m where "name_of (cwd w) p = name_of (cwd w) (identity_parent p) @ [m]"
    and "\<not> path_empty p" and "path_parent p = Some (identity_parent p)"
proof -
  from assms obtain cs l where c: "comps p = cs @ [l]" "l \<noteq> ''.''"
    by (cases "comps p" rule: rev_cases)
      (auto simp: reachable_def has_name_def path_file_name_def split: if_splits)
  then have "name_of (cwd w) p = name_of (cwd w) (identity_parent p) @ [l]" "\<not> path_empty p"
    "path_parent p = Some (identity_parent p)"
    by (simp_all add: identity_parent_def path_parent_def name_of_def path_empty_def)
  with that show ?thesis by blast
qed

definition with_parent :: "path \<Rightarrow> 'z world_scheme \<Rightarrow> fs" where
  "with_parent p w =
     (if path_empty (identity_parent p) then disk w
      else add_dirs (disk w) (missing_prefixes (disk w) (name_of (cwd w) (identity_parent p))))"

lemma missing_prefixes_length: "m \<in> set (missing_prefixes f q) \<Longrightarrow> length m \<le> length q"
  by (auto simp: missing_prefixes_def)

lemma nodes_with_parent:
  "length (name_of (cwd w) (identity_parent p)) < length m \<Longrightarrow> nodes (with_parent p w) m = nodes (disk w) m"
  by (auto simp: with_parent_def nodes_add_dirs dest: missing_prefixes_length)

lemma inodes_with_parent [simp]: "inodes (with_parent p w) = inodes (disk w)"
  by (simp add: with_parent_def add_dirs_def)

lemma dir_at_with_parent:
  assumes "reachable p w"
  shows "dir_at (with_parent p w) (name_of (cwd w) (identity_parent p))"
proof (cases "path_empty (identity_parent p)")
  case True
  then have "name_of (cwd w) (identity_parent p) = cwd w"
    by (simp add: path_empty_def name_of_def)
  with True assms show ?thesis by (simp add: with_parent_def reachable_def)
next
  case False
  let ?q = "name_of (cwd w) (identity_parent p)"
  from assms have "dir_at (disk w) ?q \<or> nodes (disk w) ?q = None"
    by (auto simp: reachable_def Let_def dest: spec [of _ "length ?q"])
  moreover have "?q \<in> set (missing_prefixes (disk w) ?q)" if "nodes (disk w) ?q = None" "?q \<noteq> []"
    using that by (auto simp: missing_prefixes_def Suc_le_eq intro!: image_eqI [of _ _ "length ?q"])
  ultimately show ?thesis using False
    by (auto simp: with_parent_def dir_at_def nodes_add_dirs)
qed

lemma calm_mkdir:
  assumes "reachable p w" and "calm_after w (disk w) w1"
  shows "\<exists>w2. create_dir_all (identity_parent p) w1 = Some (Inr (), w2) \<and> calm_after w (with_parent p w) w2"
proof (cases "path_empty (identity_parent p)")
  case True
  with assms(2) show ?thesis by (simp add: create_dir_all_def with_parent_def)
next
  case False
  let ?q = "name_of (cwd w) (identity_parent p)"
  have all: "\<forall>k \<le> length ?q. dir_at (disk w) (take k ?q) \<or> nodes (disk w) (take k ?q) = None"
    using assms(1) [unfolded reachable_def Let_def] by (elim conjE) assumption
  have none: "\<not> list_ex (\<lambda>k. \<not> dir_at (disk w) (take k ?q) \<and> nodes (disk w) (take k ?q) \<noteq> None) [1..<length ?q]"
  proof
    assume "list_ex (\<lambda>k. \<not> dir_at (disk w) (take k ?q) \<and> nodes (disk w) (take k ?q) \<noteq> None) [1..<length ?q]"
    then obtain k where k: "k \<in> set [1..<length ?q]" "\<not> dir_at (disk w) (take k ?q)"
      "nodes (disk w) (take k ?q) \<noteq> None"
      unfolding list_ex_iff by blast
    from k(1) have "k \<le> length ?q" by auto
    from all [rule_format, OF this] show False
      by (rule disjE) (erule notE [OF k(2)], erule notE [OF k(3)])
  qed
  have free: "\<not> (\<not> dir_at (disk w) ?q \<and> nodes (disk w) ?q \<noteq> None)"
  proof
    assume bad: "\<not> dir_at (disk w) ?q \<and> nodes (disk w) ?q \<noteq> None"
    from all [rule_format, OF order.refl] show False
      unfolding take_all [OF order.refl]
      by (rule disjE) (erule notE [OF conjunct1 [OF bad]], erule notE [OF conjunct2 [OF bad]])
  qed
  have w1: "cwd w1 = cwd w" "disk w1 = disk w" using assms(2) by (simp_all add: calm_after_def)
  have call: "mkdirs_call (name_of (cwd w1) (identity_parent p)) None (disk w1) = (Inr (), [with_parent p w])"
    unfolding w1 mkdirs_call_def if_not_P [OF none] if_not_P [OF free] with_parent_def if_not_P [OF False] by (rule option.case(1))
  have "calm w1" using assms(2) by (simp add: calm_after_def)
  from calm_on_path [where op = mkdirs_call, OF this False call]
  obtain w2 where "on_path (identity_parent p) mkdirs_call w1 = (Inr (), w2)"
    "calm_after w1 (with_parent p w) w2" by auto
  moreover from this(2) assms(2) have "calm_after w (with_parent p w) w2"
    by (simp add: calm_after_def)
  ultimately show ?thesis by (simp add: create_dir_all_def False)
qed

lemma calm_save:
  assumes "aead_crate K" and "ready K (fsg_path self) w" and "length pw < 2 ^ 32" and "length root = 32"
  shows "\<exists>w' d. sealed K pw root d
    \<and> save_exclusive K self root pw w = Some
        (if nodes (disk w) (name_of (cwd w) (fsg_path self)) \<noteq> None then Inl (Io AlreadyExists)
         else if path_empty (identity_parent (fsg_path self)) then Inl (Io NotFound) else Inr (), w')
    \<and> calm_after w (installed_at (name_of (cwd w) (fsg_path self)) d (with_parent (fsg_path self) w)) w'"
proof -
  let ?p = "fsg_path self" and ?parent = "identity_parent (fsg_path self)" and ?f = "with_parent (fsg_path self) w"
  let ?q = "name_of (cwd w) ?parent"
  have reach: "reachable ?p w" using assms(2) by (simp add: ready_def)
  then have calm: "calm w" by (simp add: reachable_def)
  obtain salt w1 where w1: "fill_bytes SALT_LEN w = Some (Inr salt :: signer_error + _, w1)"
    "length salt = 32" "calm_after w (disk w) w1"
    using calm_fill_bytes [OF calm, of SALT_LEN] by (metis SALT_LEN_def)
  then have c1: "calm w1" by (simp add: calm_after_def)
  obtain nonce w2 where w2: "fill_bytes NONCE_LEN w1 = Some (Inr nonce :: signer_error + _, w2)"
    "length nonce = 12" "calm_after w1 (disk w1) w2"
    using calm_fill_bytes [OF c1, of NONCE_LEN] by (metis NONCE_LEN_def)
  obtain d where d: "seal_root K root pw salt nonce = Inr d" "sealed K pw root d"
  proof -
    from aead_crate.encrypt_decrypt [OF assms(1,3,4) w1(2) w2(2)] obtain ct where
      "seal_root K root pw salt nonce = Inr (MAGIC @ [FORMAT_VERSION] @ salt @ nonce @ ct)" "length ct = 48"
      "file_decrypt K (MAGIC @ [FORMAT_VERSION] @ salt @ nonce @ ct) pw = Some (Inr root)" by metis
    with that w1(2) w2(2) show ?thesis by (simp add: sealed_def)
  qed
  have enc: "encrypt_root_secret K root pw w = Some (Inr d, w2)"
    using w1(1) w2(1) d(1) by (simp add: encrypt_root_secret_def io_bind_def)
  have "calm_after w (disk w) w2" using w1(3) w2(3) by (simp add: calm_after_def)
  from calm_mkdir [OF reach this] obtain w3 where w3: "create_dir_all ?parent w2 = Some (Inr (), w3)"
    "calm_after w ?f w3" by blast
  then have c3: "calm w3" "disk w3 = ?f" "cwd w3 = cwd w" by (simp_all add: calm_after_def)
  obtain suffix w4 where w4: "fill_bytes 8 w3 = Some (Inr suffix :: signer_error + _, w4)"
    "calm_after w3 (disk w3) w4"
    using calm_fill_bytes [OF c3(1), of 8] by metis
  then have c4: "calm w4" "disk w4 = ?f" "cwd w4 = cwd w" using c3 by (simp_all add: calm_after_def)
  define staging where "staging = staging_path K ?p ?parent suffix"
  have name: "has_name ?p" using reach by (simp add: reachable_def)
  obtain m where pn: "name_of (cwd w) ?p = ?q @ [m]" and p_ne: "\<not> path_empty ?p"
    using reachable_name [OF reach] by blast
  obtain s where sn: "name_of (cwd w) staging = ?q @ [s]" and s_ne: "\<not> path_empty staging"
  proof -
    define t where "t = ''.'' @ (case path_file_name ?p of Some name \<Rightarrow> if utf8_valid name then name else ''identity''
        | None \<Rightarrow> ''identity'') @ ''.'' @ hex_encode K suffix @ ''.tmp''"
    have "length t \<ge> 6" by (simp add: t_def)
    then have "t \<noteq> ''.''" by auto
    with that show ?thesis
      by (simp add: staging_def staging_path_def path_join_def name_of_def path_empty_def t_def Let_def)
  qed
  have "s \<noteq> m" using staging_differs [OF name, of "cwd w" K suffix] pn sn by (simp add: staging_def)
  have "nodes (disk w) (name_of (cwd w) staging) = None"
    using assms(2) unfolding ready_def staging_def by blast
  then have free: "nodes (disk w) (?q @ [s]) = None" unfolding sn .
  then have free': "nodes ?f (?q @ [s]) = None" by (simp add: nodes_with_parent)
  define g where "g = ?f \<lparr> nodes := (nodes ?f)(?q @ [s] \<mapsto> File (length (inodes ?f))),
      inodes := inodes ?f @ [private_file []] \<rparr>"
  have "create_new_call (name_of (cwd w4) staging) owner_only None (disk w4)
      = (Inr (length (inodes ?f)), [g])"
    using free' dir_at_with_parent [OF reach] sn c4
    by (simp add: create_new_call_def parent_error_def g_def private_file_def)
  from calm_on_path [where op = "\<lambda>n. create_new_call n owner_only", OF c4(1) s_ne this]
  obtain w5 where w5: "open_create_new staging owner_only w4 = Some (Inr (length (inodes ?f)), w5)"
    "calm_after w4 g w5" by (auto simp: open_create_new_def)
  then have c5: "calm w5" "disk w5 = g" "cwd w5 = cwd w" using c4 by (simp_all add: calm_after_def)
  have names: "name_of (cwd w5) ?p = ?q @ [m]" "name_of (cwd w5) staging = ?q @ [s]"
    "name_of (cwd w5) ?parent = ?q"
    using c5(3) pn sn by simp_all
  from calm_install [where f = ?f and d = d, OF c5(1) names(1,2) \<open>s \<noteq> m\<close> p_ne s_ne
      dir_at_with_parent [OF reach] names(3) free' c5(2) [unfolded g_def]]
  obtain w6 where w6: "install_staged ?p ?parent staging (length (inodes ?f)) d w5 =
      Some (if nodes ?f (?q @ [m]) \<noteq> None then Inl (Io AlreadyExists)
            else if path_empty ?parent then Inl (Io NotFound) else Inr (), w6)"
    "calm_after w5 (installed_at (?q @ [m]) d ?f) w6" by blast
  have run: "save_exclusive K self root pw w = Some
      (if nodes ?f (?q @ [m]) \<noteq> None then Inl (Io AlreadyExists)
       else if path_empty ?parent then Inl (Io NotFound) else Inr (), w6)"
    unfolding save_exclusive_def Let_def w6(1) [symmetric]
    using enc w3(1) w4(1) w5(1)
    by (simp add: io_bind_def io_map_err_def staging_def)
  have after: "calm_after w (installed_at (?q @ [m]) d ?f) w6"
    using w6(2) c5 by (simp add: calm_after_def)
  have same: "nodes ?f (?q @ [m]) = nodes (disk w) (?q @ [m])" by (simp add: nodes_with_parent)
  show ?thesis
    unfolding pn using run [unfolded same] after d(2) by blast
qed

lemma calm_generate:
  assumes "aead_crate K" and "ready K (fsg_path self) w" and "length pw < 2 ^ 32"
  shows "\<exists>w' d root. length root = 32 \<and> sealed K pw root d
    \<and> file_generate K self pw w = Some
        (if nodes (disk w) (name_of (cwd w) (fsg_path self)) \<noteq> None then Inl (Io AlreadyExists)
         else if path_empty (identity_parent (fsg_path self)) then Inl (Io NotFound) else Inr (), w')
    \<and> calm_after w (installed_at (name_of (cwd w) (fsg_path self)) d (with_parent (fsg_path self) w)) w'"
proof -
  have "calm w" using assms(2) by (simp add: ready_def reachable_def)
  then obtain root w1 where w1: "fill_bytes SECRET_LEN w = Some (Inr root :: signer_error + _, w1)"
    "length root = 32" "calm_after w (disk w) w1"
    using calm_fill_bytes [of w SECRET_LEN] by (metis SECRET_LEN_def)
  have same: "disk w1 = disk w" "cwd w1 = cwd w" "calm w1" using w1(3) by (simp_all add: calm_after_def)
  have "ready K (fsg_path self) w1"
    using assms(2) reachable_same [OF _ w1(3)] unfolding ready_def same by blast
  from calm_save [OF assms(1) this assms(3) w1(2)] obtain w' d where d: "sealed K pw root d"
    and run: "save_exclusive K self root pw w1 = Some
        (if nodes (disk w) (name_of (cwd w) (fsg_path self)) \<noteq> None then Inl (Io AlreadyExists)
         else if path_empty (identity_parent (fsg_path self)) then Inl (Io NotFound) else Inr (), w')"
    and after: "calm_after w1 (installed_at (name_of (cwd w) (fsg_path self)) d (with_parent (fsg_path self) w1)) w'"
    unfolding same by blast
  have "with_parent (fsg_path self) w1 = with_parent (fsg_path self) w"
    by (simp add: with_parent_def same)
  with after same have "calm_after w (installed_at (name_of (cwd w) (fsg_path self)) d (with_parent (fsg_path self) w)) w'"
    by (simp add: calm_after_def)
  moreover have "file_generate K self pw w = Some
        (if nodes (disk w) (name_of (cwd w) (fsg_path self)) \<noteq> None then Inl (Io AlreadyExists)
         else if path_empty (identity_parent (fsg_path self)) then Inl (Io NotFound) else Inr (), w')"
    unfolding run [symmetric] using w1(1) by (simp add: file_generate_def io_bind_def)
  ultimately show ?thesis using d w1(2) by blast
qed

lemma custody_installed:
  assumes "nodes f n = None"
  shows "nodes (installed_at n d f) n = Some (File (length (inodes f)))"
    and "inodes (installed_at n d f) ! length (inodes f) = private_file d"
  using assms by (simp_all add: installed_at_def)

lemma calm_encrypt:
  assumes "calm w"
  shows "\<exists>r w'. encrypt_root_secret K root pw w = Some (r, w')"
proof -
  obtain salt w1 where w1: "fill_bytes SALT_LEN w = Some (Inr salt :: signer_error + _, w1)" "calm_after w (disk w) w1"
    using calm_fill_bytes [OF assms, of SALT_LEN] by metis
  then have "calm w1" by (simp add: calm_after_def)
  then obtain nonce w2 where "fill_bytes NONCE_LEN w1 = Some (Inr nonce :: signer_error + _, w2)"
    using calm_fill_bytes [of w1 NONCE_LEN] by metis
  with w1(1) show ?thesis by (simp add: encrypt_root_secret_def io_bind_def)
qed

lemma secured_generate:
  assumes "aead_crate K" and "has_name (fsg_path self)" and "length pw < 2 ^ 32"
    and "\<And>d root. length root = 32 \<Longrightarrow> sealed K pw root d \<Longrightarrow> good (private_file d)"
  shows "secured (keeps good (name_of c (fsg_path self))) (guarded (name_of c (fsg_path self)) c (\<lambda>_. True))
     (file_generate K self pw)
     (\<lambda>r. guarded (name_of c (fsg_path self)) c (\<lambda>f. r = Inr () \<longrightarrow>
        (\<exists>d root. length root = 32 \<and> sealed K pw root d
            \<and> custody (name_of c (fsg_path self)) f = Some (private_file d))))"
  unfolding file_generate_def
proof (rule secured_bind)
  let ?n = "name_of c (fsg_path self)"
  show "secured (keeps good ?n) (guarded ?n c (\<lambda>_. True))
      (fill_bytes SECRET_LEN :: ('a world_scheme, signer_error, byte list) io)
      (\<lambda>(r :: signer_error + byte list) w. guarded ?n c (\<lambda>_. True) w \<and> (\<exists>root. r = Inr root \<and> length root = 32))"
  proof (rule secured_and_result)
    fix w w' :: "'a world_scheme" and r :: "signer_error + byte list"
    assume run: "fill_bytes SECRET_LEN w = Some (r, w')"
    then show "\<exists>root. r = Inr root \<and> length root = 32"
      using fill_bytes_length [of SECRET_LEN w _ w'] by (cases r) (auto simp: SECRET_LEN_def)
  qed (rule kept.secured_fill_bytes, simp)
  fix root
  have "secured (keeps good ?n) (\<lambda>w. guarded ?n c (\<lambda>_. True) w \<and> length root = 32) (save_exclusive K self root pw)
      (\<lambda>r. guarded ?n c (\<lambda>f. r = Inr () \<longrightarrow>
        (\<exists>d root. length root = 32 \<and> sealed K pw root d \<and> custody ?n f = Some (private_file d))))"
  proof (rule secured_pure)
    assume len: "length root = 32"
    show "secured (keeps good ?n) (guarded ?n c (\<lambda>_. True)) (save_exclusive K self root pw)
      (\<lambda>r. guarded ?n c (\<lambda>f. r = Inr () \<longrightarrow>
        (\<exists>d root. length root = 32 \<and> sealed K pw root d \<and> custody ?n f = Some (private_file d))))"
      by (rule secured_post [OF secured_save [where good = good, OF assms(1-3) len assms(4) [OF len]]])
        (use len in \<open>auto simp: guarded_def\<close>)
  qed
  then show "secured (keeps good ?n)
      (\<lambda>w. guarded ?n c (\<lambda>_. True) w \<and> (\<exists>r. Inr root = (Inr r :: signer_error + _) \<and> length r = 32))
      (save_exclusive K self root pw)
      (\<lambda>r. guarded ?n c (\<lambda>f. r = Inr () \<longrightarrow>
        (\<exists>d root. length root = 32 \<and> sealed K pw root d \<and> custody ?n f = Some (private_file d))))"
    by (rule secured_pre) auto
qed simp

subsection \<open>Properties\<close>

text \<open>
  C25: The identity file format is a faithful container: encryption of a 32-byte root under any
  passphrase below \<open>2 ^ 32\<close> bytes never fails and gives 97 bytes that start with the magic and the
  version; decryption under the passphrase returns the root, from these bytes and from the
  headerless 92 bytes of the legacy format.  Decryption never panics, on any input and passphrase,
  every refusal is a decryption failure, and inputs of any other length are refused.
\<close>

theorem identity_file_roundtrip:
  assumes "aead_crate K" and "length pw < 2 ^ 32" and "length root = 32"
    and "encrypt_root_secret K root pw w = Some (r, w')"
  shows "(\<exists>d. r = Inr d \<and> length d = 97 \<and> take 5 d = str_bytes ''STID'' @ [1]
       \<and> file_decrypt K d pw = Some (Inr root) \<and> file_decrypt K (drop 5 d) pw = Some (Inr root))
     \<and> (\<forall>d' pw'. (\<exists>root'. file_decrypt K d' pw' = Some (Inr root') \<and> length root' = 32 \<and> length d' \<in> {92, 97})
          \<or> (\<exists>m. file_decrypt K d' pw' = Some (Inl (DecryptionFailed m))))"
proof -
  have "length d' \<in> {92, 97}" if "file_decrypt K d' pw' = Some (Inr root')" for d' pw' root'
  proof -
    from that obtain p where "file_payload d' = Inr p"
      by (cases "file_payload d'") (auto simp: file_decrypt_def)
    then show ?thesis by (auto simp: file_payload_Inr_iff)
  qed
  moreover have "(\<exists>root'. file_decrypt K d' pw' = Some (Inr root')) \<or> (\<exists>e. file_decrypt K d' pw' = Some (Inl e))" for d' pw'
    using aead_crate.file_decrypt_total [OF assms(1), of d' pw'] by (metis option.exhaust sum.exhaust)
  ultimately show ?thesis
    using aead_crate.encrypt_root_secret_cases [OF assms] aead_crate.file_decrypt_Inl [OF assms(1)]
      aead_crate.file_decrypt_length [OF assms(1)]
    unfolding MAGIC_def FORMAT_VERSION_def by metis
qed

theorem identity_file_roundtrip_witness:
  "\<exists>d w'. encrypt_root_secret ref_crates (replicate 32 5) [1, 2] sample_world = Some (Inr d, w')
     \<and> length d = 97 \<and> file_decrypt ref_crates d [1, 2] = Some (Inr (replicate 32 5))"
proof -
  obtain r w' where "encrypt_root_secret ref_crates (replicate 32 5) [1, 2] sample_world = Some (r, w')"
    using calm_encrypt sample_world_calm(1) by blast
  with identity_file_roundtrip [OF ref_aead.aead_crate_axioms _ _ this] show ?thesis by auto
qed

text \<open>
  C5: Creating an identity never replaces custody and is crash-safe, under faults at any call and
  with other processes running: along every state the run passes through, once a file holds the
  identity's name it stays there unchanged, whoever put it; a file of this run under that name is
  complete in every state, has mode 0600 and opens under the passphrase to a 32-byte root; and a
  reported success means that such a file is there.
\<close>

theorem identity_creation_is_safe:
  assumes "aead_crate K" and "has_name (fsg_path self)" and "length pw < 2 ^ 32"
    and "guarded (resolve w (fsg_path self)) (cwd w) (\<lambda>_. True) w"
    and "file_generate K self pw w = Some (r, w')"
  shows "\<exists>states. trail w' = trail w @ states \<and> disk w' = last (disk w # states)
     \<and> (\<forall>before f after x. disk w # states = before @ f # after
          \<and> custody (resolve w (fsg_path self)) f = Some x \<longrightarrow>
          (\<forall>g \<in> set after. custody (resolve w (fsg_path self)) g = Some x))
     \<and> (\<forall>f \<in> set states. \<forall>x. custody (resolve w (fsg_path self)) f = Some x \<and> f_mine x \<longrightarrow>
          custody (resolve w (fsg_path self)) (disk w) = Some x
          \<or> (f_mode x = owner_only \<and> (\<exists>root. length root = 32 \<and> sealed K pw root (f_data x))))
     \<and> (r = Inr () \<longrightarrow> (\<exists>d root. length root = 32 \<and> sealed K pw root d
          \<and> custody (resolve w (fsg_path self)) (disk w') = Some (private_file d)))"
proof -
  define n where "n = name_of (cwd w) (fsg_path self)"
  define good where "good = (\<lambda>x :: fs_file. f_mode x = owner_only \<and> (\<exists>root. length root = 32 \<and> sealed K pw root (f_data x)))"
  have "secured (keeps good n) (guarded n (cwd w) (\<lambda>_. True)) (file_generate K self pw)
     (\<lambda>r. guarded n (cwd w) (\<lambda>f. r = Inr () \<longrightarrow>
        (\<exists>d root. length root = 32 \<and> sealed K pw root d \<and> custody n f = Some (private_file d))))"
    unfolding n_def by (rule secured_generate [OF assms(1-3)]) (auto simp: good_def)
  with assms(4,5) obtain states where st: "trail w' = trail w @ states" "runs (keeps good n) (disk w) states"
    "disk w' = last (disk w # states)"
    and ok: "guarded n (cwd w) (\<lambda>f. r = Inr () \<longrightarrow>
        (\<exists>d root. length root = 32 \<and> sealed K pw root d \<and> custody n f = Some (private_file d))) w'"
    unfolding secured_def n_def resolve_name_of by blast
  have "\<forall>before f after x. disk w # states = before @ f # after \<and> custody n f = Some x \<longrightarrow>
      (\<forall>g \<in> set after. custody n g = Some x)"
    using runs_keeps_forever [OF st(2)] by blast
  moreover have "\<forall>f \<in> set states. \<forall>x. custody n f = Some x \<and> f_mine x \<longrightarrow>
      custody n (disk w) = Some x \<or> good x"
    using runs_keeps_good [OF st(2)] by blast
  moreover from ok have "r = Inr () \<longrightarrow> (\<exists>d root. length root = 32 \<and> sealed K pw root d
      \<and> custody n (disk w') = Some (private_file d))"
    by (simp add: guarded_def)
  ultimately show ?thesis
    using st(1,3) unfolding resolve_name_of n_def [symmetric] good_def by blast
qed

definition sample_path :: path where
  "sample_path = \<lparr> absolute = True, comps = [''id'', ''identity.key''] \<rparr>"

definition sample_signer :: "path \<Rightarrow> world file_signer" where
  "sample_signer p = with_static_passphrase p [1, 2, 3]"

lemma sample_signer_path [simp]: "fsg_path (sample_signer p) = p"
  by (simp add: sample_signer_def with_static_passphrase_def FileSigner_new_def)

lemma sample_ready: "ready K sample_path sample_world"
proof -
  have "utf8_valid ''identity.key''" by code_simp
  then show ?thesis
    by (simp add: ready_def reachable_def sample_path_def has_name_def path_file_name_def Let_def)
qed

lemma sample_generate:
  "\<exists>w'. file_generate ref_crates (sample_signer sample_path) [1, 2, 3] sample_world = Some (Inr (), w')"
  using calm_generate [OF ref_aead.aead_crate_axioms, of "sample_signer sample_path" sample_world "[1, 2, 3]"]
    sample_ready [of ref_crates]
  by (auto simp: sample_path_def identity_parent_def path_parent_def path_empty_def)

theorem identity_creation_is_safe_witness:
  "\<exists>w' d root. file_generate ref_crates (sample_signer sample_path) [1, 2, 3] sample_world = Some (Inr (), w')
     \<and> sealed ref_crates [1, 2, 3] root d
     \<and> custody (resolve sample_world sample_path) (disk w') = Some (private_file d)"
proof -
  obtain w' where run: "file_generate ref_crates (sample_signer sample_path) [1, 2, 3] sample_world = Some (Inr (), w')"
    using sample_generate by blast
  have name: "has_name (fsg_path (sample_signer sample_path))"
    using sample_ready by (simp add: ready_def reachable_def)
  have rely: "guarded (resolve sample_world (fsg_path (sample_signer sample_path))) (cwd sample_world)
      (\<lambda>_. True) sample_world"
    by (rule calm_world) (simp_all add: sample_world_def wf_fs_def)
  have "length [1 :: byte, 2, 3] < 2 ^ 32" by simp
  from identity_creation_is_safe [OF ref_aead.aead_crate_axioms name this rely run]
  show ?thesis using run unfolding sample_signer_path by blast
qed

text \<open>
  C26: Creating an identity does what it says when nothing interferes: on a free name it succeeds,
  the name then holds a new 0600 file that loads to a 32-byte root; on an occupied name it answers
  \<^verbatim>\<open>AlreadyExists\<close>; either way no other entry changes but missing parent directories, which are
  created, no file that existed is altered, and no staging file is left.
\<close>

theorem identity_creation_outcome:
  assumes "aead_crate K" and "ready K (fsg_path self) w" and "length pw < 2 ^ 32"
    and "\<not> path_empty (identity_parent (fsg_path self))"
  shows "\<exists>w'. file_generate K self pw w =
        Some (if nodes (disk w) (resolve w (fsg_path self)) = None then Inr () else Inl (Io AlreadyExists), w')
     \<and> (nodes (disk w) (resolve w (fsg_path self)) = None \<longrightarrow>
          (\<exists>d root w''. custody (resolve w (fsg_path self)) (disk w') = Some (private_file d)
             \<and> file_load K self pw w' = Some (Inr root, w'') \<and> length root = 32))
     \<and> (\<forall>m. nodes (disk w') m \<noteq> nodes (disk w) m \<longrightarrow>
          nodes (disk w) m = None \<and> (m = resolve w (fsg_path self) \<or> nodes (disk w') m = Some Dir))
     \<and> take (length (inodes (disk w))) (inodes (disk w')) = inodes (disk w)"
proof -
  define p n where "p = fsg_path self" and "n = name_of (cwd w) (fsg_path self)"
  define f where "f = with_parent p w"
  obtain w' d root where root: "length root = 32" "sealed K pw root d"
    and run: "file_generate K self pw w = Some
        (if nodes (disk w) n \<noteq> None then Inl (Io AlreadyExists) else Inr (), w')"
    and after: "calm_after w (installed_at n d f) w'"
    using calm_generate [OF assms(1-3)] assms(4) unfolding p_def n_def f_def by auto
  have w': "calm w'" "disk w' = installed_at n d f" "cwd w' = cwd w"
    using after by (simp_all add: calm_after_def)
  have dirs: "nodes f m = nodes (disk w) m \<or> (nodes (disk w) m = None \<and> nodes f m = Some Dir)" for m
    by (auto simp: f_def with_parent_def nodes_add_dirs missing_prefixes_def)
  have name: "has_name p" using assms(2) by (simp add: ready_def reachable_def p_def)
  have same: "nodes f n = nodes (disk w) n"
  proof -
    from name obtain cs l where "comps p = cs @ [l]" "l \<noteq> ''.''"
      by (cases "comps p" rule: rev_cases) (auto simp: has_name_def path_file_name_def split: if_splits)
    then have "length (name_of (cwd w) (identity_parent p)) < length n"
      by (simp add: n_def p_def [symmetric] identity_parent_def path_parent_def name_of_def)
    then show ?thesis by (simp add: f_def nodes_with_parent)
  qed
  have load: "\<exists>w''. file_load K self pw w' = Some (Inr root, w'')" if free: "nodes (disk w) n = None"
  proof -
    have held: "nodes (disk w') n = Some (File (length (inodes f)))"
      "inodes (disk w') ! length (inodes f) = private_file d"
      using custody_installed [of f n d] same free w'(2) by simp_all
    have "\<not> path_empty p" using name by (auto simp: path_empty_def has_name_def path_file_name_def)
    with calm_read [OF w'(1), of p "length (inodes f)"] held w'(3)
    obtain w'' where "fs_read p w' = Some (Inr d, w'')" by (auto simp: n_def p_def)
    with root(2) show ?thesis
      by (simp add: file_load_def io_bind_def io_map_err_def p_def sealed_def)
  qed
  have "custody n (disk w') = Some (private_file d)" if "nodes (disk w) n = None"
    using custody_installed [of f n d] same that w'(2) by (simp add: custody_def)
  with load root(1) have first: "nodes (disk w) n = None \<longrightarrow>
      (\<exists>d root w''. custody n (disk w') = Some (private_file d)
         \<and> file_load K self pw w' = Some (Inr root, w'') \<and> length root = 32)"
    by blast
  have nodes': "nodes (disk w') m = (if m = n \<and> nodes f n = None then Some (File (length (inodes f))) else nodes f m)" for m
    by (simp add: w'(2) installed_at_def)
  have second: "\<forall>m. nodes (disk w') m \<noteq> nodes (disk w) m \<longrightarrow>
      nodes (disk w) m = None \<and> (m = n \<or> nodes (disk w') m = Some Dir)"
    using dirs same unfolding nodes' by metis
  have third: "take (length (inodes (disk w))) (inodes (disk w')) = inodes (disk w)"
    by (simp add: w'(2) installed_at_def f_def)
  have outcome: "file_generate K self pw w =
      Some (if nodes (disk w) n = None then Inr () else Inl (Io AlreadyExists), w')"
    using run by auto
  show ?thesis
    unfolding resolve_name_of n_def [symmetric]
    by (rule exI [of _ w'], intro conjI; fact first second third outcome)
qed

theorem identity_creation_outcome_witness:
  "\<exists>w' root w''. file_generate ref_crates (sample_signer sample_path) [1, 2, 3] sample_world = Some (Inr (), w')
     \<and> file_load ref_crates (sample_signer sample_path) [1, 2, 3] w' = Some (Inr root, w'') \<and> length root = 32"
proof -
  have "\<not> path_empty (identity_parent (fsg_path (sample_signer sample_path)))"
    by (simp add: sample_path_def identity_parent_def path_parent_def path_empty_def)
  with identity_creation_outcome [OF ref_aead.aead_crate_axioms, of "sample_signer sample_path" sample_world "[1, 2, 3]"]
    sample_ready [of ref_crates]
  show ?thesis by auto
qed

text \<open>
  C27: A bare relative file name is installed and then reported as an error: the parent of such a
  path is the empty path, which cannot be opened for the directory sync, so the run answers
  \<^verbatim>\<open>NotFound\<close> although the new identity is in place, complete and permanent.
\<close>

theorem bare_file_name_reports_failure:
  assumes "aead_crate K" and "ready K (fsg_path self) w" and "length pw < 2 ^ 32"
    and "fsg_path self = \<lparr> absolute = False, comps = [name] \<rparr>"
    and "nodes (disk w) (resolve w (fsg_path self)) = None"
  shows "\<exists>w' d root. file_generate K self pw w = Some (Inl (Io NotFound), w')
     \<and> custody (resolve w (fsg_path self)) (disk w') = Some (private_file d)
     \<and> sealed K pw root d \<and> length root = 32"
proof -
  define n where "n = name_of (cwd w) (fsg_path self)"
  have parent: "path_empty (identity_parent (fsg_path self))"
    by (simp add: assms(4) identity_parent_def path_parent_def path_empty_def)
  obtain w' d root where "length root = 32" "sealed K pw root d"
    "file_generate K self pw w = Some (Inl (Io NotFound), w')"
    "calm_after w (installed_at n d (disk w)) w'"
    using calm_generate [OF assms(1-3)] parent assms(5)
    unfolding n_def resolve_name_of by (auto simp: with_parent_def)
  moreover from this(4) assms(5) custody_installed [of "disk w" n d]
  have "custody n (disk w') = Some (private_file d)"
    by (simp add: calm_after_def custody_def n_def resolve_name_of)
  ultimately show ?thesis unfolding resolve_name_of n_def [symmetric] by blast
qed

theorem bare_file_name_reports_failure_witness:
  "\<exists>w' d. file_generate ref_crates (sample_signer \<lparr> absolute = False, comps = [''identity.key''] \<rparr>) [1, 2, 3]
       sample_world = Some (Inl (Io NotFound), w')
     \<and> custody [''identity.key''] (disk w') = Some (private_file d)"
proof -
  have "utf8_valid ''identity.key''" by code_simp
  then have "ready ref_crates \<lparr> absolute = False, comps = [''identity.key''] \<rparr> sample_world"
    by (simp add: ready_def reachable_def has_name_def path_file_name_def Let_def)
  with bare_file_name_reports_failure [OF ref_aead.aead_crate_axioms,
      of "sample_signer \<lparr> absolute = False, comps = [''identity.key''] \<rparr>" sample_world "[1, 2, 3]" "''identity.key''"]
  show ?thesis by (auto simp: resolve_def)
qed

end
