(* ===== verification/Vault.thy ===== *)
theory Vault
  imports FileSigner
begin

text \<open>
  The identity vault, \<^verbatim>\<open>src/vault.rs\<close>: initialisation, backup, authenticated export and restore
  of the encrypted identity file without ever replacing custody.
\<close>

definition BACKUP_CONTRACT_VERSION :: byte where
  "BACKUP_CONTRACT_VERSION = 1"

datatype backup_format = LegacyV0 | StidV1

record backup_metadata =
  contract_version :: byte
  bm_format :: backup_format
  encrypted_size :: "64 word"

record encrypted_backup =
  eb_metadata :: backup_metadata
  encrypted_bytes :: "byte list"

datatype restore_outcome = Restored | AlreadyPresent

datatype vault_error =
    Vault_AlreadyExists string
  | NotInitialized string
  | BackupExists string
  | InvalidBackup
  | ProtectionRequired
  | BackupAuthenticationFailed
  | CustodyUnavailable
  | IdentityConflict
  | VaultSigner signer_error
  | VaultIo io_kind

record 'w identity_vault =
  v_signer :: "'w file_signer"
  v_path :: path

definition IdentityVault_new :: "path \<Rightarrow> 'w passphrase_provider \<Rightarrow> 'w identity_vault" where
  "IdentityVault_new path provider = \<lparr>v_signer = FileSigner_new path provider, v_path = path\<rparr>"

definition with_default_path ::
  "'z world_scheme \<Rightarrow> ('z world_scheme) passphrase_provider \<Rightarrow> ('z world_scheme) identity_vault" where
  "with_default_path w provider = IdentityVault_new (default_path w) provider"

definition vault_exists :: "'z world_scheme identity_vault \<Rightarrow> ('z world_scheme, bool) act" where
  "vault_exists self = path_exists (v_path self)"

subsection \<open>Backup artifacts\<close>

definition encrypted_backup_format :: "byte list \<Rightarrow> vault_error + backup_format" where
  "encrypted_backup_format d =
     (if length d = FILE_LEN \<and> take 5 d = str_bytes ''STID'' @ [1] then Inr StidV1
      else if length d = LEGACY_FILE_LEN then Inr LegacyV0
      else Inl InvalidBackup)"

definition from_encrypted_bytes :: "byte list \<Rightarrow> vault_error + encrypted_backup" where
  "from_encrypted_bytes bytes =
     bind_res (encrypted_backup_format bytes) (\<lambda>fmt.
     bind_res (ok_or InvalidBackup
       (if length bytes < 2 ^ 64 then Some (of_nat (length bytes)) else None)) (\<lambda>size.
     Inr \<lparr>eb_metadata = \<lparr>contract_version = BACKUP_CONTRACT_VERSION, bm_format = fmt,
            encrypted_size = size\<rparr>,
          encrypted_bytes = bytes\<rparr>))"

definition protect_root_secret ::
  "crates \<Rightarrow> byte list \<Rightarrow> byte list \<Rightarrow> ('z world_scheme, vault_error, encrypted_backup) io" where
  "protect_root_secret K root passphrase =
     (if passphrase = [] then io_err ProtectionRequired
      else
        io_bind (io_map_err VaultSigner (encrypt_root_secret K root passphrase)) (\<lambda>bytes.
        io_res (from_encrypted_bytes bytes)))"

definition decrypt_root_secret ::
  "crates \<Rightarrow> encrypted_backup \<Rightarrow> byte list \<Rightarrow> (vault_error + byte list) option" where
  "decrypt_root_secret K self passphrase =
     (if passphrase = [] then Some (Inl ProtectionRequired)
      else map_option (map_err (\<lambda>_. BackupAuthenticationFailed))
             (file_decrypt K (encrypted_bytes self) passphrase))"

definition map_backup_authentication_error :: "signer_error \<Rightarrow> vault_error" where
  "map_backup_authentication_error e =
     (case e of
        Unavailable _ \<Rightarrow> CustodyUnavailable
      | AuthRequired _ \<Rightarrow> CustodyUnavailable
      | KeyNotFound _ \<Rightarrow> CustodyUnavailable
      | _ \<Rightarrow> BackupAuthenticationFailed)"

subsection \<open>Lifecycle\<close>

definition vault_init ::
  "crates \<Rightarrow> 'z world_scheme identity_vault \<Rightarrow> byte list \<Rightarrow> ('z world_scheme, vault_error, unit) io" where
  "vault_init K self passphrase =
     io_try (file_generate K (v_signer self) passphrase) (\<lambda>r.
       case r of
         Inr _ \<Rightarrow> io_ok ()
       | Inl (Io AlreadyExists) \<Rightarrow> io_err (Vault_AlreadyExists (path_display (v_path self)))
       | Inl e \<Rightarrow> io_err (VaultSigner e))"

definition vault_backup ::
  "'z world_scheme identity_vault \<Rightarrow> path \<Rightarrow> ('z world_scheme, vault_error, unit) io" where
  "vault_backup self dest =
     io_bind (io_probe (path_exists (v_path self))) (\<lambda>exists.
     if \<not> exists then io_err (NotInitialized (path_display (v_path self)))
     else
     io_bind (io_probe (path_exists dest)) (\<lambda>taken.
     if taken then io_err (BackupExists (path_display dest))
     else
     io_bind (io_map_err VaultIo (fs_read (v_path self))) (\<lambda>d.
     io_bind (io_res (encrypted_backup_format d)) (\<lambda>_.
     io_bind (case path_parent dest of
                Some parent \<Rightarrow> io_map_err VaultIo (create_dir_all parent)
              | None \<Rightarrow> io_ok ()) (\<lambda>_.
     io_bind (io_map_err VaultIo (open_create_new dest owner_only)) (\<lambda>f.
     io_bind (io_map_err VaultIo (write_all f d)) (\<lambda>_.
     io_map_err VaultIo sync_all)))))))"

definition export_encrypted_backup ::
  "crates \<Rightarrow> 'z world_scheme identity_vault \<Rightarrow> ('z world_scheme, vault_error, encrypted_backup) io" where
  "export_encrypted_backup K self =
     io_bind (io_probe (path_exists (v_path self))) (\<lambda>exists.
     if \<not> exists then io_err (NotInitialized (path_display (v_path self)))
     else
     io_bind (io_map_err VaultIo (fs_read (v_path self))) (\<lambda>bytes.
     io_bind (io_res (from_encrypted_bytes bytes)) (\<lambda>backup.
     io_bind (io_map_err map_backup_authentication_error
       (load_encrypted_bytes K (v_signer self) (encrypted_bytes backup))) (\<lambda>_.
     io_ok backup))))"

definition encrypted_backup_metadata ::
  "'z world_scheme identity_vault \<Rightarrow> ('z world_scheme, vault_error, backup_metadata) io" where
  "encrypted_backup_metadata self =
     io_bind (io_probe (path_exists (v_path self))) (\<lambda>exists.
     if \<not> exists then io_err (NotInitialized (path_display (v_path self)))
     else
     io_bind (io_map_err VaultIo (fs_read (v_path self))) (\<lambda>bytes.
     io_bind (io_res (from_encrypted_bytes bytes)) (\<lambda>backup.
     io_ok (eb_metadata backup))))"

definition write_exclusive :: "path \<Rightarrow> byte list \<Rightarrow> ('z world_scheme, io_kind, unit) io" where
  "write_exclusive p d =
     io_bind (case path_parent p of Some parent \<Rightarrow> create_dir_all parent | None \<Rightarrow> io_ok ()) (\<lambda>_.
     io_bind (open_create_new p owner_only) (\<lambda>f.
     io_bind (write_all f d) (\<lambda>_. sync_all)))"

definition restore_encrypted_backup ::
  "crates \<Rightarrow> 'z world_scheme identity_vault \<Rightarrow> encrypted_backup
     \<Rightarrow> ('z world_scheme, vault_error, restore_outcome) io" where
  "restore_encrypted_backup K self backup =
     io_bind (io_map_err map_backup_authentication_error
       (load_encrypted_bytes K (v_signer self) (encrypted_bytes backup))) (\<lambda>backup_secret.
     io_bind (io_probe (path_exists (v_path self))) (\<lambda>exists.
     if exists then
       io_bind (io_map_err VaultIo (fs_read (v_path self))) (\<lambda>existing_bytes.
       io_bind (io_map_err (\<lambda>_. CustodyUnavailable)
         (load_encrypted_bytes K (v_signer self) existing_bytes)) (\<lambda>existing_secret.
       if ct_eq K existing_secret backup_secret then io_ok AlreadyPresent
       else io_err IdentityConflict))
     else
       io_bind (io_map_err (\<lambda>e. if e = AlreadyExists then IdentityConflict else VaultIo e)
         (write_exclusive (v_path self) (encrypted_bytes backup))) (\<lambda>_.
       io_ok Restored)))"

definition vault_unlock ::
  "crates \<Rightarrow> 'z world_scheme identity_vault \<Rightarrow> ('z world_scheme, vault_error, byte list) io" where
  "vault_unlock K self =
     io_bind (io_probe (path_exists (v_path self))) (\<lambda>exists.
     if \<not> exists then io_err (NotInitialized (path_display (v_path self)))
     else io_map_err VaultSigner (file_root_secret K (v_signer self)))"

definition validate_agent_names :: "string list \<Rightarrow> string list" where
  "validate_agent_names names = filter (\<lambda>n. \<not> is_ok (derive_validate_label n)) names"

subsection \<open>Writing exclusively\<close>

lemma calm_write_exclusive:
  assumes "reachable p w" and "nodes (disk w) (name_of (cwd w) p) = None"
  shows "\<exists>w'. write_exclusive p d w = Some (Inr (), w')
    \<and> calm_after w (installed_at (name_of (cwd w) p) d (with_parent p w)) w'"
proof -
  let ?f = "with_parent p w" and ?n = "name_of (cwd w) p"
  obtain m where n: "?n = name_of (cwd w) (identity_parent p) @ [m]" and ne: "\<not> path_empty p"
    and parent: "path_parent p = Some (identity_parent p)"
    using reachable_name [OF assms(1)] by blast
  have "calm_after w (disk w) w" using assms(1) by (simp add: calm_after_def reachable_def)
  from calm_mkdir [OF assms(1) this] obtain w1 where
    w1: "create_dir_all (identity_parent p) w = Some (Inr (), w1)" "calm_after w ?f w1" by blast
  then have c1: "calm w1" "disk w1 = ?f" "cwd w1 = cwd w" by (simp_all add: calm_after_def)
  have free: "nodes ?f ?n = None" using assms(2) n by (simp add: nodes_with_parent)
  define g where "g = ?f \<lparr> nodes := (nodes ?f)(?n \<mapsto> File (length (inodes ?f))),
      inodes := inodes ?f @ [private_file []] \<rparr>"
  have "create_new_call (name_of (cwd w1) p) owner_only None (disk w1) = (Inr (length (inodes ?f)), [g])"
    using free dir_at_with_parent [OF assms(1)] n c1
    by (simp add: create_new_call_def parent_error_def g_def private_file_def)
  from calm_on_path [where op = "\<lambda>n. create_new_call n owner_only", OF c1(1) ne this]
  obtain w2 where w2: "open_create_new p owner_only w1 = Some (Inr (length (inodes ?f)), w2)"
    "calm_after w1 g w2" by (auto simp: open_create_new_def)
  then have c2: "calm w2" "disk w2 = g" "cwd w2 = cwd w" using c1 by (simp_all add: calm_after_def)
  let ?h = "length (inodes ?f)"
  define sts where "sts = snd (write_call ?h d None (disk w2))"
  have lst: "last (disk w2 # sts) = installed_at ?n d ?f"
    using free
    by (simp add: sts_def write_call_def Let_def set_data_def c2(2) g_def installed_at_def nth_append)
  have "write_call ?h d None (disk w2) = (Inr (), sts)"
    by (simp add: write_call_def Let_def sts_def)
  from calm_syscall [where op = "write_call ?h d", OF c2(1) this]
  obtain w3 where w3: "write_all ?h d w2 = Some (Inr (), w3)"
    "calm_after w2 (installed_at ?n d ?f) w3"
    unfolding lst by (auto simp: write_all_def)
  then have c3: "calm w3" "disk w3 = installed_at ?n d ?f" "cwd w3 = cwd w"
    using c2 by (simp_all add: calm_after_def)
  obtain w4 where w4: "sync_all w3 = Some (Inr (), w4)" "calm_after w3 (installed_at ?n d ?f) w4"
    using calm_syscall [where op = sync_call, OF c3(1), of "Inr ()" "[]"] c3
    by (auto simp: sync_all_def sync_call_def)
  have "write_exclusive p d w = Some (Inr (), w4)"
    using w1(1) w2(1) w3(1) w4(1) by (simp add: write_exclusive_def parent io_bind_def)
  moreover have "calm_after w (installed_at ?n d ?f) w4" using w4(2) c3 by (simp add: calm_after_def)
  ultimately show ?thesis by blast
qed

lemma write_exclusive_map_err:
  "io_map_err g (write_exclusive dest d) =
     io_bind (case path_parent dest of
                Some parent \<Rightarrow> io_map_err g (create_dir_all parent)
              | None \<Rightarrow> io_ok ()) (\<lambda>_.
     io_bind (io_map_err g (open_create_new dest owner_only)) (\<lambda>f.
     io_bind (io_map_err g (write_all f d)) (\<lambda>_.
     io_map_err g sync_all)))"
  by (simp add: write_exclusive_def io_map_err_bind split: option.split)

lemma backup_writes_exclusively:
  "vault_backup self dest =
     io_bind (io_probe (path_exists (v_path self))) (\<lambda>exists.
     if \<not> exists then io_err (NotInitialized (path_display (v_path self)))
     else
     io_bind (io_probe (path_exists dest)) (\<lambda>taken.
     if taken then io_err (BackupExists (path_display dest))
     else
     io_bind (io_map_err VaultIo (fs_read (v_path self))) (\<lambda>d.
     io_bind (io_res (encrypted_backup_format d)) (\<lambda>_. io_map_err VaultIo (write_exclusive dest d)))))"
  unfolding vault_backup_def write_exclusive_map_err by (rule refl)

text \<open>The vault's own guarantee while it writes: a foreign file at the name is never touched.\<close>

lemma runs_mono: "runs G f gs \<Longrightarrow> (\<And>a b. G a b \<Longrightarrow> H a b) \<Longrightarrow> runs H f gs"
  by (induction gs arbitrary: f) auto

lemma keeps_imp_foreign: "keeps good n f f' \<Longrightarrow> keeps_foreign n f f'"
  by (simp add: keeps_def keeps_foreign_def)

lemma call_ok_create_here:
  "call_ok (keeps_foreign n) (\<lambda>_. True) (create_new_call n md)
     (\<lambda>r f. case r of Inl _ \<Rightarrow> True
                    | Inr h \<Rightarrow> named h {n} \<lparr> f_data = [], f_mode = md, f_mine = True \<rparr> f)"
  unfolding call_ok_def
proof (intro allI impI)
  fix ft f r states
  assume wf: "wf_fs f" and op: "create_new_call n md ft f = (r, states)"
  show "runs (keeps_foreign n) f states \<and> (case r of Inl _ \<Rightarrow> True
      | Inr h \<Rightarrow> named h {n} \<lparr> f_data = [], f_mode = md, f_mine = True \<rparr> (last (f # states)))"
  proof (cases r)
    case (Inr h)
    define f' where "f' = f \<lparr> nodes := (nodes f)(n \<mapsto> File (length (inodes f))),
      inodes := inodes f @ [\<lparr> f_data = [], f_mode = md, f_mine = True \<rparr>] \<rparr>"
    from op Inr have st: "h = length (inodes f)" "states = [f']" and free: "nodes f n = None"
      by (auto simp: create_new_call_def f'_def split: option.splits if_splits)
    have old: "nodes f q \<noteq> Some (File (length (inodes f)))" for q
      using wf by (auto simp: wf_fs_def)
    have "wf_fs f'" using wf by (auto simp: wf_fs_def f'_def less_Suc_eq)
    moreover have "custody n f = None" using free by (simp add: custody_def)
    ultimately have "keeps_foreign n f f'" by (simp add: keeps_foreign_def)
    moreover have "named h {n} \<lparr> f_data = [], f_mode = md, f_mine = True \<rparr> f'"
      using old by (auto simp: named_def f'_def st(1))
    ultimately show ?thesis using Inr st by simp
  next
    case (Inl e)
    with op show ?thesis by (auto simp: create_new_call_def split: option.splits if_splits)
  qed
qed

lemma set_data_foreign:
  assumes "wf_fs f" and "named h S x f"
  shows "keeps_foreign n f (set_data f h d)"
proof -
  have "wf_fs (set_data f h d)" using assms(1) by (simp add: wf_fs_def set_data_def)
  moreover have "custody n (set_data f h d) = Some y" if "custody n f = Some y" "\<not> f_mine y" for y
    using that assms by (auto simp: custody_Some_iff set_data_def nth_list_update named_def)
  ultimately show ?thesis by (simp add: keeps_foreign_def)
qed

lemma secured_foreign_mono:
  assumes "secured (keeps good n) P m Q"
  shows "secured (keeps_foreign n) P m Q"
  unfolding secured_def
proof (intro allI impI, elim conjE)
  fix w r w'
  assume "P w" and "m w = Some (r, w')"
  with assms obtain new where Q: "Q r w'" "trail w' = trail w @ new" "disk w' = last (disk w # new)"
    and runs: "runs (keeps good n) (disk w) new"
    unfolding secured_def by blast
  from runs have "runs (keeps_foreign n) (disk w) new"
    by (rule runs_mono) (rule keeps_imp_foreign)
  with Q show "Q r w' \<and> (\<exists>new. trail w' = trail w @ new \<and> runs (keeps_foreign n) (disk w) new
      \<and> disk w' = last (disk w # new))"
    by blast
qed

lemma secured_make_parent:
  "secured (keeps_foreign n) (guarded n c (\<lambda>_. True))
     (case path_parent p of Some parent \<Rightarrow> create_dir_all parent | None \<Rightarrow> io_ok ())
     (\<lambda>_. guarded n c (\<lambda>_. True))"
proof (cases "path_parent p")
  case None
  then show ?thesis by (simp add: secured_ok)
next
  case (Some parent)
  show ?thesis
    unfolding Some option.case create_dir_all_def
  proof (cases "path_empty parent", simp_all only: if_True if_False)
    show "secured (keeps_foreign n) (guarded n c (\<lambda>_. True)) (io_ok ()) (\<lambda>_. guarded n c (\<lambda>_. True))"
      by (rule secured_ok)
    show "secured (keeps_foreign n) (guarded n c (\<lambda>_. True)) (io_act (on_path parent mkdirs_call))
        (\<lambda>_. guarded n c (\<lambda>_. True))"
      by (rule secured_foreign_mono [where good = "\<lambda>_. True"],
          rule kept.secured_on_path [OF stable_True call_ok_mkdirs]) simp
  qed
qed

lemma secured_create_here:
  "secured (keeps_foreign (name_of c p)) (guarded (name_of c p) c (\<lambda>_. True)) (open_create_new p owner_only)
      (\<lambda>r. guarded (name_of c p) c
        (\<lambda>f. case r of Inl _ \<Rightarrow> True | Inr h \<Rightarrow> named h {name_of c p} (private_file []) f))"
  unfolding open_create_new_def private_file_def
  by (rule foreign.secured_on_path [where op = "\<lambda>n. create_new_call n owner_only",
      OF stable_True call_ok_create_here]) simp

lemma secured_write_here:
  "secured (keeps_foreign n) (guarded n c (named h {n} (private_file []))) (write_all h d)
      (\<lambda>r. guarded n c (\<lambda>f. r = Inr () \<longrightarrow> named h {n} (private_file d) f))"
  unfolding write_all_def
  by (rule secured_post [OF foreign.secured_syscall [OF stable_named call_ok_write_gen]])
    (auto simp: guarded_def set_data_foreign split: sum.splits)

lemma secured_sync_here:
  "secured (keeps_foreign n) (guarded n c (named h {n} x)) sync_all
      (\<lambda>r. guarded n c (\<lambda>f. r = Inr () \<longrightarrow> custody n f = Some x))"
proof -
  have "call_ok (keeps_foreign n) (named h {n} x) sync_call (\<lambda>_. named h {n} x)"
    by (rule call_ok_idle) (simp add: idle_calls)
  from foreign.secured_syscall [OF stable_named this] show ?thesis
    unfolding sync_all_def
    by (rule secured_post) (auto simp: guarded_def named_def custody_Some_iff)
qed

lemma secured_write_exclusive:
  "secured (keeps_foreign (name_of c p)) (guarded (name_of c p) c (\<lambda>_. True)) (write_exclusive p d)
     (\<lambda>r. guarded (name_of c p) c (\<lambda>f. r = Inr () \<longrightarrow> custody (name_of c p) f = Some (private_file d)))"
  unfolding write_exclusive_def
  apply (rule secured_bind [OF secured_make_parent])
   apply (rule secured_bind [OF secured_create_here])
    apply (rule secured_bind [OF secured_pre [OF secured_write_here]])
      apply simp
     apply (rule secured_pre [OF secured_sync_here])
     apply simp
    apply (simp_all add: guarded_def)
  done

subsection \<open>Outcomes in a calm world\<close>

lemma vault_fields [simp]:
  "v_path (IdentityVault_new p provider) = p"
  "fsg_path (v_signer (IdentityVault_new p provider)) = p"
  "fsg_passphrase_provider (v_signer (IdentityVault_new p provider)) = provider"
  by (simp_all add: IdentityVault_new_def FileSigner_new_def)

lemma reachable_calm:
  assumes "reachable p w"
  shows "calm w" and "\<not> path_empty p" and "(name_of (cwd w) p = []) = False"
proof -
  show "calm w" using assms unfolding reachable_def by blast
  obtain m where "name_of (cwd w) p = name_of (cwd w) (identity_parent p) @ [m]" "\<not> path_empty p"
    using reachable_name [OF assms] by blast
  then show "\<not> path_empty p" "(name_of (cwd w) p = []) = False" by simp_all
qed

lemma calm_probe:
  assumes "reachable p w"
  shows "\<exists>w'. io_probe (path_exists p) w
      = Some (Inr (nodes (disk w) (name_of (cwd w) p) \<noteq> None) :: 'e + bool, w')
    \<and> calm_after w (disk w) w'"
proof -
  note c = reachable_calm [OF assms]
  from calm_exists [OF c(1,2)] obtain w' where
    "path_exists p w = (nodes (disk w) (name_of (cwd w) p) \<noteq> None, w')" "calm_after w (disk w) w'"
    unfolding simp_thms c(3) by blast
  then show ?thesis by (intro exI [of _ w']) simp
qed

lemma calm_load_bytes:
  "load_encrypted_bytes K (v_signer (IdentityVault_new p (StaticPassphraseProvider pw))) d
     = io_pure (file_decrypt K d pw)"
  by (rule ext) (simp add: load_encrypted_bytes_def StaticPassphraseProvider_def io_bind_def)

text \<open>What reading a name answers.\<close>

definition read_result :: "node option \<Rightarrow> fs \<Rightarrow> io_kind + byte list" where
  "read_result x f =
     (case x of Some (File i) \<Rightarrow> Inr (f_data (inodes f ! i)) | Some Dir \<Rightarrow> Inl IsADirectory
      | None \<Rightarrow> Inl NotFound)"

lemma calm_read_any:
  assumes "reachable p w"
  shows "\<exists>w'. fs_read p w = Some (read_result (nodes (disk w) (name_of (cwd w) p)) (disk w), w')
    \<and> calm_after w (disk w) w'"
proof -
  note c = reachable_calm [OF assms]
  have "read_call (name_of (cwd w) p) None (disk w)
      = (read_result (nodes (disk w) (name_of (cwd w) p)) (disk w), [])"
    using c(3) by (simp add: read_call_def read_result_def split: option.split node.split)
  from calm_on_path [where op = read_call, OF c(1,2) this] show ?thesis
    by (auto simp: fs_read_def)
qed

lemma calm_after_trans: "calm_after w f w1 \<Longrightarrow> calm_after w1 g w2 \<Longrightarrow> calm_after w g w2"
  by (simp add: calm_after_def)

text \<open>The root a file opens to under a passphrase.\<close>

definition opens :: "crates \<Rightarrow> byte list \<Rightarrow> byte list \<Rightarrow> byte list option" where
  "opens K pw d = (case file_decrypt K d pw of Some (Inr root) \<Rightarrow> Some root | _ \<Rightarrow> None)"

text \<open>The decision a restore has to take, from what the backup and the name hold.\<close>

definition restore_decision :: "crates \<Rightarrow> byte list \<Rightarrow> byte list \<Rightarrow> node option \<Rightarrow> fs
    \<Rightarrow> vault_error + restore_outcome" where
  "restore_decision K pw bytes held f =
     (case opens K pw bytes of
        None \<Rightarrow> Inl BackupAuthenticationFailed
      | Some root \<Rightarrow>
          (case held of
             None \<Rightarrow> Inr Restored
           | Some Dir \<Rightarrow> Inl (VaultIo IsADirectory)
           | Some (File i) \<Rightarrow>
               (case opens K pw (f_data (inodes f ! i)) of
                  None \<Rightarrow> Inl CustodyUnavailable
                | Some root' \<Rightarrow> if root' = root then Inr AlreadyPresent else Inl IdentityConflict)))"

lemma opens_cases:
  assumes "aead_crate K"
  obtains m where "file_decrypt K d pw = Some (Inl (DecryptionFailed m))" "opens K pw d = None"
    | root where "file_decrypt K d pw = Some (Inr root)" "opens K pw d = Some root"
  using aead_crate.file_decrypt_total [OF assms, of d pw] aead_crate.file_decrypt_Inl [OF assms, of d pw]
  by (cases "file_decrypt K d pw"; cases "the (file_decrypt K d pw)") (auto simp: opens_def)

lemma calm_restore:
  fixes w :: "'z world_scheme" and pw :: "byte list" and backup :: encrypted_backup
  assumes "aead_crate K" and "ct_crate K" and "reachable p w"
  defines "self \<equiv> IdentityVault_new p (StaticPassphraseProvider pw)"
    and "n \<equiv> name_of (cwd w) p"
  defines "r \<equiv> restore_decision K pw (encrypted_bytes backup) (nodes (disk w) n) (disk w)"
  shows "\<exists>w'. restore_encrypted_backup K self backup w = Some (r, w')
    \<and> calm_after w (if r = Inr Restored then installed_at n (encrypted_bytes backup) (with_parent p w) else disk w) w'"
proof -
  have same: "calm_after w (disk w) w" using assms(3) by (simp add: calm_after_def reachable_def)
  show ?thesis
  proof (rule opens_cases [OF assms(1), of "encrypted_bytes backup" pw])
    fix m
    assume "file_decrypt K (encrypted_bytes backup) pw = Some (Inl (DecryptionFailed m))"
      "opens K pw (encrypted_bytes backup) = None"
    with same show ?thesis
      by (intro exI [of _ w]) (simp add: restore_encrypted_backup_def self_def calm_load_bytes
          io_bind_def io_map_err_def r_def restore_decision_def map_backup_authentication_error_def)
  next
    fix root
    assume d: "file_decrypt K (encrypted_bytes backup) pw = Some (Inr root)"
      "opens K pw (encrypted_bytes backup) = Some root"
    obtain w1 where w1: "path_exists p w = (nodes (disk w) n \<noteq> None, w1)" "calm_after w (disk w) w1"
      using calm_exists [OF reachable_calm(1,2) [OF assms(3)]]
      unfolding reachable_calm(3) [OF assms(3)] simp_thms n_def by blast
    then have c1: "disk w1 = disk w" "cwd w1 = cwd w" and reach: "reachable p w1"
      using reachable_same [OF assms(3) w1(2)] by (simp_all add: calm_after_def)
    show ?thesis
    proof (cases "nodes (disk w) n")
      case None
      then have r: "r = Inr Restored" by (simp add: r_def restore_decision_def d)
      from None c1 have "nodes (disk w1) (name_of (cwd w1) p) = None" by (simp add: n_def)
      from calm_write_exclusive [OF reach this] obtain w2 where
        w2: "write_exclusive p (encrypted_bytes backup) w1 = Some (Inr (), w2)"
        "calm_after w1 (installed_at n (encrypted_bytes backup) (with_parent p w1)) w2"
        unfolding c1 n_def by blast
      have "with_parent p w1 = with_parent p w" by (simp add: with_parent_def c1)
      with w2 calm_after_trans [OF w1(2) w2(2)] None w1(1) d(1) show ?thesis
        by (intro exI [of _ w2]) (simp add: restore_encrypted_backup_def self_def calm_load_bytes r
            io_bind_def io_map_err_def)
    next
      case (Some x)
      obtain w2 where w2: "fs_read p w1 = Some (read_result (Some x) (disk w), w2)"
        "calm_after w1 (disk w) w2"
        using calm_read_any [OF reach] Some unfolding c1 n_def by metis
      have after: "calm_after w (disk w) w2" by (rule calm_after_trans [OF w1(2) w2(2)])
      show ?thesis
      proof (cases x)
        case Dir
        with w2 after Some w1(1) d show ?thesis
          by (intro exI [of _ w2]) (simp add: restore_encrypted_backup_def self_def calm_load_bytes r_def
              io_bind_def io_map_err_def read_result_def restore_decision_def)
      next
        case (File i)
        note run = w2 after Some w1(1) d File
        show ?thesis
          by (rule opens_cases [OF assms(1), of "f_data (inodes (disk w) ! i)" pw];
              use run ct_crate.ct_eq_iff [OF assms(2)] in \<open>intro exI [of _ w2],
              simp add: restore_encrypted_backup_def self_def calm_load_bytes r_def
                io_bind_def io_map_err_def read_result_def restore_decision_def\<close>)
      qed
    qed
  qed
qed

text \<open>What a plain backup has to answer.\<close>

definition backup_decision :: "path \<Rightarrow> path \<Rightarrow> node option \<Rightarrow> node option \<Rightarrow> fs \<Rightarrow> vault_error + byte list" where
  "backup_decision p dest held taken f =
     (if held = None then Inl (NotInitialized (path_display p))
      else if taken \<noteq> None then Inl (BackupExists (path_display dest))
      else bind_res (map_err VaultIo (read_result held f)) (\<lambda>d.
        if encrypted_backup_format d = Inl InvalidBackup then Inl InvalidBackup else Inr d))"

lemma backup_decision_Inr:
  "backup_decision p dest held taken f = Inr d \<Longrightarrow> taken = None \<and> read_result held f = Inr d"
  by (cases "read_result held f") (auto simp: backup_decision_def split: if_splits)

lemma encrypted_backup_format_Inl: "encrypted_backup_format d = Inl e \<Longrightarrow> e = InvalidBackup"
  by (auto simp: encrypted_backup_format_def split: if_splits)

lemma calm_backup:
  fixes w :: "'z world_scheme"
  assumes "reachable p w" and "reachable dest w"
  defines "r \<equiv> backup_decision p dest (nodes (disk w) (name_of (cwd w) p)) (nodes (disk w) (name_of (cwd w) dest)) (disk w)"
  shows "\<exists>w'. vault_backup (IdentityVault_new p provider) dest w = Some (map_sum id (\<lambda>_. ()) r, w')
    \<and> calm_after w (case r of Inl _ \<Rightarrow> disk w
        | Inr d \<Rightarrow> installed_at (name_of (cwd w) dest) d (with_parent dest w)) w'"
proof -
  let ?n = "name_of (cwd w) p" and ?m = "name_of (cwd w) dest"
  obtain w1 where w1: "path_exists p w = (nodes (disk w) ?n \<noteq> None, w1)" "calm_after w (disk w) w1"
    using calm_exists [OF reachable_calm(1,2) [OF assms(1)]]
    unfolding reachable_calm(3) [OF assms(1)] simp_thms by blast
  then have c1: "disk w1 = disk w" "cwd w1 = cwd w" "calm w1" by (simp_all add: calm_after_def)
  obtain w2 where w2: "path_exists dest w1 = (nodes (disk w) ?m \<noteq> None, w2)" "calm_after w1 (disk w) w2"
    using calm_exists [OF c1(3) reachable_calm(2) [OF assms(2)]]
    unfolding c1 reachable_calm(3) [OF assms(2)] simp_thms by blast
  have a2: "calm_after w (disk w) w2" by (rule calm_after_trans [OF w1(2) w2(2)])
  then have c2: "disk w2 = disk w" "cwd w2 = cwd w" by (simp_all add: calm_after_def)
  have reach2: "reachable p w2" "reachable dest w2" using assms(1,2) reachable_same [OF _ a2] by blast+
  obtain w3 where w3: "fs_read p w2 = Some (read_result (nodes (disk w) ?n) (disk w), w3)"
    "calm_after w2 (disk w) w3"
    using calm_read_any [OF reach2(1)] unfolding c2 by blast
  have a3: "calm_after w (disk w) w3" by (rule calm_after_trans [OF a2 w3(2)])
  then have c3: "disk w3 = disk w" "cwd w3 = cwd w" by (simp_all add: calm_after_def)
  have reach3: "reachable dest w3" using assms(2) reachable_same [OF _ a3] by blast
  note def = backup_writes_exclusively vault_fields io_bind_def io_map_err_def r_def backup_decision_def
  consider "nodes (disk w) ?n = None" | "nodes (disk w) ?n \<noteq> None" "nodes (disk w) ?m \<noteq> None"
    | k where "nodes (disk w) ?n \<noteq> None" "nodes (disk w) ?m = None" "read_result (nodes (disk w) ?n) (disk w) = Inl k"
    | d e where "nodes (disk w) ?n \<noteq> None" "nodes (disk w) ?m = None"
        "read_result (nodes (disk w) ?n) (disk w) = Inr d" "encrypted_backup_format d = Inl e"
    | d fmt where "nodes (disk w) ?n \<noteq> None" "nodes (disk w) ?m = None"
        "read_result (nodes (disk w) ?n) (disk w) = Inr d" "encrypted_backup_format d = Inr fmt"
    by (metis sum.exhaust)
  then show ?thesis
  proof cases
    case 1
    with w1 show ?thesis by (intro exI [of _ w1]) (simp add: def)
  next
    case 2
    with w1(1) w2(1) a2 show ?thesis by (intro exI [of _ w2]) (simp add: def)
  next
    case 3
    with w1(1) w2(1) w3(1) a3 show ?thesis by (intro exI [of _ w3]) (simp add: def)
  next
    case 4
    with w1(1) w2(1) w3(1) a3 encrypted_backup_format_Inl [OF 4(4)] show ?thesis
      by (intro exI [of _ w3]) (simp add: def)
  next
    case 5
    have "nodes (disk w3) (name_of (cwd w3) dest) = None" using 5(2) by (simp add: c3)
    from calm_write_exclusive [OF reach3 this] obtain w4 where
      w4: "write_exclusive dest d w3 = Some (Inr (), w4)" "calm_after w3 (installed_at ?m d (with_parent dest w3)) w4"
      unfolding c3 by blast
    have "with_parent dest w3 = with_parent dest w" by (simp add: with_parent_def c3)
    with 5 w1(1) w2(1) w3(1) w4(1) calm_after_trans [OF a3 w4(2)] show ?thesis
      by (intro exI [of _ w4]) (simp add: def)
  qed
qed

lemma opens_format:
  assumes "opens K pw d = Some root"
  shows "\<exists>b. from_encrypted_bytes d = Inr b \<and> encrypted_bytes b = d
    \<and> unat (encrypted_size (eb_metadata b)) = length d
    \<and> encrypted_backup_format d = Inr (bm_format (eb_metadata b))"
proof -
  have "\<exists>p. file_payload d = Inr p"
    using assms by (cases "file_payload d") (auto simp: opens_def file_decrypt_def)
  then have d: "(length d = 97 \<and> take 5 d = MAGIC @ [FORMAT_VERSION]) \<or> length d = 92"
    by (auto simp: file_payload_Inr_iff)
  then obtain fmt where "encrypted_backup_format d = Inr fmt"
    by (auto simp: encrypted_backup_format_def file_len_values MAGIC_def FORMAT_VERSION_def)
  moreover have "length d < 2 ^ 64" "unat (of_nat (length d) :: 64 word) = length d"
    using d by auto
  ultimately show ?thesis by (simp add: from_encrypted_bytes_def ok_or_def)
qed

lemma calm_export:
  fixes w :: "'z world_scheme"
  assumes "aead_crate K" and "reachable p w"
    and "nodes (disk w) (name_of (cwd w) p) = Some (File i)"
    and "opens K pw (f_data (inodes (disk w) ! i)) = Some root"
  shows "\<exists>b w'. export_encrypted_backup K (IdentityVault_new p (StaticPassphraseProvider pw)) w = Some (Inr b, w')
    \<and> calm_after w (disk w) w' \<and> encrypted_bytes b = f_data (inodes (disk w) ! i)
    \<and> unat (encrypted_size (eb_metadata b)) = length (f_data (inodes (disk w) ! i))"
proof -
  let ?d = "f_data (inodes (disk w) ! i)"
  obtain w1 where w1: "path_exists p w = (True, w1)" "calm_after w (disk w) w1"
    using calm_exists [OF reachable_calm(1,2) [OF assms(2)]] assms(3) by auto
  then have c1: "disk w1 = disk w" "cwd w1 = cwd w" by (simp_all add: calm_after_def)
  obtain w2 where w2: "fs_read p w1 = Some (Inr ?d, w2)" "calm_after w1 (disk w) w2"
    using calm_read_any [OF reachable_same [OF assms(2) w1(2)]] assms(3)
    unfolding c1 by (auto simp: read_result_def)
  obtain b where b: "from_encrypted_bytes ?d = Inr b" "encrypted_bytes b = ?d"
    "unat (encrypted_size (eb_metadata b)) = length ?d"
    using opens_format [OF assms(4)] by blast
  have dec: "file_decrypt K ?d pw = Some (Inr root)"
    using assms(4) by (rule_tac opens_cases [OF assms(1), of ?d pw]) simp_all
  from w1 w2 b dec calm_after_trans [OF w1(2) w2(2)] show ?thesis
    by (intro exI [of _ b] exI [of _ w2])
      (simp add: export_encrypted_backup_def io_bind_def io_map_err_def calm_load_bytes)
qed

lemma calm_unlock:
  fixes w :: "'z world_scheme"
  assumes "aead_crate K" and "reachable p w"
    and "nodes (disk w) (name_of (cwd w) p) = Some (File i)"
    and "opens K pw (f_data (inodes (disk w) ! i)) = Some root"
  shows "\<exists>w'. vault_unlock K (IdentityVault_new p (StaticPassphraseProvider pw)) w = Some (Inr root, w')
    \<and> calm_after w (disk w) w'"
proof -
  let ?d = "f_data (inodes (disk w) ! i)"
  obtain w1 where w1: "path_exists p w = (True, w1)" "calm_after w (disk w) w1"
    using calm_exists [OF reachable_calm(1,2) [OF assms(2)]] assms(3) by auto
  then have c1: "disk w1 = disk w" "cwd w1 = cwd w" by (simp_all add: calm_after_def)
  obtain w2 where w2: "fs_read p w1 = Some (Inr ?d, w2)" "calm_after w1 (disk w) w2"
    using calm_read_any [OF reachable_same [OF assms(2) w1(2)]] assms(3)
    unfolding c1 by (auto simp: read_result_def)
  have dec: "file_decrypt K ?d pw = Some (Inr root)"
    using assms(4) by (rule_tac opens_cases [OF assms(1), of ?d pw]) simp_all
  from w1 w2 dec calm_after_trans [OF w1(2) w2(2)] show ?thesis
    by (intro exI [of _ w2])
      (simp add: vault_unlock_def file_root_secret_def file_load_def StaticPassphraseProvider_def
        io_bind_def io_map_err_def)
qed

lemma custody_other:
  assumes "wf_fs (disk w)" and "custody m (disk w) = Some x"
    and "nodes (disk w) (name_of (cwd w) p) = None" and "reachable p w"
  shows "custody m (installed_at (name_of (cwd w) p) d (with_parent p w)) = Some x"
proof -
  let ?n = "name_of (cwd w) p"
  from assms(2) obtain i where i: "nodes (disk w) m = Some (File i)" "inodes (disk w) ! i = x"
    by (auto simp: custody_Some_iff)
  have len: "i < length (inodes (disk w))" using assms(1) i(1) by (simp add: wf_fs_def)
  have "m \<noteq> ?n" using i assms(3) by auto
  moreover have "nodes (with_parent p w) m = Some (File i)"
    using i by (auto simp: with_parent_def nodes_add_dirs missing_prefixes_def)
  ultimately show ?thesis using i(2) len by (auto simp: custody_Some_iff installed_at_def nth_append)
qed

lemma nodes_installed:
  "nodes (installed_at n d (with_parent p w)) m =
     (if m = n \<and> nodes (with_parent p w) n = None then Some (File (length (inodes (disk w))))
      else nodes (with_parent p w) m)"
  by (simp add: installed_at_def)

lemma nodes_with_parent_cases:
  "nodes (with_parent p w) m = nodes (disk w) m \<or> (nodes (disk w) m = None \<and> nodes (with_parent p w) m = Some Dir)"
  by (auto simp: with_parent_def nodes_add_dirs missing_prefixes_def)

lemma wf_installed:
  assumes "wf_fs (disk w)"
  shows "wf_fs (installed_at n d (with_parent p w))"
  unfolding wf_fs_def
proof (intro allI impI)
  fix m i
  assume "nodes (installed_at n d (with_parent p w)) m = Some (File i)"
  then have "i = length (inodes (disk w)) \<or> nodes (disk w) m = Some (File i)"
    using nodes_with_parent_cases [of p w m] by (auto simp: nodes_installed split: if_splits)
  with assms show "i < length (inodes (installed_at n d (with_parent p w)))"
    by (auto simp: wf_fs_def installed_at_def less_Suc_eq)
qed

lemma reachable_installed:
  assumes "reachable p w"
    and "calm_after w (installed_at (name_of (cwd w) p) d (with_parent p w)) w'"
  shows "reachable p w'"
proof -
  let ?q = "name_of (cwd w) (identity_parent p)"
  obtain m where n: "name_of (cwd w) p = ?q @ [m]" using reachable_name [OF assms(1)] by blast
  have w': "calm w'" "disk w' = installed_at (?q @ [m]) d (with_parent p w)" "cwd w' = cwd w"
    using assms(2) n by (simp_all add: calm_after_def)
  from assms(1) have w: "wf_fs (disk w)" "has_name p" "dir_at (disk w) (cwd w)"
    and old: "\<forall>k \<le> length ?q. dir_at (disk w) (take k ?q) \<or> nodes (disk w) (take k ?q) = None"
    by (simp_all add: reachable_def Let_def)
  have free: "nodes (with_parent p w) (?q @ [m]) = nodes (disk w) (?q @ [m])"
    by (simp add: nodes_with_parent)
  have keep: "dir_at (installed_at (?q @ [m]) d (with_parent p w)) x" if "dir_at (disk w) x" for x
    using that nodes_with_parent_cases [of p w x] free by (auto simp: dir_at_def nodes_installed)
  have new: "dir_at (disk w') (take k ?q) \<or> nodes (disk w') (take k ?q) = None" if k: "k \<le> length ?q" for k
  proof -
    have "take k ?q \<noteq> ?q @ [m]" using k by (metis append_eq_conv_conj append_self_conv
          length_append_singleton length_take lessI min.absorb2 not_less take_all_iff)
    then show ?thesis
      using old [rule_format, OF k] nodes_with_parent_cases [of p w "take k ?q"] keep [of "take k ?q"]
      by (auto simp: w'(2) nodes_installed dir_at_def)
  qed
  show ?thesis
    unfolding reachable_def Let_def
    using w' wf_installed [OF w(1)] w(2) keep [OF w(3)] new by simp
qed

lemma ready_installed:
  assumes "ready K p w"
    and "calm_after w (installed_at (name_of (cwd w) p) d (with_parent p w)) w'"
  shows "ready K p w'"
proof -
  let ?q = "name_of (cwd w) (identity_parent p)"
  have reach: "reachable p w" and none:
    "nodes (disk w) (name_of (cwd w) (staging_path K p (identity_parent p) s)) = None" for s
    using assms(1) by (simp_all add: ready_def)
  have name: "has_name p" using reach by (simp add: reachable_def)
  have "length ?q < length (name_of (cwd w) (staging_path K p (identity_parent p) s))" for s
    by (simp add: staging_path_def Let_def path_join_def name_of_def)
  then have "nodes (with_parent p w) (name_of (cwd w) (staging_path K p (identity_parent p) s)) = None" for s
    using none by (simp add: nodes_with_parent)
  with assms(2) staging_differs [OF name, where c = "cwd w" and K = K] show ?thesis
    using reachable_installed [OF reach assms(2)]
    by (simp add: ready_def calm_after_def nodes_installed)
qed

subsection \<open>Properties\<close>

text \<open>
  In a calm world a plain backup is the byte-exact copy of the identity file under a free
  name, owner-only; every refusal (no identity, an occupied destination, an unreadable source, a
  file that is in neither format) leaves the disk as it was, and no backup changes the source.
\<close>

theorem backup_outcome:
  assumes "reachable p w" and "reachable dest w"
  shows "\<exists>w'. vault_backup (IdentityVault_new p provider) dest w
      = Some (map_sum id (\<lambda>_. ())
          (backup_decision p dest (nodes (disk w) (resolve w p)) (nodes (disk w) (resolve w dest)) (disk w)), w')
    \<and> (case backup_decision p dest (nodes (disk w) (resolve w p)) (nodes (disk w) (resolve w dest)) (disk w) of
         Inl _ \<Rightarrow> disk w' = disk w
       | Inr d \<Rightarrow> custody (resolve w dest) (disk w') = Some (private_file d)
           \<and> (\<exists>x. custody (resolve w p) (disk w) = Some x \<and> f_data x = d)
           \<and> (\<forall>m x. custody m (disk w) = Some x \<longrightarrow> custody m (disk w') = Some x))"
proof -
  let ?n = "name_of (cwd w) p" and ?m = "name_of (cwd w) dest"
  define r where "r = backup_decision p dest (nodes (disk w) ?n) (nodes (disk w) ?m) (disk w)"
  obtain w' where w': "vault_backup (IdentityVault_new p provider) dest w = Some (map_sum id (\<lambda>_. ()) r, w')"
    "disk w' = (case r of Inl _ \<Rightarrow> disk w | Inr d \<Rightarrow> installed_at ?m d (with_parent dest w))"
    using calm_backup [OF assms, of provider] unfolding r_def calm_after_def by blast
  have "custody ?m (disk w') = Some (private_file d) \<and> (\<exists>x. custody ?n (disk w) = Some x \<and> f_data x = d)
      \<and> (\<forall>m x. custody m (disk w) = Some x \<longrightarrow> custody m (disk w') = Some x)" if r: "r = Inr d" for d
  proof -
    from r have free: "nodes (disk w) ?m = None" and read: "read_result (nodes (disk w) ?n) (disk w) = Inr d"
      using backup_decision_Inr unfolding r_def by blast+
    obtain l where "?m = name_of (cwd w) (identity_parent dest) @ [l]"
      using reachable_name [OF assms(2)] by blast
    then have "nodes (with_parent dest w) ?m = None" using free by (simp add: nodes_with_parent)
    from custody_installed [OF this, of d] have "custody ?m (disk w') = Some (private_file d)"
      by (simp add: w'(2) r custody_def)
    moreover from read have "\<exists>x. custody ?n (disk w) = Some x \<and> f_data x = d"
      by (auto simp: read_result_def custody_Some_iff split: option.splits node.splits)
    moreover have "wf_fs (disk w)" using assms(1) by (simp add: reachable_def)
    ultimately show ?thesis
      using custody_other [OF _ _ free assms(2)] by (simp add: w'(2) r)
  qed
  with w' show ?thesis
    unfolding resolve_name_of r_def [symmetric] by (intro exI [of _ w']) (simp split: sum.split)
qed

text \<open>A disk that holds one sealed identity.\<close>

definition world_with :: "path \<Rightarrow> byte list \<Rightarrow> world" where
  "world_with p d = sample_world \<lparr> disk := installed_at (name_of [] p) d (with_parent p sample_world) \<rparr>"

definition backup_path :: path where
  "backup_path = \<lparr> absolute = True, comps = [''id'', ''identity.bak''] \<rparr>"

lemma sample_reachable:
  "reachable sample_path (world_with sample_path d)" "reachable backup_path (world_with sample_path d)"
  "nodes (disk (world_with sample_path d)) [''id'', ''identity.key''] = Some (File 0)"
  "nodes (disk (world_with sample_path d)) [''id'', ''identity.bak''] = None"
  "inodes (disk (world_with sample_path d)) = [private_file d]"
  "resolve (world_with sample_path d) sample_path = [''id'', ''identity.key'']"
  "resolve (world_with sample_path d) backup_path = [''id'', ''identity.bak'']"
proof -
  have utf: "utf8_valid ''identity.key''" "utf8_valid ''identity.bak''" by code_simp+
  have base: "reachable sample_path sample_world" using sample_ready by (simp add: ready_def)
  have "calm_after sample_world (disk (world_with sample_path d)) (world_with sample_path d)"
    by (simp add: calm_after_def world_with_def calm_def sample_world_def)
  with reachable_installed [OF base] show r: "reachable sample_path (world_with sample_path d)"
    by (simp add: world_with_def)
  have "identity_parent backup_path = identity_parent sample_path"
    by (simp add: identity_parent_def path_parent_def backup_path_def sample_path_def)
  moreover have "has_name backup_path" using utf(2)
    by (simp add: has_name_def path_file_name_def backup_path_def)
  ultimately show "reachable backup_path (world_with sample_path d)"
    using r unfolding reachable_def by simp
  show "nodes (disk (world_with sample_path d)) [''id'', ''identity.key''] = Some (File 0)"
    "nodes (disk (world_with sample_path d)) [''id'', ''identity.bak''] = None"
    "inodes (disk (world_with sample_path d)) = [private_file d]"
    by (simp_all add: world_with_def nodes_installed nodes_with_parent installed_at_def
        sample_world_def sample_path_def name_of_def identity_parent_def path_parent_def)
  show "resolve (world_with sample_path d) sample_path = [''id'', ''identity.key'']"
    "resolve (world_with sample_path d) backup_path = [''id'', ''identity.bak'']"
    by (simp_all add: resolve_def sample_path_def backup_path_def)
qed

theorem backup_outcome_witness:
  "\<exists>w'. vault_backup (IdentityVault_new sample_path (StaticPassphraseProvider [1])) backup_path
       (world_with sample_path (replicate 92 0)) = Some (Inr (), w')
     \<and> custody [''id'', ''identity.bak''] (disk w') = Some (private_file (replicate 92 0))"
  using backup_outcome [OF sample_reachable(1,2), of "StaticPassphraseProvider [1]" "replicate 92 0"]
  by (auto simp: sample_reachable backup_decision_def read_result_def encrypted_backup_format_def
      file_len_values private_file_def)

text \<open>
  In a calm world a restore implements its decision table: a backup that does not open is
  refused whatever the name holds; a free name is filled with the exact bytes, owner-only; custody
  of the same root is reported as present, of another root as a conflict, and custody that does not
  open as unavailable.  Only the first of these changes the disk, and no existing file is altered.
\<close>

theorem restore_outcome:
  fixes w :: "'z world_scheme"
  assumes "aead_crate K" and "ct_crate K" and "reachable p w"
  shows "\<exists>w'. restore_encrypted_backup K (IdentityVault_new p (StaticPassphraseProvider pw)) backup w
      = Some (restore_decision K pw (encrypted_bytes backup) (nodes (disk w) (resolve w p)) (disk w), w')
    \<and> (if restore_decision K pw (encrypted_bytes backup) (nodes (disk w) (resolve w p)) (disk w) = Inr Restored
       then custody (resolve w p) (disk w) = None
         \<and> custody (resolve w p) (disk w') = Some (private_file (encrypted_bytes backup))
       else disk w' = disk w)
    \<and> (\<forall>m x. custody m (disk w) = Some x \<longrightarrow> custody m (disk w') = Some x)"
proof -
  let ?n = "name_of (cwd w) p" and ?d = "encrypted_bytes backup"
  define r where "r = restore_decision K pw ?d (nodes (disk w) ?n) (disk w)"
  obtain w' where w': "restore_encrypted_backup K (IdentityVault_new p (StaticPassphraseProvider pw)) backup w
      = Some (r, w')"
    "disk w' = (if r = Inr Restored then installed_at ?n ?d (with_parent p w) else disk w)"
    using calm_restore [OF assms, of pw backup] unfolding r_def calm_after_def by blast
  have "custody ?n (disk w) = None \<and> custody ?n (disk w') = Some (private_file ?d)
      \<and> (\<forall>m x. custody m (disk w) = Some x \<longrightarrow> custody m (disk w') = Some x)" if r: "r = Inr Restored"
  proof -
    from r have free: "nodes (disk w) ?n = None"
      by (auto simp: r_def restore_decision_def split: option.splits node.splits if_splits)
    obtain l where "?n = name_of (cwd w) (identity_parent p) @ [l]"
      using reachable_name [OF assms(3)] by blast
    then have "nodes (with_parent p w) ?n = None" using free by (simp add: nodes_with_parent)
    from custody_installed [OF this, of ?d] have "custody ?n (disk w') = Some (private_file ?d)"
      by (simp add: w'(2) r custody_def)
    moreover have "wf_fs (disk w)" using assms(3) by (simp add: reachable_def)
    ultimately show ?thesis
      using custody_other [OF _ _ free assms(3)] free by (simp add: w'(2) r custody_def)
  qed
  with w' show ?thesis
    unfolding resolve_name_of r_def [symmetric] by (intro exI [of _ w']) simp
qed

lemma sample_sealed:
  "\<exists>d. sealed ref_crates [1, 2, 3] (replicate 32 5) d"
proof -
  obtain r w' where "encrypt_root_secret ref_crates (replicate 32 5) [1, 2, 3] sample_world = Some (r, w')"
    using calm_encrypt sample_world_calm(1) by blast
  with aead_crate.encrypt_root_secret_cases [OF ref_aead.aead_crate_axioms _ _ this]
  show ?thesis by (auto simp: sealed_def)
qed

theorem restore_outcome_witness:
  "\<exists>b w' w''. opens ref_crates [1, 2, 3] (encrypted_bytes b) = Some (replicate 32 5)
     \<and> restore_encrypted_backup ref_crates
         (IdentityVault_new sample_path (StaticPassphraseProvider [1, 2, 3])) b sample_world = Some (Inr Restored, w')
     \<and> restore_encrypted_backup ref_crates
         (IdentityVault_new sample_path (StaticPassphraseProvider [9])) \<lparr>eb_metadata = eb_metadata b, encrypted_bytes = []\<rparr>
         sample_world = Some (Inl BackupAuthenticationFailed, w'')"
proof -
  obtain d where "sealed ref_crates [1, 2, 3] (replicate 32 5) d" using sample_sealed by blast
  then have d: "opens ref_crates [1, 2, 3] d = Some (replicate 32 5)" by (simp add: sealed_def opens_def)
  obtain b :: encrypted_backup where b: "encrypted_bytes b = d" using opens_format [OF d] by blast
  have none: "opens ref_crates [9] [] = None"
    by (simp add: opens_def file_decrypt_def file_payload_def file_len_values)
  have reach: "reachable sample_path sample_world" using sample_ready by (simp add: ready_def)
  note restore_outcome [OF ref_aead.aead_crate_axioms ref_ct.ct_crate_axioms reach]
  from this [of "[1, 2, 3]" b] this [of "[9]" "\<lparr>eb_metadata = eb_metadata b, encrypted_bytes = []\<rparr>"] show ?thesis
    by (intro exI [of _ b]) (auto simp: b d none restore_decision_def)
qed

text \<open>
  C20: Backup and restore are inverse: exporting an identity answers the exact bytes of its file
  with their size; restoring them elsewhere under the same passphrase installs the same bytes, from
  which the vault unlocks the same root; a second restore reports it present and changes nothing;
  and the original is untouched.
\<close>

theorem backup_restore_roundtrip:
  fixes w :: "'z world_scheme"
  assumes "aead_crate K" and "ct_crate K" and "reachable p w" and "reachable p' w"
    and "custody (resolve w p) (disk w) = Some x" and "opens K pw (f_data x) = Some root"
    and "nodes (disk w) (resolve w p') = None"
  shows "\<exists>b w1 w2 w3 w4.
     export_encrypted_backup K (IdentityVault_new p (StaticPassphraseProvider pw)) w = Some (Inr b, w1)
     \<and> encrypted_bytes b = f_data x \<and> unat (encrypted_size (eb_metadata b)) = length (f_data x)
     \<and> restore_encrypted_backup K (IdentityVault_new p' (StaticPassphraseProvider pw)) b w1 = Some (Inr Restored, w2)
     \<and> custody (resolve w p') (disk w2) = Some (private_file (f_data x))
     \<and> custody (resolve w p) (disk w2) = Some x
     \<and> vault_unlock K (IdentityVault_new p' (StaticPassphraseProvider pw)) w2 = Some (Inr root, w3)
     \<and> restore_encrypted_backup K (IdentityVault_new p' (StaticPassphraseProvider pw)) b w3 = Some (Inr AlreadyPresent, w4)
     \<and> disk w4 = disk w2"
proof -
  let ?n = "name_of (cwd w) p" and ?m = "name_of (cwd w) p'" and ?d = "f_data x"
  obtain i where i: "nodes (disk w) ?n = Some (File i)" "inodes (disk w) ! i = x"
    using assms(5) by (auto simp: custody_Some_iff resolve_name_of)
  obtain b w1 where b: "export_encrypted_backup K (IdentityVault_new p (StaticPassphraseProvider pw)) w = Some (Inr b, w1)"
    "encrypted_bytes b = ?d" "unat (encrypted_size (eb_metadata b)) = length ?d"
    and a1: "calm_after w (disk w) w1"
    using calm_export [OF assms(1,3) i(1)] assms(6) unfolding i(2) by blast
  have c1: "disk w1 = disk w" "cwd w1 = cwd w" using a1 by (simp_all add: calm_after_def)
  have free: "nodes (disk w1) (name_of (cwd w1) p') = None" using assms(7) by (simp add: c1 resolve_name_of)
  have reach1: "reachable p' w1" using reachable_same [OF assms(4) a1] .
  have decide: "restore_decision K pw (encrypted_bytes b) (nodes (disk w1) (name_of (cwd w1) p')) (disk w1)
      = Inr Restored"
    by (simp only: free restore_decision_def b(2) assms(6) option.case)
  obtain w2 where w2: "restore_encrypted_backup K (IdentityVault_new p' (StaticPassphraseProvider pw)) b w1
      = Some (Inr Restored, w2)"
    and a2: "calm_after w1 (installed_at ?m ?d (with_parent p' w1)) w2"
    using calm_restore [OF assms(1,2) reach1, of pw b, unfolded decide] unfolding b(2) c1 by auto
  have reach2: "reachable p' w2"
    by (rule reachable_installed [OF reach1, of ?d]) (use a2 in \<open>simp add: c1\<close>)
  obtain l where "?m = name_of (cwd w) (identity_parent p') @ [l]"
    using reachable_name [OF assms(4)] by blast
  with free have none: "nodes (with_parent p' w1) ?m = None" by (simp add: nodes_with_parent c1)
  have held: "nodes (disk w2) (name_of (cwd w2) p') = Some (File (length (inodes (disk w))))"
    "inodes (disk w2) ! length (inodes (disk w)) = private_file ?d"
    using custody_installed [OF none, of ?d] a2 by (simp_all add: calm_after_def c1)
  have open2: "opens K pw (f_data (inodes (disk w2) ! length (inodes (disk w)))) = Some root"
    using held(2) assms(6) by (simp add: private_file_def)
  obtain w3 where w3: "vault_unlock K (IdentityVault_new p' (StaticPassphraseProvider pw)) w2 = Some (Inr root, w3)"
    and a3: "calm_after w2 (disk w2) w3"
    using calm_unlock [OF assms(1) reach2 held(1) open2] by blast
  have c3: "disk w3 = disk w2" "cwd w3 = cwd w2" using a3 by (simp_all add: calm_after_def)
  have decide3: "restore_decision K pw (encrypted_bytes b) (nodes (disk w3) (name_of (cwd w3) p')) (disk w3)
      = Inr AlreadyPresent"
    unfolding c3 held(1) by (simp add: restore_decision_def b(2) assms(6) open2)
  obtain w4 where w4: "restore_encrypted_backup K (IdentityVault_new p' (StaticPassphraseProvider pw)) b w3
      = Some (Inr AlreadyPresent, w4)" "disk w4 = disk w2"
    using calm_restore [OF assms(1,2) reachable_same [OF reach2 a3], of pw b]
    unfolding decide3 by (auto simp: calm_after_def c3)
  have "custody ?m (disk w2) = Some (private_file ?d)"
    using held a2 by (simp add: custody_def calm_after_def c1)
  moreover have "custody ?n (disk w2) = Some x"
    using custody_other [of w1 ?n x p' ?d] assms(3,5) free reach1 a2
    by (simp add: c1 calm_after_def resolve_name_of reachable_def)
  ultimately show ?thesis
    unfolding resolve_name_of using b w2 w3 w4 by blast
qed

theorem backup_restore_roundtrip_witness:
  "\<exists>d b w1 w2. opens ref_crates [1, 2, 3] d = Some (replicate 32 5)
     \<and> export_encrypted_backup ref_crates (IdentityVault_new sample_path (StaticPassphraseProvider [1, 2, 3]))
         (world_with sample_path d) = Some (Inr b, w1)
     \<and> restore_encrypted_backup ref_crates (IdentityVault_new backup_path (StaticPassphraseProvider [1, 2, 3]))
         b w1 = Some (Inr Restored, w2)
     \<and> custody [''id'', ''identity.bak''] (disk w2) = Some (private_file d)"
proof -
  obtain d where "sealed ref_crates [1, 2, 3] (replicate 32 5) d" using sample_sealed by blast
  then have d: "opens ref_crates [1, 2, 3] d = Some (replicate 32 5)" by (simp add: sealed_def opens_def)
  have held: "custody (resolve (world_with sample_path d) sample_path) (disk (world_with sample_path d))
      = Some (private_file d)"
    and free: "nodes (disk (world_with sample_path d)) (resolve (world_with sample_path d) backup_path) = None"
    by (simp_all add: sample_reachable custody_def)
  have "opens ref_crates [1, 2, 3] (f_data (private_file d)) = Some (replicate 32 5)"
    using d by (simp add: private_file_def)
  from backup_restore_roundtrip [OF ref_aead.aead_crate_axioms ref_ct.ct_crate_axioms
      sample_reachable(1,2) held this free]
  have "\<exists>b w1 w2.
     export_encrypted_backup ref_crates (IdentityVault_new sample_path (StaticPassphraseProvider [1, 2, 3]))
         (world_with sample_path d) = Some (Inr b, w1)
     \<and> restore_encrypted_backup ref_crates (IdentityVault_new backup_path (StaticPassphraseProvider [1, 2, 3]))
         b w1 = Some (Inr Restored, w2)
     \<and> custody [''id'', ''identity.bak''] (disk w2) = Some (private_file d)"
    unfolding sample_reachable(7) by (auto simp: private_file_def)
  with d show ?thesis by blast
qed

text \<open>Restoring under faults and interference.\<close>

lemma secured_probe:
  "secured (keeps_foreign n) (guarded n c (\<lambda>_. True)) (io_probe (path_exists p)) (\<lambda>_. guarded n c (\<lambda>_. True))"
proof -
  have idle: "call_ok (keeps_foreign n) (\<lambda>_. True) (exists_call (name_of c p)) (\<lambda>_ _. True)"
    by (rule call_ok_idle) (simp add: idle_calls)
  have base: "secured (keeps_foreign n) (guarded n c (\<lambda>_. True)) (io_act (on_path p exists_call))
      (\<lambda>_. guarded n c (\<lambda>_. True))"
    by (rule foreign.secured_on_path [where op = exists_call, OF stable_True idle]) simp
  have "\<exists>r0. io_act (on_path p exists_call) w = Some (r0, w')"
    if "io_probe (path_exists p) w = Some (r, w')" for w :: "'z world_scheme" and r :: "'e + bool" and w'
    using that by (cases "on_path p exists_call w") (auto simp: path_exists_def split: sum.splits)
  with base show ?thesis unfolding secured_def by blast
qed

lemma secured_fs_read:
  "secured (keeps_foreign n) (guarded n c (\<lambda>_. True)) (fs_read p) (\<lambda>_. guarded n c (\<lambda>_. True))"
proof -
  have "call_ok (keeps_foreign n) (\<lambda>_. True) (read_call (name_of c p)) (\<lambda>_ _. True)"
    by (rule call_ok_idle) (simp add: idle_calls)
  from foreign.secured_on_path [where op = read_call, OF stable_True this] show ?thesis
    unfolding fs_read_def by blast
qed

lemma restore_of_sealed:
  assumes "file_decrypt K (encrypted_bytes backup) pw = Some (Inr root)"
  shows "restore_encrypted_backup K (IdentityVault_new p (StaticPassphraseProvider pw)) backup =
    io_bind (io_probe (path_exists p)) (\<lambda>exists.
     if exists then
       io_bind (io_map_err VaultIo (fs_read p)) (\<lambda>existing_bytes.
       io_bind (io_map_err (\<lambda>_. CustodyUnavailable) (io_pure (file_decrypt K existing_bytes pw)))
         (\<lambda>existing_secret.
            if ct_eq K existing_secret root then io_ok AlreadyPresent else io_err IdentityConflict))
     else
       io_bind (io_map_err (\<lambda>e. if e = AlreadyExists then IdentityConflict else VaultIo e)
         (write_exclusive p (encrypted_bytes backup))) (\<lambda>_. io_ok Restored))"
  unfolding restore_encrypted_backup_def calm_load_bytes vault_fields
  by (rule ext) (simp add: assms io_bind_def io_map_err_def)

lemma secured_compare:
  assumes "aead_crate K"
  shows "secured (keeps_foreign n) (guarded n c (\<lambda>_. True))
     (io_bind (io_map_err (\<lambda>_. CustodyUnavailable) (io_pure (file_decrypt K existing pw)))
       (\<lambda>secret. if ct_eq K secret root then io_ok AlreadyPresent else io_err IdentityConflict))
     (\<lambda>r. guarded n c (\<lambda>f. r = Inr Restored \<longrightarrow> X f))"
proof (rule opens_cases [OF assms, of existing pw])
  fix m
  assume d: "file_decrypt K existing pw = Some (Inl (DecryptionFailed m))"
  show ?thesis
    by (rule secured_cong [THEN iffD2, OF _ secured_err [of _ _ CustodyUnavailable]])
      (simp_all add: d io_bind_def io_map_err_def guarded_def)
next
  fix s
  assume d: "file_decrypt K existing pw = Some (Inr s)"
  show ?thesis
    by (rule secured_cong [THEN iffD2, OF _ secured_res
          [of _ _ "if ct_eq K s root then Inr AlreadyPresent else Inl IdentityConflict"]])
      (simp_all add: d io_bind_def io_map_err_def guarded_def)
qed

lemma secured_present:
  assumes "aead_crate K"
  shows "secured (keeps_foreign n) (guarded n c (\<lambda>_. True))
      (io_bind (io_map_err VaultIo (fs_read p)) (\<lambda>d.
       io_bind (io_map_err (\<lambda>_. CustodyUnavailable) (io_pure (file_decrypt K d pw))) (\<lambda>s.
         if ct_eq K s root then io_ok AlreadyPresent else io_err IdentityConflict)))
      (\<lambda>r. guarded n c (\<lambda>f. r = Inr Restored \<longrightarrow> X f))"
  by (rule secured_bind [OF secured_map_err [OF secured_fs_read] secured_compare [OF assms]])
    (simp add: guarded_def)

lemma secured_absent:
  "secured (keeps_foreign (name_of c p)) (guarded (name_of c p) c (\<lambda>_. True))
      (io_bind (io_map_err h (write_exclusive p d)) (\<lambda>_. io_ok Restored))
      (\<lambda>r. guarded (name_of c p) c (\<lambda>f. r = Inr Restored \<longrightarrow> custody (name_of c p) f = Some (private_file d)))"
proof (rule secured_bind)
  show "secured (keeps_foreign (name_of c p)) (guarded (name_of c p) c (\<lambda>_. True))
      (io_map_err h (write_exclusive p d))
      (\<lambda>r. guarded (name_of c p) c (\<lambda>f. r = Inr () \<longrightarrow> custody (name_of c p) f = Some (private_file d)))"
    by (rule secured_map_err, rule secured_post [OF secured_write_exclusive])
      (auto simp: guarded_def map_err_def split: sum.splits)
qed (auto intro!: secured_ok simp: guarded_def)

lemma secured_restore:
  assumes "aead_crate K" and "file_decrypt K (encrypted_bytes backup) pw = Some (Inr root)"
  shows "secured (keeps_foreign (name_of c p)) (guarded (name_of c p) c (\<lambda>_. True))
     (restore_encrypted_backup K (IdentityVault_new p (StaticPassphraseProvider pw)) backup)
     (\<lambda>r. guarded (name_of c p) c (\<lambda>f. r = Inr Restored \<longrightarrow>
        custody (name_of c p) f = Some (private_file (encrypted_bytes backup))))"
  unfolding restore_of_sealed [OF assms(2)]
  by (rule secured_bind [OF secured_probe])
    (simp_all add: secured_present [OF assms(1)] secured_absent guarded_def)

lemma runs_foreign:
  "runs (keeps_foreign n) f gs \<Longrightarrow> f # gs = before @ g # after \<Longrightarrow> custody n g = Some x \<Longrightarrow> \<not> f_mine x \<Longrightarrow>
     g' \<in> set after \<Longrightarrow> custody n g' = Some x"
proof (induction gs arbitrary: f before g after)
  case (Cons a gs)
  show ?case
  proof (cases before)
    case Nil
    with Cons.prems have "custody n a = Some x" "a # gs = after" by (auto simp: keeps_foreign_def)
    with Cons.IH [of a "[]" a gs] Cons.prems show ?thesis by (cases "g' = a") auto
  qed (use Cons in auto)
qed (auto simp: Cons_eq_append_conv)

text \<open>
  C6: A restore never touches custody it did not create, under faults at any call and with other
  processes running: from the moment a file of another process holds the identity's name, in every
  later state of the run it is still there, unaltered; a success means that the name holds exactly
  the backup's bytes with mode 0600; and a backup that does not open is refused without a single
  system call.
\<close>

theorem restore_is_safe:
  fixes w :: "'z world_scheme"
  assumes "aead_crate K" and "guarded (resolve w p) (cwd w) (\<lambda>_. True) w"
    and "restore_encrypted_backup K (IdentityVault_new p (StaticPassphraseProvider pw)) backup w = Some (r, w')"
  shows "\<exists>states. trail w' = trail w @ states \<and> disk w' = last (disk w # states)
     \<and> (\<forall>before f after x. disk w # states = before @ f # after
          \<and> custody (resolve w p) f = Some x \<and> \<not> f_mine x \<longrightarrow>
          (\<forall>g \<in> set after. custody (resolve w p) g = Some x))
     \<and> (r = Inr Restored \<longrightarrow>
          custody (resolve w p) (disk w') = Some (private_file (encrypted_bytes backup)))
     \<and> (opens K pw (encrypted_bytes backup) = None \<longrightarrow> r = Inl BackupAuthenticationFailed \<and> w' = w)"
proof (rule opens_cases [OF assms(1), of "encrypted_bytes backup" pw])
  fix m
  assume "file_decrypt K (encrypted_bytes backup) pw = Some (Inl (DecryptionFailed m))"
  with assms(3) have "r = Inl BackupAuthenticationFailed" "w' = w"
    by (simp_all add: restore_encrypted_backup_def calm_load_bytes io_bind_def io_map_err_def
        map_backup_authentication_error_def)
  moreover have "after = []" if "[disk w] = before @ f # after" for before f after
    using that by (cases before) simp_all
  ultimately show ?thesis by (intro exI [of _ "[]"]) force
next
  fix root
  assume d: "file_decrypt K (encrypted_bytes backup) pw = Some (Inr root)"
    and some: "opens K pw (encrypted_bytes backup) = Some root"
  define n where "n = name_of (cwd w) p"
  obtain states where st: "trail w' = trail w @ states" "runs (keeps_foreign n) (disk w) states"
    "disk w' = last (disk w # states)"
    and post: "guarded n (cwd w) (\<lambda>f. r = Inr Restored \<longrightarrow>
      custody n f = Some (private_file (encrypted_bytes backup))) w'"
    using secured_restore [OF assms(1) d, of "cwd w" p] assms(2,3)
    unfolding secured_def n_def resolve_name_of by blast
  from post have "r = Inr Restored \<longrightarrow> custody n (disk w') = Some (private_file (encrypted_bytes backup))"
    by (simp add: guarded_def)
  moreover have "\<forall>before f after x. disk w # states = before @ f # after \<and> custody n f = Some x \<and> \<not> f_mine x \<longrightarrow>
      (\<forall>g \<in> set after. custody n g = Some x)"
    by (intro allI impI ballI, elim conjE) (rule runs_foreign [OF st(2)])
  moreover have "opens K pw (encrypted_bytes backup) = None \<longrightarrow> r = Inl BackupAuthenticationFailed \<and> w' = w"
    unfolding some by simp
  ultimately show ?thesis
    unfolding resolve_name_of n_def [symmetric] using st(1,3) by (intro exI conjI)
qed

theorem restore_is_safe_witness:
  "\<exists>d b w'. restore_encrypted_backup ref_crates (IdentityVault_new sample_path (StaticPassphraseProvider [1, 2, 3]))
       b sample_world = Some (Inr Restored, w') \<and> encrypted_bytes b = d
     \<and> custody (resolve sample_world sample_path) (disk w') = Some (private_file d)"
proof -
  obtain d where "sealed ref_crates [1, 2, 3] (replicate 32 5) d" using sample_sealed by blast
  then have d: "opens ref_crates [1, 2, 3] d = Some (replicate 32 5)" by (simp add: sealed_def opens_def)
  obtain b :: encrypted_backup where b: "encrypted_bytes b = d" using opens_format [OF d] by blast
  have reach: "reachable sample_path sample_world" using sample_ready by (simp add: ready_def)
  have decide: "restore_decision ref_crates [1, 2, 3] (encrypted_bytes b)
      (nodes (disk sample_world) (name_of (cwd sample_world) sample_path)) (disk sample_world) = Inr Restored"
    by (simp add: restore_decision_def b d)
  obtain w' where run: "restore_encrypted_backup ref_crates
      (IdentityVault_new sample_path (StaticPassphraseProvider [1, 2, 3])) b sample_world = Some (Inr Restored, w')"
    using calm_restore [OF ref_aead.aead_crate_axioms ref_ct.ct_crate_axioms reach, of "[1, 2, 3]" b,
        unfolded decide] by blast
  have rely: "guarded (resolve sample_world sample_path) (cwd sample_world) (\<lambda>_. True) sample_world"
    by (rule calm_world) (simp_all add: sample_world_def wf_fs_def)
  from restore_is_safe [OF ref_aead.aead_crate_axioms rely run] run b show ?thesis by blast
qed

text \<open>The identity's name after a calm \<^verbatim>\<open>init\<close>.\<close>

lemma calm_init:
  fixes w :: "'z world_scheme"
  assumes "aead_crate K" and "ready K p w" and "length pw < 2 ^ 32" and "\<not> path_empty (identity_parent p)"
  shows "\<exists>d root w'. length root = 32 \<and> opens K pw d = Some root
     \<and> vault_init K (IdentityVault_new p provider) pw w
        = Some (if nodes (disk w) (name_of (cwd w) p) \<noteq> None then Inl (Vault_AlreadyExists (path_display p))
                else Inr (), w')
     \<and> calm_after w (installed_at (name_of (cwd w) p) d (with_parent p w)) w'"
proof -
  have "ready K (fsg_path (v_signer (IdentityVault_new p provider))) w" using assms(2) by simp
  from calm_generate [OF assms(1) this assms(3)] obtain w' d root where
    "length root = 32" "sealed K pw root d" and run: "file_generate K (v_signer (IdentityVault_new p provider)) pw w
      = Some (if nodes (disk w) (name_of (cwd w) p) \<noteq> None then Inl (Io AlreadyExists) else Inr (), w')"
    and "calm_after w (installed_at (name_of (cwd w) p) d (with_parent p w)) w'"
    using assms(4) by auto
  then show ?thesis
    by (intro exI [of _ d] exI [of _ root] exI [of _ w'])
      (simp add: vault_init_def io_try_def opens_def sealed_def)
qed

lemma calm_unlock_missing:
  fixes w :: "'z world_scheme"
  assumes "reachable p w" and "nodes (disk w) (name_of (cwd w) p) = None"
  shows "\<exists>w'. vault_unlock K (IdentityVault_new p provider) w = Some (Inl (NotInitialized (path_display p)), w')
     \<and> calm_after w (disk w) w'"
proof -
  obtain w1 where "path_exists p w = (False, w1)" "calm_after w (disk w) w1"
    using calm_exists [OF reachable_calm(1,2) [OF assms(1)]] assms(2) reachable_calm(3) [OF assms(1)] by auto
  then show ?thesis by (intro exI [of _ w1]) (simp add: vault_unlock_def io_bind_def)
qed

text \<open>
  The life of a vault in a calm world, as one run: unlocking before initialisation answers
  \<^verbatim>\<open>NotInitialized\<close>; \<^verbatim>\<open>init\<close> then succeeds and the vault unlocks to a 32-byte root; a second \<^verbatim>\<open>init\<close>,
  under any passphrase, answers \<^verbatim>\<open>AlreadyExists\<close> and leaves the identity file as it was, so that
  unlocking gives the same root again.
\<close>

theorem vault_lifecycle:
  fixes w :: "'z world_scheme"
  assumes "aead_crate K" and "ready K p w" and "length pw < 2 ^ 32" and "length pw' < 2 ^ 32"
    and "\<not> path_empty (identity_parent p)" and "nodes (disk w) (resolve w p) = None"
  shows "\<exists>w1 w2 w3 w4 w5 root x.
     vault_unlock K (IdentityVault_new p (StaticPassphraseProvider pw)) w
       = Some (Inl (NotInitialized (path_display p)), w1)
     \<and> vault_init K (IdentityVault_new p (StaticPassphraseProvider pw)) pw w1 = Some (Inr (), w2)
     \<and> vault_unlock K (IdentityVault_new p (StaticPassphraseProvider pw)) w2 = Some (Inr root, w3)
     \<and> length root = 32 \<and> custody (resolve w p) (disk w2) = Some x
     \<and> vault_init K (IdentityVault_new p (StaticPassphraseProvider pw)) pw' w3
       = Some (Inl (Vault_AlreadyExists (path_display p)), w4)
     \<and> custody (resolve w p) (disk w4) = Some x
     \<and> vault_unlock K (IdentityVault_new p (StaticPassphraseProvider pw)) w4 = Some (Inr root, w5)"
proof -
  let ?v = "IdentityVault_new p (StaticPassphraseProvider pw) :: 'z world_scheme identity_vault"
  define n where "n = name_of (cwd w) p"
  have reach: "reachable p w" using assms(2) by (simp add: ready_def)
  obtain w1 where w1: "vault_unlock K ?v w = Some (Inl (NotInitialized (path_display p)), w1)"
    and a1: "calm_after w (disk w) w1"
    using calm_unlock_missing [OF reach] assms(6) unfolding resolve_name_of by blast
  have c1: "disk w1 = disk w" "cwd w1 = cwd w" using a1 by (simp_all add: calm_after_def)
  have ready1: "ready K p w1"
    using assms(2) reachable_same [OF reach a1] unfolding ready_def c1 by blast
  obtain d root w2 where root: "length root = 32" "opens K pw d = Some root"
    and w2: "vault_init K ?v pw w1 = Some (Inr (), w2)"
    and a2: "calm_after w1 (installed_at n d (with_parent p w1)) w2"
    using calm_init [OF assms(1) ready1 assms(3,5), of "StaticPassphraseProvider pw"] assms(6)
    unfolding c1 n_def resolve_name_of by auto
  have c2: "disk w2 = installed_at n d (with_parent p w1)" "cwd w2 = cwd w"
    using a2 c1 by (simp_all add: calm_after_def)
  obtain l where "n = name_of (cwd w) (identity_parent p) @ [l]"
    using reachable_name [OF reach] unfolding n_def by blast
  then have none: "nodes (with_parent p w1) n = None"
    using assms(6) by (simp add: nodes_with_parent c1 n_def [symmetric] resolve_name_of)
  let ?i = "length (inodes (disk w))"
  have held: "nodes (disk w2) n = Some (File ?i)" "inodes (disk w2) ! ?i = private_file d"
    using custody_installed [OF none, of d] by (simp_all add: c2 c1)
  have ready2: "ready K p w2"
    by (rule ready_installed [OF ready1, of d]) (use a2 in \<open>simp add: n_def c1\<close>)
  then have reach2: "reachable p w2" by (simp add: ready_def)
  obtain w3 where w3: "vault_unlock K ?v w2 = Some (Inr root, w3)" and a3: "calm_after w2 (disk w2) w3"
    using calm_unlock [OF assms(1) reach2, of ?i pw root] held root by (auto simp: c2(2) n_def private_file_def)
  have c3: "disk w3 = disk w2" "cwd w3 = cwd w" using a3 c2 by (simp_all add: calm_after_def)
  have ready3: "ready K p w3"
    using ready2 reachable_same [OF reach2 a3] unfolding ready_def c3 c2(2) by blast
  obtain d' w4 where w4: "vault_init K ?v pw' w3 = Some (Inl (Vault_AlreadyExists (path_display p)), w4)"
    and a4: "calm_after w3 (installed_at n d' (with_parent p w3)) w4"
    using calm_init [OF assms(1) ready3 assms(4,5), of "StaticPassphraseProvider pw"] held
    unfolding c3 n_def by auto
  have "nodes (with_parent p w3) n = Some (File ?i)"
    using nodes_with_parent_cases [of p w3 n] held(1) by (simp add: c3)
  moreover have "?i < length (inodes (disk w2))" by (simp add: c2 c1 installed_at_def)
  ultimately have held4: "nodes (disk w4) n = Some (File ?i)" "inodes (disk w4) ! ?i = private_file d"
    using a4 held(2) by (simp_all add: calm_after_def installed_at_def c3 nth_append)
  have c4: "cwd w4 = cwd w" using a4 c3 by (simp add: calm_after_def)
  have "reachable p w4"
    using reachable_installed [of p w3 d' w4] ready3 a4 by (simp add: ready_def n_def c3)
  then obtain w5 where w5: "vault_unlock K ?v w4 = Some (Inr root, w5)"
    using calm_unlock [OF assms(1), of p w4 ?i pw root] held4 root by (auto simp: c4 n_def private_file_def)
  have "custody n (disk w2) = Some (private_file d)" "custody n (disk w4) = Some (private_file d)"
    using held held4 by (simp_all add: custody_def)
  then show ?thesis
    unfolding resolve_name_of n_def [symmetric] using w1 w2 w3 w4 w5 root(1) by blast
qed

theorem vault_lifecycle_witness:
  "\<exists>w1 w2. vault_unlock ref_crates (IdentityVault_new sample_path (StaticPassphraseProvider [1, 2, 3])) sample_world
       = Some (Inl (NotInitialized ''/id/identity.key''), w1)
     \<and> vault_init ref_crates (IdentityVault_new sample_path (StaticPassphraseProvider [1, 2, 3])) [1, 2, 3] w1
       = Some (Inr (), w2)"
proof -
  have p: "\<not> path_empty (identity_parent sample_path)" "path_display sample_path = ''/id/identity.key''"
    by (simp_all add: sample_path_def identity_parent_def path_parent_def path_empty_def path_display_def)
  show ?thesis
    using vault_lifecycle [OF ref_aead.aead_crate_axioms sample_ready _ _ p(1), of "[1, 2, 3]" "[4]"]
    unfolding p(2) by auto
qed

text \<open>The sample disk while a restore at the sample path is under way.\<close>

definition restoring_disk :: "byte list \<Rightarrow> fs" where
  "restoring_disk d =
     \<lparr> nodes = [[''id''] \<mapsto> Dir, [''id'', ''identity.key''] \<mapsto> File 0], inodes = [private_file d] \<rparr>"

definition failing_world :: "io_kind \<Rightarrow> nat \<Rightarrow> world" where
  "failing_world kind m = sample_world \<lparr> faults := (\<lambda>k. if k = 3 then Some (kind, m) else None) \<rparr>"

lemma failing_world_steps:
  fixes kind m
  defines "w \<equiv> failing_world kind m"
  shows "path_exists sample_path w = (False, w \<lparr> calls := 1, trail := [disk w] \<rparr>)"
    and "\<exists>t. create_dir_all (identity_parent sample_path) (w \<lparr> calls := 1, trail := [disk w] \<rparr>)
      = Some (Inr (), w \<lparr> disk := \<lparr> nodes = [[''id''] \<mapsto> Dir], inodes = [] \<rparr>, calls := 2, trail := t \<rparr>)"
    and "\<exists>t'. open_create_new sample_path owner_only
        (w \<lparr> disk := \<lparr> nodes = [[''id''] \<mapsto> Dir], inodes = [] \<rparr>, calls := 2, trail := t \<rparr>)
      = Some (Inr 0, w \<lparr> disk := restoring_disk [], calls := 3, trail := t' \<rparr>)"
    and "\<exists>t'. write_all 0 d (w \<lparr> disk := restoring_disk [], calls := 3, trail := t \<rparr>)
      = Some (Inl kind, w \<lparr> disk := restoring_disk (take m d), calls := 4, trail := t' \<rparr>)"
    and "\<exists>t'. path_exists sample_path (w \<lparr> disk := restoring_disk d, calls := 4, trail := t \<rparr>)
      = (True, w \<lparr> disk := restoring_disk d, calls := 5, trail := t' \<rparr>)"
    and "\<exists>t'. fs_read sample_path (w \<lparr> disk := restoring_disk d, calls := 5, trail := t \<rparr>)
      = Some (Inr d, w \<lparr> disk := restoring_disk d, calls := 6, trail := t' \<rparr>)"
  by (simp_all add: assms failing_world_def sample_world_def sample_path_def path_exists_def on_path_def
      path_empty_def syscall_def exists_call_def resolve_def Let_def create_dir_all_def identity_parent_def
      path_parent_def mkdirs_call_def dir_at_def missing_prefixes_def add_dirs_def open_create_new_def
      create_new_call_def parent_error_def restoring_disk_def private_file_def write_all_def write_call_def
      set_data_def fs_read_def read_call_def min_def)

text \<open>
  C28: A restore writes under the identity's own name, so a write that fails part way leaves a
  truncated file there, and the same restore, repeated without any fault, is then refused as
  \<^verbatim>\<open>CustodyUnavailable\<close> and changes nothing: here the fourth system call fails after \<open>m\<close> bytes.
\<close>

theorem interrupted_restore_blocks_later_ones:
  assumes "aead_crate K" and "opens K pw (encrypted_bytes backup) = Some root" and "m < 92"
    and "kind \<noteq> AlreadyExists"
  shows "\<exists>w1 w2.
     restore_encrypted_backup K (IdentityVault_new sample_path (StaticPassphraseProvider pw)) backup
       (failing_world kind m) = Some (Inl (VaultIo kind), w1)
     \<and> custody (resolve w1 sample_path) (disk w1) = Some (private_file (take m (encrypted_bytes backup)))
     \<and> (\<forall>k \<ge> calls w1. faults w1 k = None)
     \<and> restore_encrypted_backup K (IdentityVault_new sample_path (StaticPassphraseProvider pw)) backup w1
       = Some (Inl CustodyUnavailable, w2)
     \<and> disk w2 = disk w1"
proof -
  let ?d = "encrypted_bytes backup"
  define w where "w = failing_world kind m"
  have dec: "file_decrypt K ?d pw = Some (Inr root)"
    using assms(2) by (rule_tac opens_cases [OF assms(1), of ?d pw]) simp_all
  have "file_payload (take m ?d) \<noteq> Inr p" for p
    using assms(3) by (auto simp: file_payload_Inr_iff)
  then obtain e where "file_payload (take m ?d) = Inl e" by (cases "file_payload (take m ?d)") auto
  then have bad: "file_decrypt K (take m ?d) pw = Some (Inl e)" by (simp add: file_decrypt_def)
  have parent: "path_parent sample_path = Some (identity_parent sample_path)"
    by (simp add: sample_path_def identity_parent_def path_parent_def)
  note step = failing_world_steps [where kind = kind and m = m, folded w_def]
  obtain t2 t3 t4 t5 t6 where
    s2: "create_dir_all (identity_parent sample_path) (w \<lparr> calls := 1, trail := [disk w] \<rparr>)
      = Some (Inr (), w \<lparr> disk := \<lparr> nodes = [[''id''] \<mapsto> Dir], inodes = [] \<rparr>, calls := 2, trail := t2 \<rparr>)"
    and s3: "open_create_new sample_path owner_only
        (w \<lparr> disk := \<lparr> nodes = [[''id''] \<mapsto> Dir], inodes = [] \<rparr>, calls := 2, trail := t2 \<rparr>)
      = Some (Inr 0, w \<lparr> disk := restoring_disk [], calls := 3, trail := t3 \<rparr>)"
    and s4: "write_all 0 ?d (w \<lparr> disk := restoring_disk [], calls := 3, trail := t3 \<rparr>)
      = Some (Inl kind, w \<lparr> disk := restoring_disk (take m ?d), calls := 4, trail := t4 \<rparr>)"
    and s5: "path_exists sample_path (w \<lparr> disk := restoring_disk (take m ?d), calls := 4, trail := t4 \<rparr>)
      = (True, w \<lparr> disk := restoring_disk (take m ?d), calls := 5, trail := t5 \<rparr>)"
    and s6: "fs_read sample_path (w \<lparr> disk := restoring_disk (take m ?d), calls := 5, trail := t5 \<rparr>)
      = Some (Inr (take m ?d), w \<lparr> disk := restoring_disk (take m ?d), calls := 6, trail := t6 \<rparr>)"
    using step(2-6) by metis
  define w1 where "w1 = w \<lparr> disk := restoring_disk (take m ?d), calls := 4, trail := t4 \<rparr>"
  have "restore_encrypted_backup K (IdentityVault_new sample_path (StaticPassphraseProvider pw)) backup w
      = Some (Inl (VaultIo kind), w1)"
    unfolding restore_of_sealed [OF dec] w1_def write_exclusive_def
    using assms(4) by (simp add: io_bind_def io_map_err_def step(1) parent s2 s3 s4 del: One_nat_def)
  moreover have "restore_encrypted_backup K (IdentityVault_new sample_path (StaticPassphraseProvider pw)) backup w1
      = Some (Inl CustodyUnavailable, w \<lparr> disk := restoring_disk (take m ?d), calls := 6, trail := t6 \<rparr>)"
    unfolding restore_of_sealed [OF dec] w1_def
    by (simp add: io_bind_def io_map_err_def s5 s6 bad)
  moreover have "custody (resolve w1 sample_path) (disk w1) = Some (private_file (take m ?d))"
    by (simp add: w1_def w_def failing_world_def sample_world_def resolve_def sample_path_def custody_def
        restoring_disk_def)
  moreover have "\<forall>k \<ge> calls w1. faults w1 k = None"
    by (simp add: w1_def w_def failing_world_def)
  ultimately show ?thesis unfolding w_def [symmetric] by (auto simp: w1_def)
qed

theorem interrupted_restore_blocks_later_ones_witness:
  "\<exists>b w1 w2. opens ref_crates [1, 2, 3] (encrypted_bytes b) = Some (replicate 32 5)
     \<and> restore_encrypted_backup ref_crates (IdentityVault_new sample_path (StaticPassphraseProvider [1, 2, 3])) b
       (failing_world PermissionDenied 40) = Some (Inl (VaultIo PermissionDenied), w1)
     \<and> restore_encrypted_backup ref_crates (IdentityVault_new sample_path (StaticPassphraseProvider [1, 2, 3])) b
       w1 = Some (Inl CustodyUnavailable, w2)"
proof -
  obtain d where "sealed ref_crates [1, 2, 3] (replicate 32 5) d" using sample_sealed by blast
  then have d: "opens ref_crates [1, 2, 3] d = Some (replicate 32 5)" by (simp add: sealed_def opens_def)
  obtain b :: encrypted_backup where b: "encrypted_bytes b = d" using opens_format [OF d] by blast
  have "opens ref_crates [1, 2, 3] (encrypted_bytes b) = Some (replicate 32 5)" using d b by simp
  from interrupted_restore_blocks_later_ones [OF ref_aead.aead_crate_axioms this, of 40 PermissionDenied] this
  show ?thesis by auto
qed

end
