(* ===== verification/VaultSession.thy ===== *)
theory VaultSession
  imports Vault
begin

text \<open>
  Sessions with one identity vault, \<^verbatim>\<open>src/vault.rs\<close>: any sequence of calls, each under a passphrase
  of its own, while other processes run and calls fail; what every session keeps, and, when nothing
  interferes, the abstract machine that a session follows.
\<close>

subsection \<open>Calls and sessions\<close>

datatype request =
    Request_init "byte list"
  | Request_backup path
  | Request_export
  | Request_metadata
  | Request_restore encrypted_backup
  | Request_unlock

datatype reply =
    Initialized
  | BackedUp
  | Exported encrypted_backup
  | Described backup_metadata
  | Recovered restore_outcome
  | Unlocked "byte list"
  | Refused vault_error

definition reply_with :: "('a \<Rightarrow> reply) \<Rightarrow> ('w, vault_error, 'a) io \<Rightarrow> 'w \<Rightarrow> (reply \<times> 'w) option" where
  "reply_with g m w = map_option (\<lambda>(r, w'). (case_sum Refused g r, w')) (m w)"

fun vault_call ::
  "crates \<Rightarrow> 'z world_scheme identity_vault \<Rightarrow> request \<Rightarrow> 'z world_scheme
     \<Rightarrow> (reply \<times> 'z world_scheme) option" where
  "vault_call K self (Request_init pw) = reply_with (\<lambda>_. Initialized) (vault_init K self pw)"
| "vault_call K self (Request_backup dest) = reply_with (\<lambda>_. BackedUp) (vault_backup self dest)"
| "vault_call K self Request_export = reply_with Exported (export_encrypted_backup K self)"
| "vault_call K self Request_metadata = reply_with Described (encrypted_backup_metadata self)"
| "vault_call K self (Request_restore b) = reply_with Recovered (restore_encrypted_backup K self b)"
| "vault_call K self Request_unlock = reply_with Unlocked (vault_unlock K self)"

text \<open>A session from a world, with the passphrases, requests and replies so far, and its world now.\<close>

inductive vault_session ::
  "crates \<Rightarrow> path \<Rightarrow> 'z world_scheme \<Rightarrow> (byte list \<times> request \<times> reply) list \<Rightarrow> 'z world_scheme \<Rightarrow> bool"
  for K p w where
  opened: "vault_session K p w [] w"
| called: "vault_session K p w log w1 \<Longrightarrow>
    vault_call K (IdentityVault_new p (StaticPassphraseProvider pw)) q w1 = Some (a, w2) \<Longrightarrow>
    vault_session K p w (log @ [(pw, q, a)]) w2"

inductive_cases session_emptyE: "vault_session K p w [] w'"
inductive_cases session_snocE: "vault_session K p w (log @ [e]) w'"

subsection \<open>What a name holds is kept\<close>

definition pinned :: "string list \<Rightarrow> fs_file \<Rightarrow> fs \<Rightarrow> fs \<Rightarrow> bool" where
  "pinned n x f f' \<longleftrightarrow> wf_fs f' \<and> (custody n f = Some x \<longrightarrow> custody n f' = Some x)"

interpretation pinned: guarantee "pinned n x" n for n x
  by unfold_locales (simp_all add: pinned_def env_step_def)

lemma keeps_imp_pinned: "keeps good n f f' \<Longrightarrow> pinned n x f f'"
  by (simp add: keeps_def pinned_def)

abbreviation intact :: "string list \<Rightarrow> string list \<Rightarrow> fs_file \<Rightarrow> (fs \<Rightarrow> bool) \<Rightarrow> 'z world_scheme \<Rightarrow> bool" where
  "intact n c x B \<equiv> guarded n c (\<lambda>f. custody n f = Some x \<and> B f)"

lemma stable_held: "stable n B \<Longrightarrow> stable n (\<lambda>f. custody n f = Some x \<and> B f)"
  unfolding stable_def env_step_def by blast

lemma runs_pinned: "runs (pinned n x) f gs \<Longrightarrow> custody n f = Some x \<Longrightarrow> g \<in> set (f # gs) \<Longrightarrow> custody n g = Some x"
  by (induction gs arbitrary: f) (auto simp: pinned_def)

text \<open>What code that keeps custody does, it does while a file stays in place.\<close>

lemma secured_held:
  assumes "secured (keeps good n) (guarded n c B) m (\<lambda>r. guarded n c (Q r))"
  shows "secured (pinned n x) (intact n c x B) m (\<lambda>r. intact n c x (Q r))"
  unfolding secured_def
proof (intro allI impI, elim conjE)
  fix w r w'
  assume w: "intact n c x B w" and run: "m w = Some (r, w')"
  then have "guarded n c B w" by (simp add: guarded_def)
  with assms run obtain new where q: "guarded n c (Q r) w'"
    and new: "trail w' = trail w @ new" "runs (keeps good n) (disk w) new" "disk w' = last (disk w # new)"
    unfolding secured_def by blast
  from new(2) have runs: "runs (pinned n x) (disk w) new" by (rule runs_mono) (rule keeps_imp_pinned)
  have "custody n (disk w) = Some x" using w by (simp add: guarded_def)
  then have "custody n (disk w') = Some x"
    using runs_pinned [OF runs, of "disk w'"] by (simp only: new(3) last_in_set list.distinct simp_thms)
  with q runs new(1,3) show "intact n c x (Q r) w' \<and> (\<exists>new. trail w' = trail w @ new
      \<and> runs (pinned n x) (disk w) new \<and> disk w' = last (disk w # new))"
    by (auto simp: guarded_def)
qed

lemma secured_held_probe:
  "secured (pinned n x) (intact n c x (\<lambda>_. True)) (io_probe (path_exists p)) (\<lambda>_. intact n c x (\<lambda>_. True))"
proof -
  have idle: "call_ok (keeps (\<lambda>_. True) n) (\<lambda>_. True) (exists_call (name_of c p)) (\<lambda>_ _. True)"
    by (rule call_ok_idle) (simp add: idle_calls)
  have base: "secured (pinned n x) (intact n c x (\<lambda>_. True)) (io_act (on_path p exists_call))
      (\<lambda>_. intact n c x (\<lambda>_. True))"
    by (rule secured_held [OF kept.secured_on_path [where op = exists_call, OF stable_True idle]]) simp
  have "\<exists>r0. io_act (on_path p exists_call) w = Some (r0, w')"
    if "io_probe (path_exists p) w = Some (r, w')" for w :: "'z world_scheme" and r :: "'e + bool" and w'
    using that by (cases "on_path p exists_call w") (auto simp: path_exists_def split: sum.splits)
  with base show ?thesis unfolding secured_def by blast
qed

text \<open>Reading the name gives the bytes of the file that is there.\<close>

lemma secured_held_read:
  "secured (pinned (name_of c p) x) (intact (name_of c p) c x (\<lambda>_. True)) (fs_read p)
     (\<lambda>r. intact (name_of c p) c x (\<lambda>_. \<forall>d. r = Inr d \<longrightarrow> d = f_data x))"
proof -
  have "call_ok (pinned (name_of c p) x) (\<lambda>f. custody (name_of c p) f = Some x \<and> True) (read_call (name_of c p))
      (\<lambda>r f. custody (name_of c p) f = Some x \<and> (\<forall>d. r = Inr d \<longrightarrow> d = f_data x))"
    unfolding call_ok_def read_call_def by (auto simp: custody_def split: option.splits node.splits)
  from pinned.secured_on_path [where op = read_call, OF stable_held [OF stable_True] this] show ?thesis
    unfolding fs_read_def by simp
qed

text \<open>A new file is created beside the name, never at it.\<close>

lemma secured_held_create:
  "secured (pinned n x) (intact n c x (\<lambda>_. True)) (open_create_new p owner_only)
     (\<lambda>r. intact n c x (\<lambda>f. \<forall>h. r = Inr h \<longrightarrow> name_of c p \<noteq> n \<and> named h {name_of c p} (private_file []) f))"
proof (cases "name_of c p = n")
  case True
  have "call_ok (pinned n x) (\<lambda>f. custody n f = Some x \<and> True) (create_new_call n owner_only)
      (\<lambda>r f. custody n f = Some x \<and> (\<forall>h. r \<noteq> Inr h))"
    unfolding call_ok_def create_new_call_def by (auto simp: custody_def split: option.splits if_splits)
  from pinned.secured_on_path [where op = "\<lambda>n. create_new_call n owner_only" and c = c and p = p,
      unfolded True, OF stable_held [OF stable_True] this]
  show ?thesis unfolding open_create_new_def True by simp
next
  case False
  have "secured (keeps (\<lambda>_. True) n) (guarded n c (\<lambda>_. True)) (open_create_new p owner_only)
     (\<lambda>r. guarded n c (\<lambda>f. \<forall>h. r = Inr h \<longrightarrow> name_of c p \<noteq> n \<and> named h {name_of c p} (private_file []) f))"
    unfolding open_create_new_def
    by (rule secured_post [OF kept.secured_on_path [where op = "\<lambda>n. create_new_call n owner_only",
          OF stable_True call_ok_create_new [OF False]]])
      (auto simp: guarded_def private_file_def False split: sum.splits)
  from secured_held [OF this] show ?thesis .
qed

lemma secured_mkdirs:
  "secured (keeps (\<lambda>_. True) n) (guarded n c (\<lambda>_. True)) (create_dir_all p) (\<lambda>_. guarded n c (\<lambda>_. True))"
proof (cases "path_empty p")
  case False
  have "secured (keeps (\<lambda>_. True) n) (guarded n c (\<lambda>_. True)) (io_act (on_path p mkdirs_call)) (\<lambda>_. guarded n c (\<lambda>_. True))"
    by (rule kept.secured_on_path [OF stable_True call_ok_mkdirs]) simp
  with False show ?thesis by (simp add: create_dir_all_def)
qed (simp add: create_dir_all_def secured_ok)

lemma secured_held_exclusive:
  "secured (pinned n x) (intact n c x (\<lambda>_. True)) (write_exclusive p d)
     (\<lambda>r. intact n c x (\<lambda>_. r = Inr () \<longrightarrow> name_of c p \<noteq> n))"
  unfolding write_exclusive_def
proof (rule secured_bind)
  have "secured (keeps (\<lambda>_. True) n) (guarded n c (\<lambda>_. True))
      (case path_parent p of Some parent \<Rightarrow> create_dir_all parent | None \<Rightarrow> io_ok ()) (\<lambda>_. guarded n c (\<lambda>_. True))"
    by (cases "path_parent p") (simp_all add: secured_mkdirs secured_ok)
  then show "secured (pinned n x) (intact n c x (\<lambda>_. True))
      (case path_parent p of Some parent \<Rightarrow> create_dir_all parent | None \<Rightarrow> io_ok ())
      (\<lambda>_. intact n c x (\<lambda>_. True))"
    by (rule secured_held)
next
  fix u :: unit
  show "secured (pinned n x) (intact n c x (\<lambda>_. True))
      (io_bind (open_create_new p owner_only) (\<lambda>f. io_bind (write_all f d) (\<lambda>_. sync_all)))
      (\<lambda>r. intact n c x (\<lambda>_. r = Inr () \<longrightarrow> name_of c p \<noteq> n))"
  proof (rule secured_bind [OF secured_held_create])
    fix h
    show "secured (pinned n x)
        (intact n c x (\<lambda>f. \<forall>k. Inr h = (Inr k :: io_kind + nat) \<longrightarrow> name_of c p \<noteq> n \<and> named k {name_of c p} (private_file []) f))
        (io_bind (write_all h d) (\<lambda>_. sync_all))
        (\<lambda>r. intact n c x (\<lambda>_. r = Inr () \<longrightarrow> name_of c p \<noteq> n))"
    proof (cases "name_of c p = n")
      case True
      then show ?thesis by (simp add: secured_def guarded_def)
    next
      case False
      then have "n \<notin> {name_of c p}" by simp
      from secured_held [OF secured_stage [OF this, where good = "\<lambda>_. True"]]
      show ?thesis by (rule secured_conseq) (use False in \<open>auto simp: guarded_def\<close>)
    qed
  qed (auto simp: guarded_def)
qed (auto simp: guarded_def)

text \<open>A restore finds the identity and never overwrites it.\<close>

lemma secured_held_restore:
  assumes "aead_crate K" and "ct_crate K"
  shows "secured (pinned (name_of c p) x) (intact (name_of c p) c x (\<lambda>_. True))
     (restore_encrypted_backup K (IdentityVault_new p (StaticPassphraseProvider pw)) backup)
     (\<lambda>r. intact (name_of c p) c x (\<lambda>_. \<forall>out. r = Inr out \<longrightarrow>
        out = AlreadyPresent \<and> (\<exists>root. opens K pw (encrypted_bytes backup) = Some root \<and> opens K pw (f_data x) = Some root)))"
    (is "secured ?G ?P _ ?Q")
proof (rule opens_cases [OF assms(1), of "encrypted_bytes backup" pw])
  fix m
  assume "file_decrypt K (encrypted_bytes backup) pw = Some (Inl (DecryptionFailed m))"
  then have "restore_encrypted_backup K (IdentityVault_new p (StaticPassphraseProvider pw)) backup w
      = io_err BackupAuthenticationFailed w" for w :: "'a world_scheme"
    by (simp add: restore_encrypted_backup_def calm_load_bytes io_bind_def io_map_err_def
        map_backup_authentication_error_def)
  then show ?thesis
    by (rule_tac secured_cong [THEN iffD2, OF _ secured_err]) (auto simp: guarded_def)
next
  fix root
  assume d: "file_decrypt K (encrypted_bytes backup) pw = Some (Inr root)"
    "opens K pw (encrypted_bytes backup) = Some root"
  have present: "secured ?G ?P
     (io_bind (io_map_err VaultIo (fs_read p)) (\<lambda>b.
      io_bind (io_map_err (\<lambda>_. CustodyUnavailable) (io_pure (file_decrypt K b pw))) (\<lambda>s.
        if ct_eq K s root then io_ok AlreadyPresent else io_err IdentityConflict))) ?Q"
  proof (rule secured_bind [OF secured_map_err, where Q = "\<lambda>r. intact (name_of c p) c x (\<lambda>_. \<forall>b. r = Inr b \<longrightarrow> b = f_data x)"])
    show "secured ?G ?P (fs_read p) (\<lambda>r. intact (name_of c p) c x (\<lambda>_. \<forall>b. map_err VaultIo r = Inr b \<longrightarrow> b = f_data x))"
      by (rule secured_post [OF secured_held_read]) (auto simp: guarded_def map_err_def split: sum.splits)
  next
    fix b
    show "secured ?G (intact (name_of c p) c x (\<lambda>_. \<forall>b'. (Inr b :: vault_error + _) = Inr b' \<longrightarrow> b' = f_data x))
       (io_bind (io_map_err (\<lambda>_. CustodyUnavailable) (io_pure (file_decrypt K b pw))) (\<lambda>s.
          if ct_eq K s root then io_ok AlreadyPresent else io_err IdentityConflict)) ?Q"
    proof (rule opens_cases [OF assms(1), of b pw])
      fix m
      assume "file_decrypt K b pw = Some (Inl (DecryptionFailed m))"
      then show ?thesis
        by (rule_tac secured_cong [THEN iffD2, OF _ secured_err [where e = CustodyUnavailable]])
          (auto simp: io_bind_def io_map_err_def guarded_def)
    next
      fix s
      assume "file_decrypt K b pw = Some (Inr s)" "opens K pw b = Some s"
      then show ?thesis
        by (rule_tac secured_cong [THEN iffD2, OF _ secured_res
              [where r = "if ct_eq K s root then Inr AlreadyPresent else Inl IdentityConflict"]])
          (auto simp: io_bind_def io_map_err_def guarded_def d ct_crate.ct_eq_iff [OF assms(2)])
    qed
  qed (auto simp: guarded_def)
  have absent: "secured ?G ?P
     (io_bind (io_map_err h (write_exclusive p (encrypted_bytes backup))) (\<lambda>_. io_ok Restored)) ?Q" for h
    by (rule secured_bind [OF secured_map_err [OF secured_post [OF secured_held_exclusive,
            where Q' = "\<lambda>r. intact (name_of c p) c x (\<lambda>_. map_err h r \<noteq> Inr ())"]]])
      (auto simp: guarded_def map_err_def secured_def split: sum.splits)
  show ?thesis
    unfolding restore_of_sealed [OF d(1)]
    by (rule secured_bind [OF secured_held_probe], split if_split, intro conjI impI, rule present, rule absent)
      (auto simp: guarded_def)
qed

lemma secured_held_backup:
  "secured (pinned n x) (intact n c x (\<lambda>_. True)) (vault_backup self dest) (\<lambda>_. intact n c x (\<lambda>_. True))"
proof -
  have read: "secured (pinned n x) (intact n c x (\<lambda>_. True)) (io_map_err VaultIo (fs_read p)) (\<lambda>_. intact n c x (\<lambda>_. True))" for p
  proof -
    have "call_ok (keeps (\<lambda>_. True) n) (\<lambda>_. True) (read_call (name_of c p)) (\<lambda>_ _. True)"
      by (rule call_ok_idle) (simp add: idle_calls)
    from secured_held [OF kept.secured_on_path [where op = read_call, OF stable_True this]] show ?thesis
      unfolding fs_read_def by (rule_tac secured_map_err) simp
  qed
  have put: "secured (pinned n x) (intact n c x (\<lambda>_. True)) (io_map_err VaultIo (write_exclusive dest d))
      (\<lambda>_. intact n c x (\<lambda>_. True))" for d
    by (rule secured_map_err [OF secured_post [OF secured_held_exclusive]]) (simp add: guarded_def)
  have refuse: "secured (pinned n x) (intact n c x (\<lambda>_. True)) (io_err e) (\<lambda>_. intact n c x (\<lambda>_. True))"
    for e :: vault_error
    by (rule secured_err)
  have format: "secured (pinned n x) (intact n c x (\<lambda>_. True)) (io_res (encrypted_backup_format d))
      (\<lambda>_. intact n c x (\<lambda>_. True))" for d
    by (rule secured_res)
  show ?thesis
    unfolding backup_writes_exclusively
    by (rule secured_bind [OF secured_held_probe], split if_split, intro conjI impI, rule refuse,
        rule secured_bind [OF secured_held_probe], split if_split, intro conjI impI, rule refuse,
        rule secured_bind [OF read], rule secured_bind [OF format], rule put) assumption+
qed

lemma secured_held_bytes:
  assumes "\<And>bytes. bytes = f_data x \<Longrightarrow>
      secured (pinned (name_of c p) x) (intact (name_of c p) c x (\<lambda>_. True)) (g bytes) (\<lambda>r. intact (name_of c p) c x (\<lambda>_. R r))"
    and "\<And>e. R (Inl e)"
  shows "secured (pinned (name_of c p) x) (intact (name_of c p) c x (\<lambda>_. True))
     (io_bind (io_probe (path_exists p)) (\<lambda>exists.
      if \<not> exists then io_err e
      else io_bind (io_map_err h (fs_read p)) g)) (\<lambda>r. intact (name_of c p) c x (\<lambda>_. R r))"
proof (rule secured_bind [OF secured_held_probe])
  fix a
  have read: "secured (pinned (name_of c p) x) (intact (name_of c p) c x (\<lambda>_. True)) (io_map_err h (fs_read p))
     (\<lambda>r. intact (name_of c p) c x (\<lambda>_. \<forall>d. r = Inr d \<longrightarrow> d = f_data x))"
    by (rule secured_map_err [OF secured_post [OF secured_held_read]])
      (auto simp: guarded_def map_err_def split: sum.splits)
  have "secured (pinned (name_of c p) x) (intact (name_of c p) c x (\<lambda>_. True)) (io_bind (io_map_err h (fs_read p)) g)
     (\<lambda>r. intact (name_of c p) c x (\<lambda>_. R r))"
  proof (rule secured_bind [OF read])
    fix d
    show "secured (pinned (name_of c p) x) (intact (name_of c p) c x (\<lambda>_. \<forall>d'. (Inr d :: 'b + _) = Inr d' \<longrightarrow> d' = f_data x)) (g d)
       (\<lambda>r. intact (name_of c p) c x (\<lambda>_. R r))"
    proof (cases "d = f_data x")
      case True
      show ?thesis by (rule secured_pre [OF assms(1) [OF True]]) (simp add: guarded_def)
    next
      case False
      then show ?thesis by (simp add: secured_def guarded_def)
    qed
  qed (simp add: guarded_def assms(2))
  then show "secured (pinned (name_of c p) x) (intact (name_of c p) c x (\<lambda>_. True))
      (if \<not> a then io_err e else io_bind (io_map_err h (fs_read p)) g) (\<lambda>r. intact (name_of c p) c x (\<lambda>_. R r))"
    by (cases a) (auto intro!: secured_err simp: guarded_def assms(2))
qed (simp add: guarded_def assms(2))

text \<open>Code that makes no system call.\<close>

lemma secured_still:
  assumes "\<And>w r w'. m w = Some (r, w') \<Longrightarrow> w' = w \<and> R r"
  shows "secured G (intact n c x (\<lambda>_. True)) m (\<lambda>r. intact n c x (\<lambda>_. R r))"
  unfolding secured_def
proof (intro allI impI, elim conjE)
  fix w r w'
  assume "intact n c x (\<lambda>_. True) w" and "m w = Some (r, w')"
  with assms [of w r w'] show "intact n c x (\<lambda>_. R r) w' \<and> (\<exists>new. trail w' = trail w @ new
      \<and> runs G (disk w) new \<and> disk w' = last (disk w # new))"
    by (intro conjI exI [of _ "[]"]) (auto simp: guarded_def)
qed

lemma from_encrypted_bytes_Inr: "from_encrypted_bytes d = Inr b \<Longrightarrow> encrypted_bytes b = d"
  by (auto simp: from_encrypted_bytes_def bind_res_def ok_or_def split: sum.splits if_splits)

lemma io_pure_Some_iff: "io_pure m w = Some (r, w') \<longleftrightarrow> m = Some r \<and> w' = w"
  by (auto simp: io_pure_def split: option.splits)

lemma opens_Some_iff: "opens K pw d = Some root \<longleftrightarrow> file_decrypt K d pw = Some (Inr root)"
  by (auto simp: opens_def split: option.splits sum.splits)

lemma Inr_map_err_iff: "Inr a = map_err g r \<longleftrightarrow> r = Inr a"
  by (auto simp: map_err_def split: sum.splits)

lemmas still_iffs = io_iffs io_pure_Some_iff opens_Some_iff map_err_Inr_iff Inr_map_err_iff

lemma secured_held_export:
  "secured (pinned (name_of c p) x) (intact (name_of c p) c x (\<lambda>_. True))
     (export_encrypted_backup K (IdentityVault_new p (StaticPassphraseProvider pw)))
     (\<lambda>r. intact (name_of c p) c x (\<lambda>_. \<forall>b. r = Inr b \<longrightarrow>
        encrypted_bytes b = f_data x \<and> (\<exists>root. opens K pw (f_data x) = Some root)))"
  unfolding export_encrypted_backup_def vault_fields calm_load_bytes
  by (rule secured_held_bytes, rule secured_still)
    (auto simp: still_iffs dest: from_encrypted_bytes_Inr)

lemma secured_held_metadata:
  "secured (pinned (name_of c p) x) (intact (name_of c p) c x (\<lambda>_. True))
     (encrypted_backup_metadata (IdentityVault_new p provider))
     (\<lambda>r. intact (name_of c p) c x (\<lambda>_. \<forall>m. r = Inr m \<longrightarrow>
        (\<exists>b. from_encrypted_bytes (f_data x) = Inr b \<and> m = eb_metadata b)))"
  unfolding encrypted_backup_metadata_def vault_fields
  by (rule secured_held_bytes, rule secured_still) (auto simp: io_iffs)

lemma unlock_reads:
  "io_map_err VaultSigner (file_root_secret K (v_signer (IdentityVault_new p (StaticPassphraseProvider pw))))
     = io_bind (io_map_err (\<lambda>e. VaultSigner (Io e)) (fs_read p)) (\<lambda>d. io_map_err VaultSigner (io_pure (file_decrypt K d pw)))"
  by (rule ext) (auto simp: file_root_secret_def file_load_def StaticPassphraseProvider_def io_bind_def
      io_map_err_def map_err_def split: option.splits sum.splits)

lemma secured_held_unlock:
  "secured (pinned (name_of c p) x) (intact (name_of c p) c x (\<lambda>_. True))
     (vault_unlock K (IdentityVault_new p (StaticPassphraseProvider pw)))
     (\<lambda>r. intact (name_of c p) c x (\<lambda>_. \<forall>root. r = Inr root \<longrightarrow> opens K pw (f_data x) = Some root))"
  unfolding vault_unlock_def unlock_reads vault_fields
  by (rule secured_held_bytes, rule secured_still) (auto simp: still_iffs)

subsection \<open>Initialising over an identity\<close>

lemma secured_held_link:
  assumes "name_of c src \<noteq> name_of c p" and "\<not> path_empty src"
  shows "secured (pinned (name_of c p) x) (intact (name_of c p) c x (named h {name_of c src} y))
     (hard_link src p)
     (\<lambda>r. intact (name_of c p) c x (\<lambda>f. r \<noteq> Inr () \<and> named h {name_of c src} y f))"
proof -
  have "call_ok (pinned (name_of c p) x) (\<lambda>f. custody (name_of c p) f = Some x \<and> named h {name_of c src} y f)
      (link_call (name_of c src) (name_of c p))
      (\<lambda>r f. custody (name_of c p) f = Some x \<and> r \<noteq> Inr () \<and> named h {name_of c src} y f)"
    unfolding call_ok_def link_call_def by (auto simp: custody_def split: option.splits node.splits if_splits)
  from pinned.secured_on_path [where op = "link_call (name_of c src)", OF stable_held [OF stable_named] this]
  have "secured (pinned (name_of c p) x) (intact (name_of c p) c x (named h {name_of c src} y))
     (io_act (on_path p (link_call (name_of c src))))
     (\<lambda>r. intact (name_of c p) c x (\<lambda>f. r \<noteq> Inr () \<and> named h {name_of c src} y f))"
    by simp
  then show ?thesis
    by (rule secured_cong [THEN iffD1, rotated]) (simp add: hard_link_def assms(2) guarded_def resolve_name_of)
qed

lemma secured_held_install:
  assumes "name_of c staging \<noteq> name_of c p" and "\<not> path_empty staging"
  shows "secured (pinned (name_of c p) x) (intact (name_of c p) c x (named h {name_of c staging} (private_file [])))
     (install_staged p parent staging h d) (\<lambda>r. intact (name_of c p) c x (\<lambda>_. r \<noteq> Inr ()))"
    (is "secured ?G _ _ ?R")
proof -
  let ?n = "name_of c p" and ?s = "name_of c staging"
  have removed: "secured ?G (intact ?n c x (named h {?s} (private_file e))) (remove_file staging)
      (\<lambda>_. intact ?n c x (\<lambda>_. True))" for e
    by (rule secured_post [OF secured_held [OF secured_remove [OF assms(1)]]]) (auto simp: guarded_def)
  have failed: "secured ?G (intact ?n c x (\<lambda>f. \<exists>e. named h {?s} (private_file e) f))
      (io_try (remove_file staging) (\<lambda>_. io_err (Io k))) ?R" for k
  proof (rule secured_try)
    show "secured ?G (intact ?n c x (\<lambda>f. \<exists>e. named h {?s} (private_file e) f)) (remove_file staging)
        (\<lambda>_. intact ?n c x (\<lambda>_. True))"
      by (rule secured_pre [OF secured_exI [OF removed]]) (auto simp: guarded_def)
  qed (rule secured_err, simp add: guarded_def)
  have linked: "secured ?G (intact ?n c x (\<lambda>f. installed \<noteq> Inr () \<and> named h {?s} (private_file d) f))
      (io_try (remove_file staging) (\<lambda>_.
       io_bind (io_res (map_err Io installed)) (\<lambda>_.
       io_bind (io_map_err Io (file_open parent)) (\<lambda>_. io_map_err Io sync_all)))) ?R"
    for installed :: "io_kind + unit"
  proof (cases installed)
    case (Inl k)
    have "secured ?G (intact ?n c x (\<lambda>_. True)) (io_bind (io_res (Inl (Io k))) g) ?R" for g :: "unit \<Rightarrow> _"
      by (rule secured_cong [THEN iffD2, OF _ secured_err [where e = "Io k"]])
        (auto simp: io_bind_def guarded_def)
    then show ?thesis
      using Inl by (auto intro!: secured_try [OF removed])
  qed (simp add: secured_def guarded_def)
  show ?thesis
    unfolding install_staged_def
  proof (rule secured_try [OF secured_held [OF secured_stage]])
    show "?n \<notin> {?s}" using assms(1) by simp
    fix staged :: "io_kind + unit"
    show "secured ?G
       (intact ?n c x (\<lambda>f. case staged of Inl _ \<Rightarrow> \<exists>e. named h {?s} (private_file e) f
                        | Inr _ \<Rightarrow> named h {?s} (private_file d) f))
       (case staged of
          Inl e \<Rightarrow> io_try (remove_file staging) (\<lambda>_. io_err (Io e))
        | Inr _ \<Rightarrow>
            io_try (hard_link staging p) (\<lambda>installed.
            io_try (remove_file staging) (\<lambda>_.
            io_bind (io_res (map_err Io installed)) (\<lambda>_.
            io_bind (io_map_err Io (file_open parent)) (\<lambda>_. io_map_err Io sync_all))))) ?R"
      using failed secured_try [OF secured_held_link [OF assms] linked] by (cases staged) simp_all
  qed
qed

lemma secured_held_init:
  assumes "has_name p"
  shows "secured (pinned (name_of c p) x) (intact (name_of c p) c x (\<lambda>_. True))
     (vault_init K (IdentityVault_new p provider) pw) (\<lambda>r. intact (name_of c p) c x (\<lambda>_. r \<noteq> Inr ()))"
    (is "secured ?G ?P _ _")
proof -
  let ?n = "name_of c p" and ?parent = "identity_parent p"
  have fill: "secured ?G ?P (fill_bytes k :: ('a world_scheme, signer_error, byte list) io) (\<lambda>_. ?P)" for k
    by (rule pinned.secured_fill_bytes [OF stable_held [OF stable_True]])
  have encrypt: "secured ?G ?P (encrypt_root_secret K root pw) (\<lambda>_. ?P)" for root
    unfolding encrypt_root_secret_def
    by (rule secured_bind [OF fill], rule secured_bind [OF fill], rule secured_res)
  have mkdir: "secured ?G ?P (io_map_err Io (create_dir_all ?parent)) (\<lambda>_. ?P)"
    by (rule secured_map_err [OF secured_held [OF secured_mkdirs]])
  have install: "secured ?G ?P
      (io_bind (io_map_err Io (open_create_new (staging_path K p ?parent suffix) owner_only)) (\<lambda>handle.
       install_staged p ?parent (staging_path K p ?parent suffix) handle d))
      (\<lambda>r. intact ?n c x (\<lambda>_. r \<noteq> Inr ()))" for suffix d
  proof -
    let ?st = "staging_path K p ?parent suffix"
    have differs: "name_of c ?st \<noteq> ?n" by (rule staging_differs [OF assms])
    have nonempty: "\<not> path_empty ?st"
      by (simp add: path_empty_def staging_path_def path_join_def Let_def)
    have opened: "secured ?G ?P (io_map_err Io (open_create_new ?st owner_only))
        (\<lambda>r. intact ?n c x (\<lambda>f. \<forall>h. r = Inr h \<longrightarrow> named h {name_of c ?st} (private_file []) f))"
      by (rule secured_map_err [OF secured_post [OF secured_held_create]])
        (auto simp: guarded_def map_err_Inr_iff)
    show ?thesis
    proof (rule secured_bind [OF opened])
      fix h
      show "secured ?G (intact ?n c x (\<lambda>f. \<forall>k. Inr h = (Inr k :: signer_error + nat) \<longrightarrow>
          named k {name_of c ?st} (private_file []) f)) (install_staged p ?parent ?st h d)
          (\<lambda>r. intact ?n c x (\<lambda>_. r \<noteq> Inr ()))"
        by (rule secured_pre [OF secured_held_install [OF differs nonempty]]) (auto simp: guarded_def)
    qed (simp add: guarded_def)
  qed
  have generate: "secured ?G ?P (file_generate K (v_signer (IdentityVault_new p provider)) pw)
      (\<lambda>r. intact ?n c x (\<lambda>_. r \<noteq> Inr ()))"
    unfolding file_generate_def save_exclusive_def Let_def vault_fields
    by (rule secured_bind [OF fill], rule secured_bind [OF encrypt], rule secured_bind [OF mkdir],
        rule secured_bind [OF fill], rule install) (simp_all add: guarded_def)
  show ?thesis
    unfolding vault_init_def
  proof (rule secured_try [OF generate])
    fix r :: "signer_error + unit"
    show "secured ?G (intact ?n c x (\<lambda>_. r \<noteq> Inr ()))
      (case r of Inr _ \<Rightarrow> io_ok () | Inl (Io AlreadyExists) \<Rightarrow> io_err (Vault_AlreadyExists (path_display (v_path (IdentityVault_new p provider))))
         | Inl e \<Rightarrow> io_err (VaultSigner e)) (\<lambda>r. intact ?n c x (\<lambda>_. r \<noteq> Inr ()))"
      by (cases r) (auto intro!: secured_err simp: guarded_def secured_def
          split: signer_error.splits io_kind.splits intro: exI [of _ "[]"])
  qed
qed

subsection \<open>Every session\<close>

text \<open>What a reply may say while the file \<open>x\<close> holds the identity's name.\<close>

fun reply_sound :: "crates \<Rightarrow> fs_file \<Rightarrow> byte list \<times> request \<times> reply \<Rightarrow> bool" where
  "reply_sound K x (pw, q, Initialized) \<longleftrightarrow> False"
| "reply_sound K x (pw, q, BackedUp) \<longleftrightarrow> (\<exists>dest. q = Request_backup dest)"
| "reply_sound K x (pw, q, Exported b) \<longleftrightarrow>
     q = Request_export \<and> encrypted_bytes b = f_data x \<and> (\<exists>root. opens K pw (f_data x) = Some root)"
| "reply_sound K x (pw, q, Described m) \<longleftrightarrow>
     q = Request_metadata \<and> (\<exists>b. from_encrypted_bytes (f_data x) = Inr b \<and> m = eb_metadata b)"
| "reply_sound K x (pw, q, Recovered out) \<longleftrightarrow>
     (\<exists>b root. q = Request_restore b \<and> out = AlreadyPresent
        \<and> opens K pw (encrypted_bytes b) = Some root \<and> opens K pw (f_data x) = Some root)"
| "reply_sound K x (pw, q, Unlocked root) \<longleftrightarrow> q = Request_unlock \<and> opens K pw (f_data x) = Some root"
| "reply_sound K x (pw, q, Refused e) \<longleftrightarrow> True"

lemma secured_reply:
  assumes "secured G P m (\<lambda>r. intact n c x (\<lambda>_. R r))" and "P w" and "reply_with g m w = Some (a, w')"
    and "\<And>e. S (Refused e)" and "\<And>y. R (Inr y) \<Longrightarrow> S (g y)"
  shows "S a \<and> intact n c x (\<lambda>_. True) w'
    \<and> (\<exists>new. trail w' = trail w @ new \<and> runs G (disk w) new \<and> disk w' = last (disk w # new))"
proof -
  from assms(3) obtain r where r: "m w = Some (r, w')" "a = case_sum Refused g r"
    by (auto simp: reply_with_def)
  with assms(1,2) have "intact n c x (\<lambda>_. R r) w'"
    and new: "\<exists>new. trail w' = trail w @ new \<and> runs G (disk w) new \<and> disk w' = last (disk w # new)"
    unfolding secured_def by blast+
  then have "R r" "intact n c x (\<lambda>_. True) w'" by (simp_all add: guarded_def)
  moreover from this(1) have "S a" using assms(4,5) by (cases r) (simp_all add: r(2))
  ultimately show ?thesis using new by blast
qed

lemma vault_call_sound:
  assumes "aead_crate K" and "ct_crate K" and "has_name p" and "intact (name_of c p) c x (\<lambda>_. True) w"
    and "vault_call K (IdentityVault_new p (StaticPassphraseProvider pw)) q w = Some (a, w')"
  shows "reply_sound K x (pw, q, a) \<and> intact (name_of c p) c x (\<lambda>_. True) w'
    \<and> (\<exists>new. trail w' = trail w @ new \<and> runs (pinned (name_of c p) x) (disk w) new \<and> disk w' = last (disk w # new))"
proof (cases q)
  case (Request_init pw')
  show ?thesis
    by (rule secured_reply [OF secured_held_init [OF assms(3)] assms(4) assms(5) [unfolded Request_init vault_call.simps]])
      simp_all
next
  case (Request_backup dest)
  show ?thesis
    by (rule secured_reply [OF secured_held_backup assms(4) assms(5) [unfolded Request_backup vault_call.simps]])
      (simp_all add: Request_backup)
next
  case Request_export
  show ?thesis
    by (rule secured_reply [OF secured_held_export assms(4) assms(5) [unfolded Request_export vault_call.simps]])
      (simp_all add: Request_export)
next
  case Request_metadata
  show ?thesis
    by (rule secured_reply [OF secured_held_metadata assms(4) assms(5) [unfolded Request_metadata vault_call.simps]])
      (simp_all add: Request_metadata)
next
  case (Request_restore b)
  show ?thesis
    by (rule secured_reply [OF secured_held_restore [OF assms(1,2)] assms(4)
          assms(5) [unfolded Request_restore vault_call.simps]])
      (simp_all add: Request_restore)
next
  case Request_unlock
  show ?thesis
    by (rule secured_reply [OF secured_held_unlock assms(4) assms(5) [unfolded Request_unlock vault_call.simps]])
      (simp_all add: Request_unlock)
qed

subsection \<open>Every call returns\<close>

text \<open>The draws from the system's generator by an \<^verbatim>\<open>init\<close>, counted in calls: root, salt, nonce, suffix.\<close>

definition rng_calls :: "path \<Rightarrow> nat set" where
  "rng_calls p = {0, 1, 2, if path_empty (identity_parent p) then 3 else 4}"

lemma fill_bytes_returns:
  assumes "faults w (calls w) = None"
  shows "\<exists>b w'. fill_bytes k w = Some (Inr b, w') \<and> calls w' = calls w + 1 \<and> faults w' = faults w"
  using assms by (simp add: fill_bytes_def Let_def)

lemma mkdirs_returns:
  "\<exists>r w'. create_dir_all p w = Some (r, w') \<and> faults w' = faults w
     \<and> calls w' = calls w + (if path_empty p then 0 else 1)"
  by (simp add: create_dir_all_def on_path_def syscall_def Let_def split: prod.split)

definition returns :: "('w, 'e, 'a) io \<Rightarrow> bool" where
  "returns m \<longleftrightarrow> (\<forall>w. m w \<noteq> None)"

lemma returnsD: "returns m \<Longrightarrow> m w \<noteq> None"
  by (simp add: returns_def)

lemma returns_bind [intro]: "returns m \<Longrightarrow> (\<And>a. returns (g a)) \<Longrightarrow> returns (io_bind m g)"
  by (auto simp: returns_def io_bind_None_iff)

lemma returns_try [intro]: "returns m \<Longrightarrow> (\<And>r. returns (g r)) \<Longrightarrow> returns (io_try m g)"
  by (auto simp: returns_def io_try_None_iff)

lemma returns_map_err [intro]: "returns m \<Longrightarrow> returns (io_map_err g m)"
  by (simp add: returns_def io_map_err_None_iff)

lemma returns_basic [intro]:
  "returns (io_ok a)" "returns (io_err e)" "returns (io_res r)" "returns (io_probe q)" "returns (io_pure (Some r))"
  "returns (fs_read p)" "returns (create_dir_all p)" "returns (open_create_new p m)"
  "returns (write_all h d)" "returns sync_all" "returns (file_open p)" "returns (remove_file p)"
  "returns (hard_link p p')"
  by (simp_all add: returns_def fs_read_def create_dir_all_def open_create_new_def write_all_def sync_all_def
      file_open_def remove_file_def hard_link_def)

lemma returns_install [intro]: "returns (install_staged p parent staging h d)"
  unfolding install_staged_def
  by (intro returns_try) (auto intro!: returns_try returns_bind returns_map_err returns_basic split: sum.split)

lemma generate_returns:
  fixes w :: "'z world_scheme"
  assumes "\<And>k. k \<in> rng_calls (fsg_path self) \<Longrightarrow> faults w (calls w + k) = None"
  shows "file_generate K self pw w \<noteq> None"
proof -
  have draws: "faults w (calls w) = None" "faults w (calls w + 1) = None" "faults w (calls w + 2) = None"
    using assms [of 0] assms [of 1] assms [of 2] by (simp_all add: rng_calls_def)
  obtain root w1 where w1: "fill_bytes SECRET_LEN w = Some (Inr root :: signer_error + _, w1)"
    "calls w1 = calls w + 1" "faults w1 = faults w"
    using fill_bytes_returns [OF draws(1)] by blast
  obtain salt w2 where w2: "fill_bytes SALT_LEN w1 = Some (Inr salt :: signer_error + _, w2)"
    "calls w2 = calls w + 2" "faults w2 = faults w"
    using fill_bytes_returns [of w1 SALT_LEN] draws(2) w1 by auto
  obtain nonce w3 where w3: "fill_bytes NONCE_LEN w2 = Some (Inr nonce :: signer_error + _, w3)"
    "calls w3 = calls w + 3" "faults w3 = faults w"
    using fill_bytes_returns [of w2 NONCE_LEN] draws(3) w2 by (auto simp: eval_nat_numeral)
  let ?parent = "identity_parent (fsg_path self)"
  obtain r w4 where w4: "create_dir_all ?parent w3 = Some (r, w4)" "faults w4 = faults w"
    "calls w4 = calls w + (if path_empty ?parent then 3 else 4)"
    using mkdirs_returns [of ?parent w3] w3 by auto
  have "faults w4 (calls w4) = None" using assms [of "if path_empty ?parent then 3 else 4"] w4
    by (simp add: rng_calls_def)
  then obtain suffix w5 where w5: "fill_bytes 8 w4 = Some (Inr suffix :: signer_error + _, w5)"
    using fill_bytes_returns by blast
  have rest: "io_bind (io_map_err Io (open_create_new (staging_path K (fsg_path self) ?parent suffix) owner_only)) (\<lambda>handle.
       install_staged (fsg_path self) ?parent (staging_path K (fsg_path self) ?parent suffix) handle d) w5 \<noteq> None" for d
    by (rule returnsD) (intro returns_bind returns_map_err returns_basic returns_install)
  show ?thesis
    using w1(1) w2(1) w3(1) w4(1) w5 rest
    by (cases r; cases "seal_root K root pw salt nonce")
      (simp_all add: file_generate_def save_exclusive_def encrypt_root_secret_def io_bind_eval io_map_err_eval Let_def)
qed

lemma reply_returns: "m w \<noteq> None \<Longrightarrow> \<exists>a w'. reply_with g m w = Some (a, w')"
  by (auto simp: reply_with_def)

lemma returns_decrypt: "aead_crate K \<Longrightarrow> returns (io_pure (file_decrypt K d pw))"
  using aead_crate.file_decrypt_total [of K d pw] by auto


subsection \<open>The abstract machine\<close>

text \<open>
  What the vault promises, without a file system: its state is the bytes of the identity file, if
  there is one.  Only an \<^verbatim>\<open>init\<close>, which draws the bytes, is not determined by the state.
\<close>

inductive custody_step ::
  "crates \<Rightarrow> path \<Rightarrow> byte list \<times> request \<times> reply \<Rightarrow> byte list option \<Rightarrow> byte list option \<Rightarrow> bool"
  for K p where
  init_new: "length root = 32 \<Longrightarrow> opens K pw' d = Some root \<Longrightarrow>
    custody_step K p (pw, Request_init pw', Initialized) None (Some d)"
| init_again: "custody_step K p (pw, Request_init pw', Refused (Vault_AlreadyExists (path_display p))) (Some d) (Some d)"
| missing: "q \<in> {Request_export, Request_metadata, Request_unlock} \<Longrightarrow>
    custody_step K p (pw, q, Refused (NotInitialized (path_display p))) None None"
| unlock: "opens K pw d = Some root \<Longrightarrow> custody_step K p (pw, Request_unlock, Unlocked root) (Some d) (Some d)"
| locked: "opens K pw d = None \<Longrightarrow>
    custody_step K p (pw, Request_unlock, Refused (VaultSigner (DecryptionFailed m))) (Some d) (Some d)"
| describe: "from_encrypted_bytes d = Inr b \<Longrightarrow>
    custody_step K p (pw, Request_metadata, Described (eb_metadata b)) (Some d) (Some d)"
| export: "from_encrypted_bytes d = Inr b \<Longrightarrow> opens K pw d = Some root \<Longrightarrow>
    custody_step K p (pw, Request_export, Exported b) (Some d) (Some d)"
| export_locked: "from_encrypted_bytes d = Inr b \<Longrightarrow> opens K pw d = None \<Longrightarrow>
    custody_step K p (pw, Request_export, Refused BackupAuthenticationFailed) (Some d) (Some d)"
| malformed: "from_encrypted_bytes d = Inl e \<Longrightarrow> q \<in> {Request_export, Request_metadata} \<Longrightarrow>
    custody_step K p (pw, q, Refused e) (Some d) (Some d)"
| restore_locked: "opens K pw (encrypted_bytes b) = None \<Longrightarrow>
    custody_step K p (pw, Request_restore b, Refused BackupAuthenticationFailed) s s"
| restore_new: "opens K pw (encrypted_bytes b) = Some root \<Longrightarrow>
    custody_step K p (pw, Request_restore b, Recovered Restored) None (Some (encrypted_bytes b))"
| restore_same: "opens K pw (encrypted_bytes b) = Some root \<Longrightarrow> opens K pw d = Some root \<Longrightarrow>
    custody_step K p (pw, Request_restore b, Recovered AlreadyPresent) (Some d) (Some d)"
| restore_other: "opens K pw (encrypted_bytes b) = Some root \<Longrightarrow> opens K pw d = Some root' \<Longrightarrow> root' \<noteq> root \<Longrightarrow>
    custody_step K p (pw, Request_restore b, Refused IdentityConflict) (Some d) (Some d)"
| restore_sealed: "opens K pw (encrypted_bytes b) = Some root \<Longrightarrow> opens K pw d = None \<Longrightarrow>
    custody_step K p (pw, Request_restore b, Refused CustodyUnavailable) (Some d) (Some d)"

inductive custody_run ::
  "crates \<Rightarrow> path \<Rightarrow> (byte list \<times> request \<times> reply) list \<Rightarrow> byte list option \<Rightarrow> byte list option \<Rightarrow> bool"
  for K p where
  idle: "custody_run K p [] s s"
| snoc: "custody_run K p log s s1 \<Longrightarrow> custody_step K p e s1 s2 \<Longrightarrow> custody_run K p (log @ [e]) s s2"

inductive_cases held_stepE: "custody_step K p e (Some d) s"
inductive_cases unlock_stepE: "custody_step K p (pw, Request_unlock, a) s s'"

lemma held_step: "custody_step K p e (Some d) s \<Longrightarrow> s = Some d"
  by (erule held_stepE) simp_all

lemma held_run: "custody_run K p log s s' \<Longrightarrow> s = Some d \<Longrightarrow> s' = Some d"
  by (induction rule: custody_run.induct) (auto dest: held_step)

text \<open>The state of the machine that a disk stands for.\<close>

definition holds_bytes :: "string list \<Rightarrow> fs \<Rightarrow> byte list option \<Rightarrow> bool" where
  "holds_bytes n f s \<longleftrightarrow>
     (case s of None \<Rightarrow> nodes f n = None | Some d \<Rightarrow> \<exists>i. nodes f n = Some (File i) \<and> f_data (inodes f ! i) = d)"

fun calm_request :: "request \<Rightarrow> bool" where
  "calm_request (Request_init pw) = (length pw < 2 ^ 32)"
| "calm_request (Request_backup _) = False"
| "calm_request _ = True"

lemma calm_reading:
  assumes "reachable p w" and "holds_bytes (name_of (cwd w) p) (disk w) s" and "\<And>d w. g d w = Some (R d, w)"
  shows "\<exists>w'. (io_bind (io_probe (path_exists p)) (\<lambda>exists.
      if \<not> exists then io_err (NotInitialized (path_display p))
      else io_bind (io_map_err h (fs_read p)) g)) w
    = Some (case s of None \<Rightarrow> Inl (NotInitialized (path_display p)) | Some d \<Rightarrow> R d, w') \<and> calm_after w (disk w) w'"
proof -
  obtain w1 where w1: "path_exists p w = (nodes (disk w) (name_of (cwd w) p) \<noteq> None, w1)"
    and a1: "calm_after w (disk w) w1"
    using calm_exists [OF reachable_calm(1,2) [OF assms(1)]] reachable_calm(3) [OF assms(1)] by auto
  then have c1: "disk w1 = disk w" "cwd w1 = cwd w" by (simp_all add: calm_after_def)
  show ?thesis
  proof (cases s)
    case None
    with assms(2) w1 a1 show ?thesis
      by (intro exI [of _ w1]) (simp add: holds_bytes_def io_bind_def)
  next
    case (Some d)
    with assms(2) obtain i where i: "nodes (disk w) (name_of (cwd w) p) = Some (File i)" "f_data (inodes (disk w) ! i) = d"
      by (auto simp: holds_bytes_def)
    obtain w2 where w2: "fs_read p w1 = Some (Inr d, w2)" "calm_after w1 (disk w) w2"
      using calm_read_any [OF reachable_same [OF assms(1) a1]] i unfolding c1 by (auto simp: read_result_def)
    from w1 w2 i Some assms(3) calm_after_trans [OF a1 w2(2)] show ?thesis
      by (intro exI [of _ w2]) (simp add: io_bind_def io_map_err_def)
  qed
qed

lemma ready_same: "ready K p w \<Longrightarrow> calm_after w (disk w) w' \<Longrightarrow> ready K p w'"
  using reachable_same [of p w w'] unfolding ready_def calm_after_def by metis

lemma free_parent:
  assumes "reachable p w" and "nodes (disk w) (name_of (cwd w) p) = None"
  shows "nodes (with_parent p w) (name_of (cwd w) p) = None"
proof -
  obtain l where "name_of (cwd w) p = name_of (cwd w) (identity_parent p) @ [l]"
    using reachable_name [OF assms(1)] by blast
  with assms(2) show ?thesis by (simp add: nodes_with_parent)
qed

lemma installed_holds_bytes:
  assumes "reachable p w" and "holds_bytes (name_of (cwd w) p) (disk w) s"
  shows "holds_bytes (name_of (cwd w) p) (installed_at (name_of (cwd w) p) d (with_parent p w))
     (Some (case s of None \<Rightarrow> d | Some d0 \<Rightarrow> d0))"
proof (cases s)
  case None
  then have "nodes (with_parent p w) (name_of (cwd w) p) = None"
    using assms by (intro free_parent) (simp_all add: holds_bytes_def)
  from custody_installed [OF this, of d] None show ?thesis by (simp add: holds_bytes_def)
next
  case (Some d0)
  with assms(2) obtain i where i: "nodes (disk w) (name_of (cwd w) p) = Some (File i)" "f_data (inodes (disk w) ! i) = d0"
    by (auto simp: holds_bytes_def)
  have "i < length (inodes (disk w))" using assms(1) i(1) by (auto simp: reachable_def wf_fs_def)
  moreover have "nodes (with_parent p w) (name_of (cwd w) p) = Some (File i)"
    using nodes_with_parent_cases [of p w "name_of (cwd w) p"] i(1) by simp
  ultimately show ?thesis using i(2) Some by (simp add: holds_bytes_def installed_at_def nth_append)
qed

text \<open>What each reading call answers from the bytes.\<close>

definition export_reply :: "crates \<Rightarrow> byte list \<Rightarrow> byte list \<Rightarrow> vault_error + encrypted_backup" where
  "export_reply K pw d = bind_res (from_encrypted_bytes d) (\<lambda>b.
     if opens K pw d = None then Inl BackupAuthenticationFailed else Inr b)"

lemma calm_export_reply:
  assumes "aead_crate K" and "reachable p w" and "holds_bytes (name_of (cwd w) p) (disk w) s"
  shows "\<exists>w'. export_encrypted_backup K (IdentityVault_new p (StaticPassphraseProvider pw)) w
    = Some (case s of None \<Rightarrow> Inl (NotInitialized (path_display p)) | Some d \<Rightarrow> export_reply K pw d, w')
    \<and> calm_after w (disk w) w'"
  unfolding export_encrypted_backup_def vault_fields calm_load_bytes
proof (rule calm_reading [OF assms(2,3)])
  fix d :: "byte list" and w :: "'a world_scheme"
  show "io_bind (io_res (from_encrypted_bytes d)) (\<lambda>backup.
      io_bind (io_map_err map_backup_authentication_error (io_pure (file_decrypt K (encrypted_bytes backup) pw)))
        (\<lambda>_. io_ok backup)) w = Some (export_reply K pw d, w)"
    by (rule opens_cases [OF assms(1), of d pw]; cases "from_encrypted_bytes d")
      (auto simp: export_reply_def io_bind_def io_map_err_def map_backup_authentication_error_def
        dest: from_encrypted_bytes_Inr)
qed

lemma calm_metadata_reply:
  assumes "reachable p w" and "holds_bytes (name_of (cwd w) p) (disk w) s"
  shows "\<exists>w'. encrypted_backup_metadata (IdentityVault_new p provider) w
    = Some (case s of None \<Rightarrow> Inl (NotInitialized (path_display p))
        | Some d \<Rightarrow> bind_res (from_encrypted_bytes d) (\<lambda>b. Inr (eb_metadata b)), w')
    \<and> calm_after w (disk w) w'"
  unfolding encrypted_backup_metadata_def vault_fields
  by (rule calm_reading [OF assms]) (simp add: io_bind_def bind_res_def split: sum.split)

lemma calm_unlock_reply:
  assumes "aead_crate K" and "reachable p w" and "holds_bytes (name_of (cwd w) p) (disk w) s"
  shows "\<exists>w'. vault_unlock K (IdentityVault_new p (StaticPassphraseProvider pw)) w
    = Some (case s of None \<Rightarrow> Inl (NotInitialized (path_display p))
        | Some d \<Rightarrow> map_err VaultSigner (the (file_decrypt K d pw)), w')
    \<and> calm_after w (disk w) w'"
  unfolding vault_unlock_def vault_fields unlock_reads
proof (rule calm_reading [OF assms(2,3)])
  fix d :: "byte list" and w :: "'a world_scheme"
  show "io_map_err VaultSigner (io_pure (file_decrypt K d pw)) w = Some (map_err VaultSigner (the (file_decrypt K d pw)), w)"
    using aead_crate.file_decrypt_total [OF assms(1), of d pw] by (auto simp: io_map_err_def)
qed

lemma step_of_reading:
  assumes "\<exists>w1. m w = Some (r, w1) \<and> calm_after w (disk w) w1" and "reply_with g m w = Some (a, w')"
  shows "a = case_sum Refused g r \<and> calm_after w (disk w) w'"
  using assms by (auto simp: reply_with_def)

lemma custody_step_ok:
  fixes w :: "'z world_scheme"
  assumes "aead_crate K" and "ct_crate K" and "ready K p w" and "\<not> path_empty (identity_parent p)"
    and "holds_bytes (name_of (cwd w) p) (disk w) s" and "calm_request q"
    and "vault_call K (IdentityVault_new p (StaticPassphraseProvider pw)) q w = Some (a, w')"
  shows "\<exists>s'. custody_step K p (pw, q, a) s s' \<and> holds_bytes (name_of (cwd w) p) (disk w') s'
    \<and> ready K p w' \<and> cwd w' = cwd w"
proof -
  let ?n = "name_of (cwd w) p" and ?v = "IdentityVault_new p (StaticPassphraseProvider pw) :: 'z world_scheme identity_vault"
  have reach: "reachable p w" using assms(3) by (simp add: ready_def)
  have still: ?thesis if "calm_after w (disk w) w'" and "custody_step K p (pw, q, a) s s"
    using that assms(5) ready_same [OF assms(3) that(1)] by (intro exI [of _ s]) (simp add: calm_after_def)
  have installed: ?thesis if "calm_after w (installed_at ?n d (with_parent p w)) w'"
      and "custody_step K p (pw, q, a) s (Some (case s of None \<Rightarrow> d | Some d0 \<Rightarrow> d0))" for d
    using that installed_holds_bytes [OF reach assms(5), of d] ready_installed [OF assms(3) that(1)]
    by (intro exI) (auto simp: calm_after_def)
  show ?thesis
  proof (cases q)
    case (Request_init pw')
    with assms(6) have "length pw' < 2 ^ 32" by simp
    from calm_init [OF assms(1,3) this assms(4), of "StaticPassphraseProvider pw"] obtain d root w1 where
      d: "length root = 32" "opens K pw' d = Some root"
      and run: "vault_init K ?v pw' w = Some (if nodes (disk w) ?n \<noteq> None
          then Inl (Vault_AlreadyExists (path_display p)) else Inr (), w1)"
      and after: "calm_after w (installed_at ?n d (with_parent p w)) w1" by blast
    have "w' = w1" "a = (if nodes (disk w) ?n \<noteq> None then Refused (Vault_AlreadyExists (path_display p)) else Initialized)"
      using assms(7) run by (auto simp: Request_init reply_with_def)
    with after d assms(5) show ?thesis
      by (intro installed [of d]) (auto simp: Request_init holds_bytes_def intro: custody_step.intros split: option.splits)
  next
    case Request_export
    from step_of_reading [OF calm_export_reply [OF assms(1) reach assms(5)] assms(7) [unfolded Request_export vault_call.simps]]
    show ?thesis
      by (intro still; cases s)
        (auto simp: Request_export export_reply_def bind_res_def intro: custody_step.intros split: sum.splits)
  next
    case Request_metadata
    from step_of_reading [OF calm_metadata_reply [OF reach assms(5)] assms(7) [unfolded Request_metadata vault_call.simps]]
    show ?thesis
      by (intro still; cases s)
        (auto simp: Request_metadata bind_res_def intro: custody_step.intros split: sum.splits)
  next
    case Request_unlock
    from step_of_reading [OF calm_unlock_reply [OF assms(1) reach assms(5)] assms(7) [unfolded Request_unlock vault_call.simps]]
    have a: "a = (case s of None \<Rightarrow> Refused (NotInitialized (path_display p))
        | Some d \<Rightarrow> case_sum Refused Unlocked (map_err VaultSigner (the (file_decrypt K d pw))))"
      and after: "calm_after w (disk w) w'" by (simp_all split: option.splits)
    have "custody_step K p (pw, q, a) s s"
    proof (cases s)
      case (Some d)
      show ?thesis
        by (rule opens_cases [OF assms(1), of d pw])
          (auto simp: a Some Request_unlock intro: custody_step.intros)
    qed (auto simp: a Request_unlock intro: custody_step.intros)
    with after show ?thesis by (rule_tac still)
  next
    case (Request_restore b)
    let ?r = "restore_decision K pw (encrypted_bytes b) (nodes (disk w) ?n) (disk w)"
    from calm_restore [OF assms(1,2) reach, of pw b] assms(7)
    have a: "a = case_sum Refused Recovered ?r"
      and after: "calm_after w (if ?r = Inr Restored then installed_at ?n (encrypted_bytes b) (with_parent p w) else disk w) w'"
      by (auto simp: Request_restore reply_with_def)
    show ?thesis
    proof (cases s)
      case None
      with assms(5) have "nodes (disk w) ?n = None" by (simp add: holds_bytes_def)
      with after a None show ?thesis
        by (cases "opens K pw (encrypted_bytes b)"; intro installed [of "encrypted_bytes b"] still)
          (auto simp: Request_restore restore_decision_def intro: custody_step.intros)
    next
      case (Some d)
      with assms(5) obtain i where "nodes (disk w) ?n = Some (File i)" "f_data (inodes (disk w) ! i) = d"
        by (auto simp: holds_bytes_def)
      with after a Some show ?thesis
        by (intro still) (auto simp: Request_restore restore_decision_def intro: custody_step.intros
            split: option.splits if_splits)
    qed
  qed (use assms(6) in simp)
qed

subsection \<open>Properties\<close>

text \<open>
  C3: No session can lose or replace an identity.  From a world where a file holds the vault's name,
  whatever calls are made in whatever order and under whatever passphrases, whichever system calls
  fail at whatever point and whatever other processes do beside that file and the
  files of this program, every state the session
  passes through still has the same file, bytes and mode, under the name; and the replies of success
  are true of it: no \<^verbatim>\<open>init\<close> succeeds, an export gives its bytes, an unlock the root it opens to, and a restore
  only ever reports a backup of the same root as present.
\<close>

theorem sessions_keep_the_identity:
  assumes "aead_crate K" and "ct_crate K" and "has_name p"
    and "guarded (resolve w p) (cwd w) (\<lambda>f. custody (resolve w p) f = Some x) w"
    and "vault_session K p w log w'"
  shows "\<exists>states. trail w' = trail w @ states \<and> disk w' = last (disk w # states)
     \<and> (\<forall>f \<in> set states. custody (resolve w p) f = Some x)
     \<and> (\<forall>e \<in> set log. reply_sound K x e)"
proof -
  define n c where "n = name_of (cwd w) p" and "c = cwd w"
  have here: "resolve w p = n" "name_of c p = n" by (simp_all add: n_def c_def resolve_name_of)
  have start: "intact n c x (\<lambda>_. True) w" using assms(4) by (simp add: here c_def)
  from assms(5) have "(\<forall>e \<in> set log. reply_sound K x e) \<and> intact n c x (\<lambda>_. True) w'
      \<and> (\<exists>states. trail w' = trail w @ states \<and> runs (pinned n x) (disk w) states \<and> disk w' = last (disk w # states))"
  proof (induction rule: vault_session.induct)
    case opened
    from start show ?case by (intro conjI exI [of _ "[]"]) simp_all
  next
    case (called log w1 pw q a w2)
    then obtain s1 where s1: "trail w1 = trail w @ s1" "runs (pinned n x) (disk w) s1" "disk w1 = last (disk w # s1)"
      by blast
    from vault_call_sound [OF assms(1-3), of c x w1 pw q a w2] called obtain s2 where
      s2: "reply_sound K x (pw, q, a)" "intact n c x (\<lambda>_. True) w2"
        "trail w2 = trail w1 @ s2" "runs (pinned n x) (disk w1) s2" "disk w2 = last (disk w1 # s2)"
      unfolding here by blast
    with s1 called show ?case
      by (intro conjI exI [of _ "s1 @ s2"]) (simp_all add: runs_append last_append_Cons del: last.simps)
  qed
  moreover have "custody n (disk w) = Some x" using start by (simp add: guarded_def)
  ultimately show ?thesis unfolding here by (blast dest: runs_pinned intro: list.set_intros(2))
qed

theorem sessions_keep_the_identity_witness:
  "\<exists>d w'. vault_session ref_crates sample_path (world_with sample_path d)
       [([1, 2, 3], Request_unlock, Unlocked (replicate 32 5))] w'
     \<and> custody [''id'', ''identity.key''] (disk w') = Some (private_file d)"
proof -
  obtain d where "sealed ref_crates [1, 2, 3] (replicate 32 5) d" using sample_sealed by blast
  then have d: "opens ref_crates [1, 2, 3] d = Some (replicate 32 5)" by (simp add: sealed_def opens_def)
  let ?w = "world_with sample_path d" and ?n = "[''id'', ''identity.key'']"
  have here: "resolve ?w sample_path = ?n" "name_of (cwd ?w) sample_path = ?n"
    by (simp_all add: sample_reachable resolve_name_of [symmetric])
  have name: "has_name sample_path" using sample_reachable(1) by (simp add: reachable_def)
  have held: "custody ?n (disk ?w) = Some (private_file d)" by (simp add: custody_def sample_reachable)
  have "calm ?w" "wf_fs (disk ?w)" using sample_reachable(1) [of d] by (simp_all add: reachable_def)
  then have rely: "guarded (resolve ?w sample_path) (cwd ?w) (\<lambda>f. custody (resolve ?w sample_path) f = Some (private_file d)) ?w"
    using held calm_world [of ?w ?n] unfolding here by (simp add: guarded_def calm_def)
  obtain w' where run: "vault_unlock ref_crates (IdentityVault_new sample_path (StaticPassphraseProvider [1, 2, 3])) ?w
      = Some (Inr (replicate 32 5), w')"
    using calm_unlock [OF ref_aead.aead_crate_axioms sample_reachable(1), of d 0 "[1, 2, 3]" "replicate 32 5"] d
    by (auto simp: here sample_reachable)
  then have call: "vault_call ref_crates (IdentityVault_new sample_path (StaticPassphraseProvider [1, 2, 3])) Request_unlock ?w
      = Some (Unlocked (replicate 32 5), w')"
    by (simp add: reply_with_def)
  have session: "vault_session ref_crates sample_path ?w [([1, 2, 3], Request_unlock, Unlocked (replicate 32 5))] w'"
    using called [OF opened call] by simp
  from sessions_keep_the_identity [OF ref_aead.aead_crate_axioms ref_ct.ct_crate_axioms name rely session]
  obtain states where "disk w' = last (disk ?w # states)" "\<forall>f \<in> set states. custody ?n f = Some (private_file d)"
    unfolding here by blast
  with held have "custody ?n (disk w') = Some (private_file d)" by (cases states rule: rev_cases) simp_all
  with session show ?thesis by blast
qed

text \<open>
  C4: In a calm world the file vault implements the abstract machine of custody: every session of
  \<^verbatim>\<open>init\<close>, export, metadata, restore and unlock calls, in any order and under any passphrases, gives
  replies that the machine gives too, step by step, and ends with the machine's bytes under the
  name; once the machine holds bytes, it keeps them.
\<close>

theorem calm_sessions_refine_the_machine:
  assumes "aead_crate K" and "ct_crate K" and "ready K p w" and "\<not> path_empty (identity_parent p)"
    and "holds_bytes (resolve w p) (disk w) s" and "vault_session K p w log w'"
    and "\<forall>(pw, q, a) \<in> set log. calm_request q"
  shows "\<exists>s'. custody_run K p log s s' \<and> holds_bytes (resolve w p) (disk w') s' \<and> (s \<noteq> None \<longrightarrow> s' = s)"
proof -
  have "\<exists>s'. custody_run K p log s s' \<and> holds_bytes (name_of (cwd w) p) (disk w') s' \<and> ready K p w' \<and> cwd w' = cwd w"
    using assms(6,7)
  proof (induction rule: vault_session.induct)
    case opened
    with assms(3,5) show ?case by (auto simp: resolve_name_of intro: idle)
  next
    case (called log w1 pw q a w2)
    then obtain s1 where s1: "custody_run K p log s s1" "holds_bytes (name_of (cwd w) p) (disk w1) s1"
      "ready K p w1" "cwd w1 = cwd w" by auto
    from called.prems have "calm_request q" by simp
    from custody_step_ok [OF assms(1,2) s1(3) assms(4) _ this called.hyps(2)] s1(2,4)
    obtain s2 where "custody_step K p (pw, q, a) s1 s2" "holds_bytes (name_of (cwd w) p) (disk w2) s2"
      "ready K p w2" "cwd w2 = cwd w" by auto
    with snoc [OF s1(1)] show ?case by blast
  qed
  then show ?thesis unfolding resolve_name_of by (metis held_run not_None_eq)
qed

theorem calm_sessions_refine_the_machine_witness:
  "\<exists>a w' s'. vault_session ref_crates sample_path sample_world
       [([1, 2, 3], Request_init [1, 2, 3], Initialized), ([1, 2, 3], Request_unlock, a)] w'
     \<and> custody_run ref_crates sample_path
       [([1, 2, 3], Request_init [1, 2, 3], Initialized), ([1, 2, 3], Request_unlock, a)] None s'"
proof -
  let ?v = "IdentityVault_new sample_path (StaticPassphraseProvider [1, 2, 3])"
  have parent: "\<not> path_empty (identity_parent sample_path)"
    by (simp add: sample_path_def identity_parent_def path_parent_def path_empty_def)
  have free: "nodes (disk sample_world) (name_of (cwd sample_world) sample_path) = None"
    by (simp add: sample_world_def sample_path_def name_of_def)
  then have start: "holds_bytes (resolve sample_world sample_path) (disk sample_world) None"
    by (simp add: holds_bytes_def resolve_name_of)
  obtain w1 where "vault_init ref_crates ?v [1, 2, 3] sample_world = Some (Inr (), w1)"
    using calm_init [OF ref_aead.aead_crate_axioms sample_ready _ parent, of "[1, 2, 3]" "StaticPassphraseProvider [1, 2, 3]"]
      free by auto
  then have init: "vault_call ref_crates ?v (Request_init [1, 2, 3]) sample_world = Some (Initialized, w1)"
    by (simp add: reply_with_def)
  obtain s1 where "holds_bytes (name_of (cwd sample_world) sample_path) (disk w1) s1" "ready ref_crates sample_path w1"
      "cwd w1 = cwd sample_world"
    using custody_step_ok [OF ref_aead.aead_crate_axioms ref_ct.ct_crate_axioms sample_ready parent _ _ init, of None]
      start by (auto simp: resolve_name_of)
  then have "\<exists>r w2. vault_unlock ref_crates ?v w1 = Some (r, w2)"
    using calm_unlock_reply [OF ref_aead.aead_crate_axioms, of sample_path w1 s1 "[1, 2, 3]"]
    by (auto simp: ready_def)
  then obtain a w2 where unlock: "vault_call ref_crates ?v Request_unlock w1 = Some (a, w2)"
    by (auto simp: reply_with_def)
  have "vault_session ref_crates sample_path sample_world
       [([1, 2, 3], Request_init [1, 2, 3], Initialized), ([1, 2, 3], Request_unlock, a)] w2"
    using called [OF called [OF opened init] unlock] by simp
  from this calm_sessions_refine_the_machine [OF ref_aead.aead_crate_axioms ref_ct.ct_crate_axioms sample_ready
      parent start this] show ?thesis by auto
qed

text \<open>
  C40: Every call on a vault returns with a reply, in any world: whatever the disk holds, whichever system
  calls fail and whatever other processes do, no call panics or hangs, for any request and passphrase.
  An \<^verbatim>\<open>init\<close> alone needs more, that the draws from the system's generator succeed, exactly those.
\<close>

theorem vault_calls_return:
  fixes w :: "'z world_scheme"
  assumes "aead_crate K"
    and "\<And>pw' k. q = Request_init pw' \<Longrightarrow> k \<in> rng_calls p \<Longrightarrow> faults w (calls w + k) = None"
  shows "\<exists>a w'. vault_call K (IdentityVault_new p (StaticPassphraseProvider pw)) q w = Some (a, w')"
proof -
  note returns = returns_bind returns_map_err returns_basic returns_decrypt [OF assms(1)]
  have quiet: "returns (vault_backup self dest)" "returns (encrypted_backup_metadata self)"
    "returns (export_encrypted_backup K (IdentityVault_new p (StaticPassphraseProvider pw)))"
    "returns (vault_unlock K (IdentityVault_new p (StaticPassphraseProvider pw)))"
    "returns (restore_encrypted_backup K (IdentityVault_new p (StaticPassphraseProvider pw)) b)"
    for self :: "'z world_scheme identity_vault" and dest b
    unfolding vault_backup_def encrypted_backup_metadata_def export_encrypted_backup_def vault_unlock_def
      restore_encrypted_backup_def write_exclusive_def unlock_reads calm_load_bytes vault_fields
    by (auto intro!: returns split: option.split)
  have init: "\<exists>a w'. reply_with g (vault_init K (IdentityVault_new p (StaticPassphraseProvider pw)) pw') w = Some (a, w')"
    if "q = Request_init pw'" for g pw'
  proof (rule reply_returns)
    have "returns ((case r of Inr _ \<Rightarrow> io_ok () | Inl (Io AlreadyExists) \<Rightarrow> io_err (Vault_AlreadyExists m)
         | Inl e \<Rightarrow> io_err (VaultSigner e)) :: ('z world_scheme, vault_error, unit) io)" for r m
      by (auto split: sum.split signer_error.split io_kind.split)
    moreover have "file_generate K (v_signer (IdentityVault_new p (StaticPassphraseProvider pw))) pw' w \<noteq> None"
      by (rule generate_returns) (use assms(2) [OF that] in simp)
    ultimately show "vault_init K (IdentityVault_new p (StaticPassphraseProvider pw)) pw' w \<noteq> None"
      unfolding vault_init_def io_try_None_iff by (blast dest: returnsD)
  qed
  show ?thesis
    by (cases q) (simp_all add: init quiet [THEN returnsD, THEN reply_returns])
qed

theorem vault_calls_return_witness:
  "\<exists>a w'. vault_call ref_crates (IdentityVault_new sample_path (StaticPassphraseProvider [9])) (Request_init [1])
     (sample_world\<lparr>faults := \<lambda>k. if k \<in> {0, 1, 2, 4} then None else Some (PermissionDenied, 7)\<rparr>) = Some (a, w')"
proof -
  have "rng_calls sample_path = {0, 1, 2, 4}"
    by (simp add: rng_calls_def sample_path_def identity_parent_def path_parent_def path_empty_def)
  then show ?thesis
    by (intro vault_calls_return [OF ref_aead.aead_crate_axioms]) (simp add: sample_world_def)
qed

end
