(* ===== verification/SshAgent.thy ===== *)
theory SshAgent
  imports Signer
begin

text \<open>
  The SSH agent, \<^verbatim>\<open>src/ssh_agent.rs\<close>: which keys it advertises, which of them it signs with, and the
  \<^verbatim>\<open>Session\<close> handlers.  \<^verbatim>\<open>ssh_key::Signature::new\<close> is a parameter.
\<close>

datatype key_data = Ed25519Key "byte list" | OtherKeyData string "byte list"

record agent_key =
  pubkey :: key_data
  comment :: string

record sign_request =
  sr_pubkey :: key_data
  sr_data :: "byte list"

datatype agent_error = AgentSigner signer_error | AgentSignature string

text \<open>\<^verbatim>\<open>KeySpec\<close>: which key to derive.\<close>

datatype key_spec = SshUserSpec string | GitSigningSpec | AgentSpec string | HostSpec

record 'w styrene_agent =
  ag_signer :: "'w signer"
  labels :: "string list"
  agent_names :: "string list"
  serve_git_signing :: bool
  serve_host_key :: bool

definition StyreneAgent_new :: "'w signer \<Rightarrow> string list \<Rightarrow> 'w styrene_agent" where
  "StyreneAgent_new s ls = \<lparr> ag_signer = s, labels = ls, agent_names = [], serve_git_signing = False,
     serve_host_key = False \<rparr>"

definition with_host_key :: "'w styrene_agent \<Rightarrow> 'w styrene_agent" where
  "with_host_key self = self \<lparr> serve_host_key := True \<rparr>"

definition with_git_signing :: "'w styrene_agent \<Rightarrow> 'w styrene_agent" where
  "with_git_signing self = self \<lparr> serve_git_signing := True \<rparr>"

definition with_agent_keys :: "'w styrene_agent \<Rightarrow> string list \<Rightarrow> 'w styrene_agent" where
  "with_agent_keys self names = self \<lparr> agent_names := names \<rparr>"

text \<open>\<^verbatim>\<open>expect\<close>: an error is a panic.\<close>

definition expect :: "('e + 'a) option \<Rightarrow> 'a option" where
  "expect m = (case m of Some (Inr a) \<Rightarrow> Some a | _ \<Rightarrow> None)"

type_synonym key_table = "agent_key list \<times> (byte list \<rightharpoonup> key_spec)"

text \<open>One entry: the identity is appended, the map entry of its key replaced.\<close>

definition push_key :: "crates \<Rightarrow> byte list \<Rightarrow> string \<Rightarrow> key_spec \<Rightarrow> key_table \<Rightarrow> key_table" where
  "push_key K seed text spec t =
     (let pk = ed25519_verifying_key K seed
      in (fst t @ [\<lparr> pubkey = Ed25519Key pk, comment = text \<rparr>], (snd t)(pk \<mapsto> spec)))"

fun push_user_keys :: "crates \<Rightarrow> key_deriver \<Rightarrow> string list \<Rightarrow> key_table \<Rightarrow> key_table option" where
  "push_user_keys K d [] t = Some t"
| "push_user_keys K d (label # ls) t = do {
     seed \<leftarrow> expect (derive_ssh_user_key K d label);
     push_user_keys K d ls (push_key K seed (''styrene-ssh-user-'' @ label) (SshUserSpec label) t)
   }"

fun push_agent_keys :: "crates \<Rightarrow> key_deriver \<Rightarrow> string list \<Rightarrow> key_table \<Rightarrow> key_table option" where
  "push_agent_keys K d [] t = Some t"
| "push_agent_keys K d (name # ns) t = do {
     seed \<leftarrow> expect (derive_agent_key K d name);
     push_agent_keys K d ns (push_key K seed (''styrene-agent:'' @ name) (AgentSpec name) t)
   }"

definition public_table :: "crates \<Rightarrow> 'w styrene_agent \<Rightarrow> byte list \<Rightarrow> key_table option" where
  "public_table K self root = do {
     let d = KeyDeriver_new K root;
     t \<leftarrow> push_user_keys K d (labels self) ([], Map.empty);
     t \<leftarrow> (if serve_git_signing self then do {
              seed \<leftarrow> git_signing_seed K d;
              Some (push_key K seed ''styrene-git-signing'' GitSigningSpec t)
            } else Some t);
     t \<leftarrow> push_agent_keys K d (agent_names self) t;
     (if serve_host_key self then do {
        seed \<leftarrow> derive K d SshHost;
        Some (push_key K seed ''styrene-ssh-host'' HostSpec t)
      } else Some t)
   }"

definition derive_public_map :: "crates \<Rightarrow> 'w styrene_agent \<Rightarrow> ('w, agent_error, key_table) io" where
  "derive_public_map K self =
     io_bind (io_map_err AgentSigner (sg_root_secret (ag_signer self))) (\<lambda>root.
     io_pure (map_option Inr (public_table K self root)))"

definition derive_spec :: "crates \<Rightarrow> key_deriver \<Rightarrow> key_spec \<Rightarrow> byte list option" where
  "derive_spec K d spec =
     (case spec of
        SshUserSpec label \<Rightarrow> expect (derive_ssh_user_key K d label)
      | GitSigningSpec \<Rightarrow> git_signing_seed K d
      | AgentSpec name \<Rightarrow> expect (derive_agent_key K d name)
      | HostSpec \<Rightarrow> derive K d SshHost)"

definition derive_seed :: "crates \<Rightarrow> 'w styrene_agent \<Rightarrow> key_spec \<Rightarrow> ('w, agent_error, byte list) io" where
  "derive_seed K self spec =
     io_bind (io_map_err AgentSigner (sg_root_secret (ag_signer self))) (\<lambda>root.
     io_pure (map_option Inr (derive_spec K (KeyDeriver_new K root) spec)))"

definition request_identities :: "crates \<Rightarrow> 'w styrene_agent \<Rightarrow> ('w, agent_error, agent_key list) io" where
  "request_identities K self =
     io_bind (derive_public_map K self) (\<lambda>(identities, _). io_ok identities)"

definition agent_sign :: "crates \<Rightarrow> (byte list \<Rightarrow> string + byte list) \<Rightarrow> 'w styrene_agent \<Rightarrow> sign_request
    \<Rightarrow> ('w, agent_error, byte list) io" where
  "agent_sign K signature_new self request =
     io_bind (derive_public_map K self) (\<lambda>(_, key_map).
     case sr_pubkey request of
       OtherKeyData _ _ \<Rightarrow> io_err (AgentSigner (Unavailable ''only Ed25519 keys are supported''))
     | Ed25519Key requested \<Rightarrow>
         io_bind (io_res (ok_or (AgentSigner (KeyNotFound ''no matching key found for this public key''))
           (key_map requested))) (\<lambda>spec.
         io_bind (derive_seed K self spec) (\<lambda>seed.
         let sig_bytes = sign_with_seed K seed (sr_data request) in
         io_res (map_err AgentSignature (signature_new sig_bytes)))))"

subsection \<open>The advertised keys\<close>

text \<open>What is served, as requests to the key tree, in the order of the list.\<close>

fun spec_request :: "key_spec \<Rightarrow> key_request" where
  "spec_request (SshUserSpec l) = SshUserKey l"
| "spec_request GitSigningSpec = PurposeKey GitSigning"
| "spec_request (AgentSpec n) = AgentKey n"
| "spec_request HostSpec = PurposeKey SshHost"

fun spec_comment :: "key_spec \<Rightarrow> string" where
  "spec_comment (SshUserSpec l) = ''styrene-ssh-user-'' @ l"
| "spec_comment GitSigningSpec = ''styrene-git-signing''"
| "spec_comment (AgentSpec n) = ''styrene-agent:'' @ n"
| "spec_comment HostSpec = ''styrene-ssh-host''"

definition served :: "'w styrene_agent \<Rightarrow> key_spec list" where
  "served self = map SshUserSpec (labels self)
     @ (if serve_git_signing self then [GitSigningSpec] else [])
     @ map AgentSpec (agent_names self) @ (if serve_host_key self then [HostSpec] else [])"

definition spec_key :: "crates \<Rightarrow> byte list \<Rightarrow> key_spec \<Rightarrow> byte list" where
  "spec_key K root spec = ed_verifying_key K (path_key K root (request_path (spec_request spec)))"

definition advertise :: "crates \<Rightarrow> byte list \<Rightarrow> key_spec \<Rightarrow> agent_key" where
  "advertise K root spec = \<lparr> pubkey = Ed25519Key (spec_key K root spec), comment = spec_comment spec \<rparr>"

definition named_labels :: "'w styrene_agent \<Rightarrow> bool" where
  "named_labels self \<longleftrightarrow> [] \<notin> set (labels self) \<and> [] \<notin> set (agent_names self)"

text \<open>The table a list of specifications builds.\<close>

definition table_of :: "crates \<Rightarrow> byte list \<Rightarrow> key_spec list \<Rightarrow> key_table" where
  "table_of K root specs =
     (map (advertise K root) specs, map_of (rev (map (\<lambda>s. (spec_key K root s, s)) specs)))"

lemma table_of_snoc:
  "table_of K root (specs @ [s]) =
     push_key K (path_key K root (request_path (spec_request s))) (spec_comment s) s (table_of K root specs)"
  by (simp add: table_of_def push_key_def Let_def advertise_def spec_key_def ed25519_verifying_key_def)

context kdf_crate
begin

lemma expect_user_key:
  "expect (derive_ssh_user_key K (KeyDeriver_new K root) l) =
     (if l = [] then None else Some (path_key K root (request_path (SshUserKey l))))"
  using run_request_path [of root "SshUserKey l"] by (simp add: expect_def)

lemma expect_agent_key:
  "expect (derive_agent_key K (KeyDeriver_new K root) n) =
     (if n = [] then None else Some (path_key K root (request_path (AgentKey n))))"
  using run_request_path [of root "AgentKey n"] by (simp add: expect_def)

lemma push_user_keys_table:
  "push_user_keys K (KeyDeriver_new K root) ls (table_of K root specs) =
     (if [] \<in> set ls then None else Some (table_of K root (specs @ map SshUserSpec ls)))"
proof (induction ls arbitrary: specs)
  case (Cons l ls)
  show ?case
    using Cons [of "specs @ [SshUserSpec l]"]
    by (simp add: expect_user_key table_of_snoc [of K root specs "SshUserSpec l", simplified])
qed simp

lemma push_agent_keys_table:
  "push_agent_keys K (KeyDeriver_new K root) ns (table_of K root specs) =
     (if [] \<in> set ns then None else Some (table_of K root (specs @ map AgentSpec ns)))"
proof (induction ns arbitrary: specs)
  case (Cons n ns)
  show ?case
    using Cons [of "specs @ [AgentSpec n]"]
    by (simp add: expect_agent_key table_of_snoc [of K root specs "AgentSpec n", simplified])
qed simp

lemma public_table_eq:
  "public_table K self root = (if named_labels self then Some (table_of K root (served self)) else None)"
proof -
  have empty: "([], Map.empty) = table_of K root []" by (simp add: table_of_def)
  have git: "git_signing_seed K (KeyDeriver_new K root) = Some (path_key K root (request_path (PurposeKey GitSigning)))"
    by (simp add: git_signing_seed_def derive_path)
  have snoc: "push_key K (path_key K root (request_path (spec_request s))) (spec_comment s) s (table_of K root specs)
      = table_of K root (specs @ [s])" for s specs
    by (rule table_of_snoc [symmetric])
  from snoc [of GitSigningSpec] snoc [of HostSpec] show ?thesis
    unfolding public_table_def empty push_user_keys_table Let_def
    by (simp add: git derive_path push_agent_keys_table named_labels_def served_def)
qed

end

lemma table_lookup:
  "snd (table_of K root specs) pk = Some s \<Longrightarrow> s \<in> set specs \<and> spec_key K root s = pk"
  "snd (table_of K root specs) pk = None \<longleftrightarrow> pk \<notin> spec_key K root ` set specs"
proof -
  show "snd (table_of K root specs) pk = Some s \<Longrightarrow> s \<in> set specs \<and> spec_key K root s = pk"
    by (auto simp: table_of_def dest!: map_of_SomeD)
  show "snd (table_of K root specs) pk = None \<longleftrightarrow> pk \<notin> spec_key K root ` set specs"
    by (auto simp: table_of_def map_of_eq_None_iff image_image)
qed

lemma advertise_pubkey: "a \<in> set (map (advertise K root) specs) \<Longrightarrow>
    \<exists>s \<in> set specs. pubkey a = Ed25519Key (spec_key K root s)"
  by (auto simp: advertise_def)

lemma public_map_run:
  assumes "kdf_crate K"
  shows "derive_public_map K self w =
     (case sg_root_secret (ag_signer self) w of
        None \<Rightarrow> None
      | Some (Inl e, w') \<Rightarrow> Some (Inl (AgentSigner e), w')
      | Some (Inr root, w') \<Rightarrow>
          if named_labels self then Some (Inr (table_of K root (served self)), w') else None)"
  by (auto simp: derive_public_map_def io_bind_def io_map_err_def kdf_crate.public_table_eq [OF assms]
      split: option.splits prod.splits sum.splits)

lemma derive_spec_path:
  assumes "kdf_crate K" and "named_labels self" and "spec \<in> set (served self)"
  shows "derive_spec K (KeyDeriver_new K root) spec = Some (path_key K root (request_path (spec_request spec)))"
  using assms(2,3)
  by (auto simp: served_def named_labels_def derive_spec_def git_signing_seed_def
      kdf_crate.expect_user_key [OF assms(1)] kdf_crate.expect_agent_key [OF assms(1)]
      kdf_crate.derive_path [OF assms(1)] split: if_splits)

subsection \<open>Properties\<close>

text \<open>
  C29: Listing the agent's keys unlocks the signer once and, when every label is non-empty, answers
  exactly the public keys of the configured branches of the key tree, in configuration order: user
  keys, the Git key, agent keys, the host key, each under its comment; the signer's errors are
  passed on.  One empty label, which no constructor refuses, makes every listing and every signing
  request panic.
\<close>

theorem agent_lists_served_keys:
  assumes "kdf_crate K"
  shows "request_identities K self w =
     (case sg_root_secret (ag_signer self) w of
        None \<Rightarrow> None
      | Some (Inl e, w') \<Rightarrow> Some (Inl (AgentSigner e), w')
      | Some (Inr root, w') \<Rightarrow>
          if named_labels self then Some (Inr (map (advertise K root) (served self)), w') else None)
     \<and> (\<not> named_labels (with_agent_keys (StyreneAgent_new s ls) names) \<longleftrightarrow> [] \<in> set ls \<union> set names)
     \<and> (\<not> named_labels self \<and> sg_root_secret (ag_signer self) w = Some (Inr root, w') \<longrightarrow>
          agent_sign K signature_new self request w = None)"
  by (auto simp: request_identities_def agent_sign_def io_bind_def public_map_run [OF assms] table_of_def
      named_labels_def with_agent_keys_def StyreneAgent_new_def
      split: option.splits prod.splits sum.splits)

theorem agent_lists_served_keys_witness:
  "\<exists>ks w'. request_identities lite_crates
       (with_git_signing (StyreneAgent_new (fixed_signer lite_crates EncryptedFile True (replicate 32 7)) [''github'']))
       0 = Some (Inr ks, w') \<and> map comment ks = [''styrene-ssh-user-github'', ''styrene-git-signing'']"
  using agent_lists_served_keys [OF lite_kdf.kdf_crate_axioms, of
      "with_git_signing (StyreneAgent_new (fixed_signer lite_crates EncryptedFile True (replicate 32 7)) [''github''])" 0,
      THEN conjunct1]
  by (auto simp: with_git_signing_def StyreneAgent_new_def fixed_signer_def named_labels_def served_def
      advertise_def)

text \<open>
  C18: The agent signs with the advertised keys only.  A request for another kind of key, or for a
  key that is not listed, is refused after the one unlock that listing takes; a request for a
  listed key unlocks again and signs under a served branch of the key tree whose public key is the
  requested one, so that the signature verifies strictly under that key whenever both unlocks gave
  the same root; an error of the second unlock is passed on.
\<close>

theorem agent_signs_with_advertised_keys:
  assumes "kdf_crate K" and "ed25519_crate K" and "named_labels self"
    and "sg_root_secret (ag_signer self) w = Some (Inr root, w1)"
    and "\<And>b. length b = 64 \<Longrightarrow> signature_new b = Inr b"
  shows "case sr_pubkey request of
       OtherKeyData a b \<Rightarrow> agent_sign K signature_new self request w
         = Some (Inl (AgentSigner (Unavailable ''only Ed25519 keys are supported'')), w1)
     | Ed25519Key pk \<Rightarrow>
         if Ed25519Key pk \<notin> pubkey ` set (map (advertise K root) (served self)) then
           agent_sign K signature_new self request w
             = Some (Inl (AgentSigner (KeyNotFound ''no matching key found for this public key'')), w1)
         else \<exists>spec \<in> set (served self). spec_key K root spec = pk
           \<and> (case sg_root_secret (ag_signer self) w1 of
                None \<Rightarrow> agent_sign K signature_new self request w = None
              | Some (Inl e, w2) \<Rightarrow> agent_sign K signature_new self request w = Some (Inl (AgentSigner e), w2)
              | Some (Inr root', w2) \<Rightarrow>
                  \<exists>sig. agent_sign K signature_new self request w = Some (Inr sig, w2)
                  \<and> ed_verify_strict K (spec_key K root' spec) (sr_data request) sig
                  \<and> (root' = root \<longrightarrow> ed_verify_strict K pk (sr_data request) sig))"
proof (cases "sr_pubkey request")
  case (OtherKeyData a b)
  then show ?thesis
    by (simp add: agent_sign_def io_bind_def public_map_run [OF assms(1)] assms(3,4) table_of_def)
next
  case (Ed25519Key pk)
  have listed: "Ed25519Key pk \<in> pubkey ` set (map (advertise K root) (served self))
      \<longleftrightarrow> pk \<in> spec_key K root ` set (served self)"
    by (auto simp: advertise_def image_image)
  have run: "derive_public_map K self w = Some (Inr (table_of K root (served self)), w1)"
    by (simp add: public_map_run [OF assms(1)] assms(3,4))
  show ?thesis
  proof (cases "snd (table_of K root (served self)) pk")
    case None
    then have "pk \<notin> spec_key K root ` set (served self)" by (simp add: table_lookup)
    then show ?thesis
      using None run unfolding Ed25519Key key_data.case listed
      by (cases "table_of K root (served self)") (simp add: agent_sign_def io_bind_def Ed25519Key ok_or_def)
  next
    case (Some spec)
    note spec = table_lookup(1) [OF Some]
    have sign: "agent_sign K signature_new self request w =
        io_bind (derive_seed K self spec) (\<lambda>seed.
          io_res (map_err AgentSignature (signature_new (sign_with_seed K seed (sr_data request))))) w1"
      using Some run by (cases "table_of K root (served self)")
        (simp add: agent_sign_def io_bind_def Ed25519Key ok_or_def Let_def)
    have ok: "signature_new (sign_with_seed K (path_key K root' p) m)
        = Inr (ed_sign K (path_key K root' p) m)" for root' p m
      using assms(5) by (simp add: sign_with_seed_def ed25519_signing_key_def
          ed25519_crate.length_sig [OF assms(2)] kdf_crate.length_path_key [OF assms(1)])
    have strict: "ed_verify_strict K (spec_key K root' spec) m
        (ed_sign K (path_key K root' (request_path (spec_request spec))) m)" for root' m
      by (simp add: spec_key_def ed25519_crate.sign_verifies_strict [OF assms(2)]
          kdf_crate.length_path_key [OF assms(1)])
    have "case sg_root_secret (ag_signer self) w1 of
                None \<Rightarrow> agent_sign K signature_new self request w = None
              | Some (Inl e, w2) \<Rightarrow> agent_sign K signature_new self request w = Some (Inl (AgentSigner e), w2)
              | Some (Inr root', w2) \<Rightarrow>
                  \<exists>sig. agent_sign K signature_new self request w = Some (Inr sig, w2)
                  \<and> ed_verify_strict K (spec_key K root' spec) (sr_data request) sig
                  \<and> (root' = root \<longrightarrow> ed_verify_strict K pk (sr_data request) sig)"
      using spec strict
      by (auto simp: sign derive_seed_def io_bind_def io_map_err_def derive_spec_path [OF assms(1,3)] ok
          split: option.splits prod.splits sum.splits)
    with spec show ?thesis unfolding Ed25519Key key_data.case listed by auto
  qed
qed

definition sample_agent :: "nat styrene_agent" where
  "sample_agent = StyreneAgent_new (fixed_signer lite_crates EncryptedFile True (replicate 32 7)) [''github'']"

theorem agent_signs_with_advertised_keys_witness:
  "\<exists>sig w'. agent_sign lite_crates Inr sample_agent
       \<lparr> sr_pubkey = Ed25519Key (spec_key lite_crates (replicate 32 7) (SshUserSpec ''github'')), sr_data = [1, 2] \<rparr> 0
       = Some (Inr sig, w')
     \<and> ed_verify_strict lite_crates (spec_key lite_crates (replicate 32 7) (SshUserSpec ''github'')) [1, 2] sig"
proof -
  have agent: "named_labels sample_agent" "served sample_agent = [SshUserSpec ''github'']"
    "sg_root_secret (ag_signer sample_agent) w = Some (Inr (replicate 32 7), w)" for w
    by (simp_all add: sample_agent_def StyreneAgent_new_def named_labels_def served_def fixed_signer_def)
  show ?thesis
    using agent_signs_with_advertised_keys [OF lite_kdf.kdf_crate_axioms lite_ed.ed25519_crate_axioms agent(1) agent(3),
        of Inr "\<lparr> sr_pubkey = Ed25519Key (spec_key lite_crates (replicate 32 7) (SshUserSpec ''github'')),
          sr_data = [1, 2] \<rparr>" 0]
    by (auto simp: agent advertise_def)
qed

end
