(* ===== verification/Keychain.thy ===== *)
theory Keychain
  imports Signer
begin

text \<open>
  The macOS and iOS Keychain adapter, \<^verbatim>\<open>src/keychain_signer.rs\<close>.  The Keychain itself is a record of
  the calls the adapter makes on \<^verbatim>\<open>security_framework\<close>, each a step of the world that may answer an
  error code with its text.
\<close>

definition SERVICE :: string where
  "SERVICE = ''io.styrene.identity''"

definition ACCOUNT :: string where
  "ACCOUNT = ''root-secret-v2''"

definition LEGACY_BIOMETRIC_ACCOUNT :: string where
  "LEGACY_BIOMETRIC_ACCOUNT = ''root-secret''"

type_synonym os_status = "int \<times> string"

record 'w keychain =
  kc_search :: "string \<Rightarrow> string \<Rightarrow> ('w, os_status + nat) act"
  kc_password :: "string \<Rightarrow> string \<Rightarrow> ('w, os_status + byte list) act"
  kc_access_control :: "('w, os_status + unit) act"
  kc_set_password :: "string \<Rightarrow> string \<Rightarrow> byte list \<Rightarrow> ('w, os_status + unit) act"
  kc_delete_password :: "string \<Rightarrow> string \<Rightarrow> ('w, os_status + unit) act"

record keychain_signer =
  service :: string
  account :: string

definition KeychainSigner_default :: keychain_signer where
  "KeychainSigner_default = \<lparr> service = SERVICE, account = ACCOUNT \<rparr>"

definition KeychainSigner_new :: "string \<Rightarrow> string \<Rightarrow> keychain_signer" where
  "KeychainSigner_new s a = \<lparr> service = s, account = a \<rparr>"

definition keychain_presence :: "'w keychain \<Rightarrow> keychain_signer \<Rightarrow> ('w, signer_error, bool) io" where
  "keychain_presence C self =
     io_try (io_act (kc_search C (service self) (account self))) (\<lambda>found.
       case found of
         Inr items \<Rightarrow> io_ok (items \<noteq> 0)
       | Inl (code, text) \<Rightarrow>
           if code = - 25300 then io_ok False
           else io_err (Unavailable (''Keychain lookup failed: '' @ text)))"

text \<open>\<^verbatim>\<open>unwrap_or(false)\<close>: a failed lookup counts as absence.\<close>

definition keychain_exists :: "'w keychain \<Rightarrow> keychain_signer \<Rightarrow> ('w, 'e, bool) io" where
  "keychain_exists C self =
     io_try (keychain_presence C self) (\<lambda>r. io_ok (case r of Inr b \<Rightarrow> b | Inl _ \<Rightarrow> False))"

definition already_in_keychain :: signer_error where
  "already_in_keychain = Unavailable ''Identity already exists in Keychain. Delete it first.''"

definition create_from_root_secret ::
  "'w keychain \<Rightarrow> keychain_signer \<Rightarrow> byte list \<Rightarrow> ('w, signer_error, unit) io" where
  "create_from_root_secret C self root =
     io_bind (keychain_exists C self) (\<lambda>exists.
     if exists then io_err already_in_keychain
     else
       io_bind (io_map_err (\<lambda>(_, e). SigningFailed (''Keychain access policy failed: '' @ e))
         (io_act (kc_access_control C))) (\<lambda>_.
       io_map_err (\<lambda>(_, e). SigningFailed (''Keychain store failed: '' @ e))
         (io_act (kc_set_password C (service self) (account self) root))))"

definition create_root_secret ::
  "'z world_scheme keychain \<Rightarrow> keychain_signer \<Rightarrow> ('z world_scheme, signer_error, byte list) io" where
  "create_root_secret C self =
     io_bind (keychain_exists C self) (\<lambda>exists.
     if exists then io_err already_in_keychain
     else
       io_bind (fill_bytes 32) (\<lambda>root.
       io_bind (create_from_root_secret C self root) (\<lambda>_. io_ok root)))"

definition keychain_create ::
  "'z world_scheme keychain \<Rightarrow> keychain_signer \<Rightarrow> ('z world_scheme, signer_error, unit) io" where
  "keychain_create C self = io_bind (create_root_secret C self) (\<lambda>_. io_ok ())"

definition keychain_restore ::
  "'w keychain \<Rightarrow> keychain_signer \<Rightarrow> byte list \<Rightarrow> ('w, signer_error, unit) io" where
  "keychain_restore C self secret = create_from_root_secret C self secret"

definition keychain_delete :: "'w keychain \<Rightarrow> keychain_signer \<Rightarrow> ('w, signer_error, unit) io" where
  "keychain_delete C self =
     io_map_err (\<lambda>(_, e). Unavailable (''Keychain delete failed: '' @ e))
       (io_act (kc_delete_password C (service self) (account self)))"

definition map_read_error :: "os_status \<Rightarrow> signer_error" where
  "map_read_error e =
     (case e of (code, text) \<Rightarrow>
        if code = - 25293 \<or> code = - 128 then AuthRequired ''Device authentication cancelled''
        else if code = - 25308
          then AuthRequired ''Unlock the device once after restart to access the identity''
        else if code = - 25300 then KeyNotFound ''No identity in Keychain''
        else DecryptionFailed (''Keychain read failed: '' @ text))"

definition keychain_root_secret ::
  "'w keychain \<Rightarrow> keychain_signer \<Rightarrow> ('w, signer_error, byte list) io" where
  "keychain_root_secret C self =
     io_bind (io_map_err map_read_error (io_act (kc_password C (service self) (account self)))) (\<lambda>d.
     if length d \<noteq> 32
     then io_err (DecryptionFailed (''Invalid root secret length: '' @ show_nat (length d) @ '' (expected 32)''))
     else io_pure (map_option Inr (copy_at 0 32 d (replicate 32 0))))"

definition keychain_sign ::
  "crates \<Rightarrow> 'w keychain \<Rightarrow> keychain_signer \<Rightarrow> byte list \<Rightarrow> ('w, signer_error, byte list) io" where
  "keychain_sign K C self msg =
     io_bind (keychain_root_secret C self) (\<lambda>root.
     io_pure (do {
       seed \<leftarrow> derive K (KeyDeriver_new K root) Signing;
       Some (Inr (sign_with_seed K seed msg))
     }))"

definition keychain_as_signer :: "crates \<Rightarrow> 'w keychain \<Rightarrow> keychain_signer \<Rightarrow> 'w signer" where
  "keychain_as_signer K C self = \<lparr>
     sg_tier = (\<lambda>w. (DeviceHsm, w)), sg_label = (\<lambda>w. (''Keychain (after first unlock)'', w)),
     sg_is_available = (\<lambda>w. case (keychain_exists C self :: ('w, unit, bool) io) w of
         Some (Inr b, w') \<Rightarrow> (b, w') | _ \<Rightarrow> (False, w)),
     sg_root_secret = keychain_root_secret C self, sg_sign = keychain_sign K C self \<rparr>"

interpretation keychain_contract: identity_signer K "keychain_root_secret C self" "keychain_sign K C self"
  for K :: crates and C :: "'w keychain" and self :: keychain_signer
  by unfold_locales (simp add: keychain_sign_def sign_with_root_def)

subsection \<open>The Keychain's documented behaviour\<close>

text \<open>
  What \<^verbatim>\<open>security_framework\<close> documents: a search that succeeds reports whether there is an item, and
  answers \<^verbatim>\<open>errSecItemNotFound\<close> (-25300) only without one; reading answers the stored bytes; setting
  a password creates the item or replaces its value; a call that fails changes nothing.
\<close>

locale keychain_store =
  fixes C :: "'z world_scheme keychain" and item :: "'z world_scheme \<Rightarrow> string \<Rightarrow> string \<Rightarrow> byte list option"
  assumes search_ok: "kc_search C s a w = (Inr n, w') \<Longrightarrow> (n \<noteq> 0 \<longleftrightarrow> item w s a \<noteq> None)"
    and search_absent: "kc_search C s a w = (Inl (- 25300, t), w') \<Longrightarrow> item w s a = None"
    and search_keeps: "kc_search C s a w = (r, w') \<Longrightarrow> item w' = item w"
    and policy_keeps: "kc_access_control C w = (p, w') \<Longrightarrow> item w' = item w"
    and read_ok: "kc_password C s a w = (Inr d, w') \<Longrightarrow> item w s a = Some d"
    and read_keeps: "kc_password C s a w = (q, w') \<Longrightarrow> item w' = item w"
    and set_ok: "kc_set_password C s a d w = (Inr u, w') \<Longrightarrow>
      item w' = (item w)(s := (item w s)(a \<mapsto> d))"
    and set_fails: "kc_set_password C s a d w = (Inl e, w') \<Longrightarrow> item w' = item w"
    and random_keeps: "fill_bytes k w = Some (Inr b :: signer_error + byte list, w') \<Longrightarrow> item w' = item w"
begin

text \<open>What \<^verbatim>\<open>exists\<close> answers: absence, or any lookup error but the one that proves presence.\<close>

lemma exists_cases:
  "\<exists>b w'. keychain_exists C self w = Some (Inr b, w') \<and> item w' = item w
     \<and> (b \<longrightarrow> item w (service self) (account self) \<noteq> None)
     \<and> (\<not> b \<longrightarrow> item w (service self) (account self) = None
          \<or> (\<exists>code t. code \<noteq> - 25300 \<and> kc_search C (service self) (account self) w = (Inl (code, t), w')))"
proof -
  obtain r w' where s: "kc_search C (service self) (account self) w = (r, w')"
    by (cases "kc_search C (service self) (account self) w")
  show ?thesis
  proof (cases r)
    case (Inr n)
    with s search_ok [of "service self" "account self" w n w'] search_keeps [OF s] show ?thesis
      by (auto simp: keychain_exists_def keychain_presence_def io_try_def)
  next
    case (Inl e)
    obtain code t where "e = (code, t)" by (cases e)
    with s Inl search_absent [of "service self" "account self" w t w'] search_keeps [OF s] show ?thesis
      by (auto simp: keychain_exists_def keychain_presence_def io_try_def)
  qed
qed

text \<open>Creation: what is stored, and when existing custody is at risk.\<close>

lemma create_cases:
  assumes "create_from_root_secret C self root w = Some (r, w')"
  shows "(r = Inr () \<longrightarrow> item w' (service self) (account self) = Some root)
    \<and> (r \<noteq> Inr () \<longrightarrow> item w' = item w)
    \<and> (\<forall>s a. (s, a) \<noteq> (service self, account self) \<longrightarrow> item w' s a = item w s a)
    \<and> (item w (service self) (account self) \<noteq> None \<and> r = Inr () \<longrightarrow>
        (\<exists>code t w1. code \<noteq> - 25300 \<and> kc_search C (service self) (account self) w = (Inl (code, t), w1)))"
proof -
  obtain b w1 where e: "keychain_exists C self w = Some (Inr b :: signer_error + bool, w1)" "item w1 = item w"
    "\<not> b \<longrightarrow> item w (service self) (account self) = None
          \<or> (\<exists>code t. code \<noteq> - 25300 \<and> kc_search C (service self) (account self) w = (Inl (code, t), w1))"
    using exists_cases [of self w] by blast
  obtain rp w2 where p: "kc_access_control C w1 = (rp, w2)" by (cases "kc_access_control C w1")
  obtain rs w3 where s: "kc_set_password C (service self) (account self) root w2 = (rs, w3)"
    by (cases "kc_set_password C (service self) (account self) root w2")
  show ?thesis
  proof (cases b)
    case True
    with assms e(1,2) show ?thesis by (auto simp: create_from_root_secret_def io_bind_def)
  next
    case False
    show ?thesis
    proof (cases rp)
      case (Inl x)
      with assms e(1,2) p policy_keeps [OF p] False show ?thesis
        by (auto simp: create_from_root_secret_def io_bind_def io_map_err_def)
    next
      case (Inr u)
      have same: "item w2 = item w" using policy_keeps [OF p] e(2) by simp
      have run: "r = map_err (\<lambda>(_, e). SigningFailed (''Keychain store failed: '' @ e)) rs" "w' = w3"
        using assms e(1) p s False Inr by (auto simp: create_from_root_secret_def io_bind_def io_map_err_def)
      show ?thesis
      proof (cases rs)
        case (Inl x)
        with run set_fails [OF s [unfolded Inl]] same show ?thesis by auto
      next
        case Inr': (Inr v)
        with run set_ok [OF s [unfolded Inr']] same e(3) False show ?thesis by auto
      qed
    qed
  qed
qed

end

text \<open>A Keychain kept in memory, whose lookups can be made to fail.\<close>

record keychain_world = world +
  kw_items :: "string \<Rightarrow> string \<Rightarrow> byte list option"
  kw_lookup_fails :: bool

definition memory_keychain :: "keychain_world keychain" where
  "memory_keychain = \<lparr>
     kc_search = (\<lambda>s a w. (if kw_lookup_fails w then Inl (- 34018, ''missing entitlement'')
       else if kw_items w s a = None then Inl (- 25300, ''not found'') else Inr 1, w)),
     kc_password = (\<lambda>s a w. (case kw_items w s a of Some d \<Rightarrow> Inr d | None \<Rightarrow> Inl (- 25300, ''not found''), w)),
     kc_access_control = (\<lambda>w. (Inr (), w)),
     kc_set_password = (\<lambda>s a d w. (Inr (), w \<lparr> kw_items := (kw_items w)(s := (kw_items w s)(a \<mapsto> d)) \<rparr>)),
     kc_delete_password = (\<lambda>s a w. (Inr (), w \<lparr> kw_items := (kw_items w)(s := (kw_items w s)(a := None)) \<rparr>)) \<rparr>"

lemma fill_bytes_items: "fill_bytes k w = Some (r, w') \<Longrightarrow> kw_items w' = kw_items w"
  by (auto simp: fill_bytes_def Let_def split: option.splits)

interpretation memory: keychain_store memory_keychain kw_items
  by unfold_locales (auto simp: memory_keychain_def dest: fill_bytes_items split: if_splits option.splits)

definition sample_keychain_world :: "(string \<Rightarrow> string \<Rightarrow> byte list option) \<Rightarrow> bool \<Rightarrow> keychain_world" where
  "sample_keychain_world items fails =
     world.extend sample_world \<lparr> kw_items = items, kw_lookup_fails = fails \<rparr>"

lemma sample_keychain_world_simps [simp]:
  "kw_items (sample_keychain_world items fails) = items"
  "kw_lookup_fails (sample_keychain_world items fails) = fails"
  "faults (sample_keychain_world items fails) k = None"
  by (simp_all add: sample_keychain_world_def world.defs sample_world_def)

subsection \<open>Properties\<close>

text \<open>
  C19: Installing a root in the Keychain stores exactly that root under the signer's account and
  touches no other item; a failure changes nothing.  Custody that exists is refused and kept as
  long as the lookup answers; it is replaced, with a success, only after a lookup that failed with
  another status than \<^verbatim>\<open>errSecItemNotFound\<close>, since \<^verbatim>\<open>exists\<close> counts such a failure as absence.
\<close>

theorem keychain_installation:
  assumes "keychain_store C item" and "keychain_restore C self root w = Some (r, w')"
  shows "(r = Inr () \<longrightarrow> item w' (service self) (account self) = Some root)
    \<and> (r \<noteq> Inr () \<longrightarrow> item w' = item w)
    \<and> (\<forall>s a. (s, a) \<noteq> (service self, account self) \<longrightarrow> item w' s a = item w s a)
    \<and> (item w (service self) (account self) \<noteq> None \<and> r = Inr () \<longrightarrow>
        (\<exists>code t w1. code \<noteq> - 25300 \<and> kc_search C (service self) (account self) w = (Inl (code, t), w1)))"
  by (rule keychain_store.create_cases [OF assms(1) assms(2) [unfolded keychain_restore_def]])

theorem keychain_installation_witness:
  "\<exists>w'. keychain_restore memory_keychain KeychainSigner_default (replicate 32 2)
       (sample_keychain_world (\<lambda>_ _. Some (replicate 32 1)) True) = Some (Inr (), w')
     \<and> kw_items w' SERVICE ACCOUNT = Some (replicate 32 2)"
proof -
  obtain w' where run: "keychain_restore memory_keychain KeychainSigner_default (replicate 32 2)
       (sample_keychain_world (\<lambda>_ _. Some (replicate 32 1)) True) = Some (Inr (), w')"
    by (simp add: keychain_restore_def create_from_root_secret_def keychain_exists_def keychain_presence_def
        io_bind_def io_try_def io_map_err_def memory_keychain_def)
  from keychain_installation [OF memory.keychain_store_axioms run] run show ?thesis
    by (auto simp: KeychainSigner_default_def)
qed

text \<open>
  A root created in the Keychain is the root the signer serves: creation answers 32 bytes, a
  later successful read answers the same bytes, and signing then verifies under the identity key of
  that root.  A read never panics, serves 32 bytes or refuses, and reports a locked device and a
  cancelled prompt as \<^verbatim>\<open>AuthRequired\<close>, a missing item as \<^verbatim>\<open>KeyNotFound\<close>.
\<close>

theorem keychain_serves_created_root:
  assumes "keychain_store C item" and "identity_crates K"
    and "create_root_secret C self w = Some (Inr root, w1)"
    and "kc_password C (service self) (account self) w1 = (Inr d, w2)"
  shows "length root = 32 \<and> keychain_root_secret C self w1 = Some (Inr root, w2)
    \<and> (\<exists>sig pk. keychain_sign K C self msg w1 = Some (Inr sig, w2)
         \<and> identity_pubkey K root = Some pk \<and> identity_verify K pk msg sig)
    \<and> (\<forall>v. \<exists>r v'. keychain_root_secret C self v = Some (r, v')
         \<and> (\<forall>root'. r = Inr root' \<longrightarrow> length root' = 32)
         \<and> (\<forall>t. kc_password C (service self) (account self) v = (Inl (- 25308, t), v') \<longrightarrow>
              r = Inl (AuthRequired ''Unlock the device once after restart to access the identity''))
         \<and> (\<forall>t. kc_password C (service self) (account self) v = (Inl (- 25300, t), v') \<longrightarrow>
              r = Inl (KeyNotFound ''No identity in Keychain''))
         \<and> (\<forall>t. kc_password C (service self) (account self) v = (Inl (- 128, t), v') \<longrightarrow>
              r = Inl (AuthRequired ''Device authentication cancelled'')))"
proof -
  from assms(3) obtain w0 w0' where fill: "fill_bytes 32 w0 = Some (Inr root :: signer_error + _, w0')"
    and create: "create_from_root_secret C self root w0' = Some (Inr (), w1)"
    by (auto simp: create_root_secret_def io_bind_Some_iff split: if_splits)
  have len: "length root = 32" by (rule fill_bytes_length [OF fill])
  have "d = root"
    using keychain_store.create_cases [OF assms(1) create] keychain_store.read_ok [OF assms(1) assms(4)] by auto
  then have read: "keychain_root_secret C self w1 = Some (Inr root, w2)"
    using len by (simp add: keychain_root_secret_def io_bind_def io_map_err_def assms(4) copy_at_def)
  have sign: "keychain_sign K C self msg w1 = Some (Inr (ed_sign K (identity_seed K root) msg), w2)"
    by (rule keychain_contract.sign_ok [OF assms(2) read])
  have table: "\<exists>r v'. keychain_root_secret C self v = Some (r, v')
         \<and> (\<forall>root'. r = Inr root' \<longrightarrow> length root' = 32)
         \<and> (\<forall>t. kc_password C (service self) (account self) v = (Inl (- 25308, t), v') \<longrightarrow>
              r = Inl (AuthRequired ''Unlock the device once after restart to access the identity''))
         \<and> (\<forall>t. kc_password C (service self) (account self) v = (Inl (- 25300, t), v') \<longrightarrow>
              r = Inl (KeyNotFound ''No identity in Keychain''))
         \<and> (\<forall>t. kc_password C (service self) (account self) v = (Inl (- 128, t), v') \<longrightarrow>
              r = Inl (AuthRequired ''Device authentication cancelled''))" for v
  proof -
    obtain q v' where q: "kc_password C (service self) (account self) v = (q, v')"
      by (cases "kc_password C (service self) (account self) v")
    show ?thesis
      by (cases q; rule exI [of _ "case q of Inl e \<Rightarrow> Inl (map_read_error e)
           | Inr d \<Rightarrow> if length d = 32 then Inr d
               else Inl (DecryptionFailed (''Invalid root secret length: '' @ show_nat (length d) @ '' (expected 32)''))"];
          rule exI [of _ v'])
        (auto simp: keychain_root_secret_def io_bind_def io_map_err_def q copy_at_def map_read_error_def)
  qed
  from keychain_contract.sign_verifies [OF assms(2) sign] read sign len table show ?thesis
    by (intro conjI allI) auto
qed

theorem keychain_serves_created_root_witness:
  "\<exists>root w1. create_root_secret memory_keychain KeychainSigner_default
       (sample_keychain_world (\<lambda>_ _. None) False) = Some (Inr root, w1)
     \<and> keychain_root_secret memory_keychain KeychainSigner_default w1 = Some (Inr root, w1) \<and> length root = 32"
proof -
  obtain root w1 where run: "create_root_secret memory_keychain KeychainSigner_default
       (sample_keychain_world (\<lambda>_ _. None) False) = Some (Inr root, w1)"
    and item: "kw_items w1 SERVICE ACCOUNT = Some root"
    by (auto simp: create_root_secret_def create_from_root_secret_def keychain_exists_def keychain_presence_def
        io_bind_def io_try_def io_map_err_def memory_keychain_def fill_bytes_def Let_def KeychainSigner_default_def)
  have "kc_password memory_keychain (service KeychainSigner_default) (account KeychainSigner_default) w1
      = (Inr root, w1)"
    using item by (simp add: memory_keychain_def KeychainSigner_default_def)
  from keychain_serves_created_root [OF memory.keychain_store_axioms lite_identity.identity_crates_axioms run this]
  show ?thesis using run by auto
qed

end
