(* ===== verification/AndroidKeystore.thy ===== *)
theory AndroidKeystore
  imports Signer
begin

text \<open>
  The Android adapter, \<^verbatim>\<open>src/android_keystore_signer.rs\<close>.  A \<^verbatim>\<open>keyring::Entry\<close> is a record of its
  two calls, each a step of the world.
\<close>

definition ANDROID_SERVICE :: string where
  "ANDROID_SERVICE = ''io.styrene.identity''"

definition ANDROID_ACCOUNT :: string where
  "ANDROID_ACCOUNT = ''root-secret''"

text \<open>\<^verbatim>\<open>keyring::Error\<close>, as far as the adapter distinguishes it, with the text of the others.\<close>

datatype keyring_error = NoEntry | NoStorageAccess string | KeyringOther string

record 'w keyring_entry =
  get_secret :: "('w, keyring_error + byte list) act"
  set_secret :: "byte list \<Rightarrow> ('w, keyring_error + unit) act"

type_synonym 'w entry_builder = "string \<Rightarrow> string \<Rightarrow> ('w, keyring_error + 'w keyring_entry) act"

record 'w android_signer =
  entry :: "'w keyring_entry"

definition map_storage_error :: "keyring_error \<Rightarrow> signer_error" where
  "map_storage_error e =
     (case e of
        NoEntry \<Rightarrow> KeyNotFound ''no Android identity''
      | NoStorageAccess t \<Rightarrow> Unavailable (''Android Keystore access: '' @ t)
      | KeyringOther t \<Rightarrow> DecryptionFailed (''Android Keystore: '' @ t))"

definition decode_root_secret :: "byte list \<Rightarrow> signer_error + byte list" where
  "decode_root_secret secret =
     ok_or (DecryptionFailed (''invalid Android Keystore root secret length: '' @ show_nat (length secret)))
       (try_into_array 32 secret)"

definition AndroidKeystoreSigner_new ::
  "('w, string + 'w entry_builder) act \<Rightarrow> string \<Rightarrow> string \<Rightarrow> ('w, signer_error, 'w android_signer) io" where
  "AndroidKeystoreSigner_new from_ndk_context service account =
     io_bind (io_map_err (\<lambda>e. Unavailable (''Android context: '' @ e)) (io_act from_ndk_context)) (\<lambda>builder.
     io_bind (io_map_err map_storage_error (io_act (builder service account))) (\<lambda>credential.
     io_ok \<lparr> entry = credential \<rparr>))"

definition verification_failed :: signer_error where
  "verification_failed = DecryptionFailed ''Android Keystore root secret verification failed''"

definition load_or_create_root_secret ::
  "crates \<Rightarrow> ('z world_scheme) android_signer \<Rightarrow> ('z world_scheme, signer_error, byte list) io" where
  "load_or_create_root_secret K self =
     io_try (io_act (get_secret (entry self))) (\<lambda>found.
       case found of
         Inr secret \<Rightarrow> io_res (decode_root_secret secret)
       | Inl e \<Rightarrow>
           if e = NoEntry then
             io_bind (fill_bytes 32) (\<lambda>secret.
             io_bind (io_map_err map_storage_error (io_act (set_secret (entry self) secret))) (\<lambda>_.
             io_bind (io_map_err map_storage_error (io_act (get_secret (entry self)))) (\<lambda>persisted.
             if \<not> ct_eq K secret persisted then io_err verification_failed
             else io_ok secret)))
           else io_err (map_storage_error e))"

definition load_root_secret :: "'w android_signer \<Rightarrow> ('w, signer_error, byte list) io" where
  "load_root_secret self =
     io_bind (io_map_err map_storage_error (io_act (get_secret (entry self)))) (\<lambda>secret.
     io_res (decode_root_secret secret))"

definition android_exists :: "'w android_signer \<Rightarrow> ('w, signer_error, bool) io" where
  "android_exists self =
     io_try (io_act (get_secret (entry self))) (\<lambda>found.
       case found of
         Inr _ \<Rightarrow> io_ok True
       | Inl e \<Rightarrow> if e = NoEntry then io_ok False else io_err (map_storage_error e))"

definition android_restore ::
  "crates \<Rightarrow> 'w android_signer \<Rightarrow> byte list \<Rightarrow> ('w, signer_error, unit) io" where
  "android_restore K self secret =
     io_bind (android_exists self) (\<lambda>exists.
     if exists then io_err (Unavailable ''Identity already exists in Android Keystore'')
     else
       io_bind (io_map_err map_storage_error (io_act (set_secret (entry self) secret))) (\<lambda>_.
       io_bind (io_map_err map_storage_error (io_act (get_secret (entry self)))) (\<lambda>persisted.
       if \<not> ct_eq K secret persisted then io_err verification_failed else io_ok ())))"

definition android_sign ::
  "crates \<Rightarrow> ('z world_scheme) android_signer \<Rightarrow> byte list \<Rightarrow> ('z world_scheme, signer_error, byte list) io" where
  "android_sign K self msg =
     io_bind (load_or_create_root_secret K self) (\<lambda>root.
     io_pure (do {
       seed \<leftarrow> derive K (KeyDeriver_new K root) Signing;
       Some (Inr (sign_with_seed K seed msg))
     }))"

definition android_as_signer ::
  "crates \<Rightarrow> ('z world_scheme) android_signer \<Rightarrow> 'z world_scheme signer" where
  "android_as_signer K self = \<lparr>
     sg_tier = (\<lambda>w. (DeviceHsm, w)), sg_label = (\<lambda>w. (''Android Keystore'', w)),
     sg_is_available = (\<lambda>w. (True, w)),
     sg_root_secret = load_or_create_root_secret K self, sg_sign = android_sign K self \<rparr>"

interpretation android_contract:
  identity_signer K "load_or_create_root_secret K self" "android_sign K self"
  for K :: crates and self :: "('z world_scheme) android_signer"
  by unfold_locales (simp add: android_sign_def sign_with_root_def)

subsection \<open>The entry's documented behaviour\<close>

text \<open>
  A read answers what is stored, \<^verbatim>\<open>NoEntry\<close> only when nothing is; a successful write stores the
  bytes, a failed one and every read change nothing.
\<close>

locale secret_entry =
  fixes E :: "('z world_scheme) keyring_entry" and held :: "'z world_scheme \<Rightarrow> byte list option"
  assumes get_ok: "get_secret E w = (Inr d, w') \<Longrightarrow> held w = Some d"
    and get_absent: "get_secret E w = (Inl NoEntry, w') \<Longrightarrow> held w = None"
    and get_keeps: "get_secret E w = (r, w') \<Longrightarrow> held w' = held w"
    and set_stores: "set_secret E d w = (Inr u, w') \<Longrightarrow> held w' = Some d"
    and set_fails: "set_secret E d w = (Inl e, w') \<Longrightarrow> held w' = held w"
    and random_keeps: "fill_bytes k w = Some (Inr b :: signer_error + byte list, w') \<Longrightarrow> held w' = held w"
begin

lemma exists_outcome:
  assumes "android_exists \<lparr> entry = E \<rparr> w = Some (r, w')"
  shows "held w' = held w" and "r = Inr b \<Longrightarrow> b \<longleftrightarrow> held w \<noteq> None"
proof -
  obtain q w1 where q: "get_secret E w = (q, w1)" by (cases "get_secret E w")
  with assms get_ok [of w _ w1] get_absent [of w w1] get_keeps [OF q]
  show "held w' = held w" "r = Inr b \<Longrightarrow> b \<longleftrightarrow> held w \<noteq> None"
    by (auto simp: android_exists_def io_try_def split: sum.splits if_splits)
qed

lemma write_back:
  assumes "io_bind (io_map_err map_storage_error (io_act (set_secret E d))) (\<lambda>_.
       io_bind (io_map_err map_storage_error (io_act (get_secret E))) (\<lambda>persisted.
       if \<not> ct_eq K d persisted then io_err verification_failed else io_ok x)) w = Some (r, w')"
    and "ct_crate K"
  shows "held w' = Some d \<or> held w' = held w \<and> (\<exists>e. r = Inl e)" and "r = Inr y \<Longrightarrow> y = x \<and> held w' = Some d"
proof -
  obtain s w1 where s: "set_secret E d w = (s, w1)" by (cases "set_secret E d w")
  obtain q w2 where q: "get_secret E w1 = (q, w2)" by (cases "get_secret E w1")
  note laws = set_stores [of d w _ w1] set_fails [of d w _ w1] get_ok [of w1 _ w2] get_keeps [OF q]
    ct_crate.ct_eq_iff [OF assms(2)]
  show "held w' = Some d \<or> held w' = held w \<and> (\<exists>e. r = Inl e)" "r = Inr y \<Longrightarrow> y = x \<and> held w' = Some d"
    using assms(1) s q laws by (auto simp: io_bind_def io_map_err_def map_err_def split: sum.splits if_splits)
qed

end

text \<open>An entry kept in memory.\<close>

record android_world = world +
  aw_secret :: "byte list option"

definition memory_entry :: "android_world keyring_entry" where
  "memory_entry = \<lparr>
     get_secret = (\<lambda>w. (case aw_secret w of Some d \<Rightarrow> Inr d | None \<Rightarrow> Inl NoEntry, w)),
     set_secret = (\<lambda>d w. (Inr (), w \<lparr> aw_secret := Some d \<rparr>)) \<rparr>"

lemma fill_bytes_secret: "fill_bytes k w = Some (r, w') \<Longrightarrow> aw_secret w' = aw_secret w"
  by (auto simp: fill_bytes_def Let_def split: option.splits)

interpretation memory_secret: secret_entry memory_entry aw_secret
  by unfold_locales (auto simp: memory_entry_def dest: fill_bytes_secret split: option.splits)

definition sample_android_world :: "byte list option \<Rightarrow> android_world" where
  "sample_android_world d = world.extend sample_world \<lparr> aw_secret = d \<rparr>"

lemma sample_android_world_simps [simp]:
  "aw_secret (sample_android_world d) = d" "faults (sample_android_world d) k = None"
  by (simp_all add: sample_android_world_def world.defs sample_world_def)

subsection \<open>Properties\<close>

text \<open>
  Restoring into the Android Keystore never replaces custody: with a secret in the entry it
  fails and the secret stays; a success means that the entry was empty and now holds exactly the
  restored root, read back and compared; whatever fails on the way, the entry holds what it held or
  the restored root.  \<^verbatim>\<open>load_root_secret\<close> never writes.
\<close>

theorem android_restore_keeps_custody:
  assumes "secret_entry E held" and "ct_crate K"
    and "android_restore K \<lparr> entry = E \<rparr> secret w = Some (r, w')"
  shows "(held w \<noteq> None \<longrightarrow> held w' = held w \<and> r \<noteq> Inr ())
    \<and> (r = Inr () \<longrightarrow> held w = None \<and> held w' = Some secret)
    \<and> (held w' = held w \<or> held w' = Some secret)
    \<and> (\<forall>q v. load_root_secret \<lparr> entry = E \<rparr> w = Some (q, v) \<longrightarrow> held v = held w)"
proof -
  have load: "held v = held w" if load: "load_root_secret \<lparr> entry = E \<rparr> w = Some (q, v)" for q v
  proof -
    obtain g w1 where g: "get_secret E w = (g, w1)" by (cases "get_secret E w")
    with load secret_entry.get_keeps [OF assms(1) g] show ?thesis
      by (auto simp: load_root_secret_def io_bind_def io_map_err_def split: sum.splits)
  qed
  obtain re w1 where e: "android_exists \<lparr> entry = E \<rparr> w = Some (re, w1)"
    using assms(3) by (auto simp: android_restore_def io_bind_def split: option.splits prod.splits)
  note same = secret_entry.exists_outcome [OF assms(1) e]
  consider x where "re = Inl x" | "re = Inr True" | "re = Inr False"
    by (cases re) (auto split: bool.splits)
  then show ?thesis
  proof cases
    case 1
    with assms(3) e same load show ?thesis by (auto simp: android_restore_def io_bind_def)
  next
    case 2
    with assms(3) e same load show ?thesis by (auto simp: android_restore_def io_bind_def)
  next
    case 3
    then have none: "held w = None" using same(2) by auto
    have "io_bind (io_map_err map_storage_error (io_act (set_secret E secret))) (\<lambda>_.
       io_bind (io_map_err map_storage_error (io_act (get_secret E))) (\<lambda>persisted.
       if \<not> ct_eq K secret persisted then io_err verification_failed else io_ok ())) w1 = Some (r, w')"
      using assms(3) e 3 by (simp add: android_restore_def io_bind_def)
    from secret_entry.write_back [OF assms(1) this assms(2)] none same(1) load show ?thesis by auto
  qed
qed

theorem android_restore_keeps_custody_witness:
  "\<exists>w' w''. android_restore ref_crates \<lparr> entry = memory_entry \<rparr> (replicate 32 4) (sample_android_world None)
       = Some (Inr (), w') \<and> aw_secret w' = Some (replicate 32 4)
     \<and> android_restore ref_crates \<lparr> entry = memory_entry \<rparr> (replicate 32 5) w' =
       Some (Inl (Unavailable ''Identity already exists in Android Keystore''), w'')
     \<and> aw_secret w'' = Some (replicate 32 4)"
proof -
  obtain w' where run: "android_restore ref_crates \<lparr> entry = memory_entry \<rparr> (replicate 32 4)
      (sample_android_world None) = Some (Inr (), w')"
    by (simp add: android_restore_def android_exists_def io_bind_def io_try_def io_map_err_def memory_entry_def)
  note first = android_restore_keeps_custody [OF memory_secret.secret_entry_axioms ref_ct.ct_crate_axioms run]
  have "android_restore ref_crates \<lparr> entry = memory_entry \<rparr> (replicate 32 5) w' =
       Some (Inl (Unavailable ''Identity already exists in Android Keystore''), w')"
    using first by (simp add: android_restore_def android_exists_def io_bind_def io_try_def memory_entry_def)
  with run first show ?thesis by auto
qed

text \<open>
  C30: Asking for the Android root is stable: it answers a 32-byte root only when the entry then
  holds exactly that root, creates one only when the entry was empty, never alters a secret that is
  there, and from then on every answer, and every signature, is for the same root.
\<close>

theorem android_root_is_stable:
  assumes "secret_entry E held" and "identity_crates K"
    and "load_or_create_root_secret K \<lparr> entry = E \<rparr> w = Some (r, w')"
  shows "(held w \<noteq> None \<longrightarrow> held w' = held w)
    \<and> (\<forall>root. r = Inr root \<longrightarrow> length root = 32 \<and> held w' = Some root
        \<and> (\<forall>v root' v'. held v = held w' \<and> load_or_create_root_secret K \<lparr> entry = E \<rparr> v = Some (Inr root', v')
             \<longrightarrow> root' = root \<and> held v' = Some root
                 \<and> android_sign K \<lparr> entry = E \<rparr> msg v = Some (Inr (ed_sign K (identity_seed K root) msg), v')))"
proof -
  have ct: "ct_crate K" using assms(2) by (simp add: identity_crates_def)
  have step: "(held v \<noteq> None \<longrightarrow> held v' = held v)
      \<and> (\<forall>root. q = Inr root \<longrightarrow> length root = 32 \<and> held v' = Some root)"
    if run: "load_or_create_root_secret K \<lparr> entry = E \<rparr> v = Some (q, v')" for v q v'
  proof -
    obtain g v1 where g: "get_secret E v = (g, v1)" by (cases "get_secret E v")
    note same = secret_entry.get_keeps [OF assms(1) g]
    consider d where "g = Inr d" | "g = Inl NoEntry" | x where "g = Inl x" "x \<noteq> NoEntry"
      by (cases g) auto
    then show ?thesis
    proof cases
      case 1
      with run g same secret_entry.get_ok [OF assms(1) g [unfolded 1]] show ?thesis
        by (auto simp: load_or_create_root_secret_def io_try_def decode_root_secret_def try_into_array_def
            ok_or_def split: if_splits option.splits)
    next
      case 2
      with g have none: "held v = None" using secret_entry.get_absent [OF assms(1)] by auto
      from run g 2 obtain s v2 where fill: "fill_bytes 32 v1 = Some (Inr s :: signer_error + _, v2)"
        and stored: "io_bind (io_map_err map_storage_error (io_act (set_secret E s))) (\<lambda>_.
             io_bind (io_map_err map_storage_error (io_act (get_secret E))) (\<lambda>persisted.
             if \<not> ct_eq K s persisted then io_err verification_failed else io_ok s)) v2 = Some (q, v')"
        unfolding load_or_create_root_secret_def by (auto simp: io_try_def io_bind_Some_iff [of "fill_bytes 32"])
      show ?thesis
        using secret_entry.write_back [OF assms(1) stored ct] none fill_bytes_length [OF fill] by auto
    next
      case 3
      with run g same show ?thesis by (auto simp: load_or_create_root_secret_def io_try_def)
    qed
  qed
  have later: "root' = root \<and> held v' = Some root
      \<and> android_sign K \<lparr> entry = E \<rparr> msg v = Some (Inr (ed_sign K (identity_seed K root) msg), v')"
    if "r = Inr root" "held v = held w'" "load_or_create_root_secret K \<lparr> entry = E \<rparr> v = Some (Inr root', v')"
    for root v root' v'
  proof -
    from step [OF assms(3)] that(1) have "held w' = Some root" by simp
    with step [OF that(3)] that(2) have eq: "root' = root" "held v' = Some root" by auto
    with android_contract.sign_ok [OF assms(2) that(3)] show ?thesis by simp
  qed
  show ?thesis using step [OF assms(3)] later by blast
qed

theorem android_root_is_stable_witness:
  "\<exists>root w'. load_or_create_root_secret lite_crates \<lparr> entry = memory_entry \<rparr> (sample_android_world None)
       = Some (Inr root, w') \<and> aw_secret w' = Some root
     \<and> load_or_create_root_secret lite_crates \<lparr> entry = memory_entry \<rparr> w' = Some (Inr root, w')"
proof -
  obtain root w' where run: "load_or_create_root_secret lite_crates \<lparr> entry = memory_entry \<rparr>
      (sample_android_world None) = Some (Inr root, w')"
    by (simp add: load_or_create_root_secret_def io_bind_def io_try_def io_map_err_def memory_entry_def
        fill_bytes_def Let_def)
  have "length root = 32 \<and> aw_secret w' = Some root"
    using android_root_is_stable [OF memory_secret.secret_entry_axioms lite_identity.identity_crates_axioms run]
    by blast
  with run show ?thesis
    by (intro exI [of _ root] exI [of _ w'])
      (simp add: load_or_create_root_secret_def io_try_def memory_entry_def decode_root_secret_def
        try_into_array_def ok_or_def)
qed

end
