(* ===== verification/YubiKey.thy ===== *)
theory YubiKey
  imports Signer RefCrates
begin

text \<open>
  The FIDO2 adapter, \<^verbatim>\<open>src/yubikey_signer.rs\<close>.  The device library \<^verbatim>\<open>ctap_hid_fido2\<close>
  is a record of the calls the adapter makes; the argument builders are records of what it sets.
\<close>

definition styrene_identity_salt :: "crates \<Rightarrow> byte list option" where
  "styrene_identity_salt K =
     (let result = sha256_digest K (str_bytes ''styrene-identity-root-v1'')
      in copy_at 0 32 result (replicate 32 0))"

type_synonym 'w pin_provider = "('w, signer_error, string option) io"

definition NoPinProvider :: "'w pin_provider" where
  "NoPinProvider = io_ok None"

datatype fido_extension = HmacSecret "byte list option" | OtherExtension string

record make_credential_args =
  mk_rp_id :: string
  mk_challenge :: "byte list"
  mk_key_type :: string
  mk_hmac_secret :: bool
  mk_resident_key :: bool
  mk_pin :: "string option"

record get_assertion_args =
  ga_rp_id :: string
  ga_challenge :: "byte list"
  ga_credential_id :: "byte list"
  ga_extensions :: "fido_extension list"
  ga_pin :: "string option"
  ga_without_pin_and_uv :: bool

record 'w fido =
  fido_devices :: "('w, nat) act"
  fido_create :: "('w, string + nat) act"
  fido_make_credential :: "nat \<Rightarrow> make_credential_args \<Rightarrow> ('w, string + byte list) act"
  fido_get_assertion :: "nat \<Rightarrow> get_assertion_args \<Rightarrow> ('w, string + fido_extension list list) act"

record 'w yubikey_signer =
  credential_id_b64 :: string
  rp_id :: string
  require_touch :: bool
  yk_label :: string
  pin_provider :: "'w pin_provider"

definition YubiKeySigner_new :: "string \<Rightarrow> string \<Rightarrow> bool \<Rightarrow> 'w pin_provider \<Rightarrow> 'w yubikey_signer" where
  "YubiKeySigner_new cred rp touch provider = \<lparr>
     credential_id_b64 = cred, rp_id = rp, require_touch = touch,
     yk_label = ''yubikey:'' @ rp, pin_provider = provider \<rparr>"

definition setup_credential ::
  "crates \<Rightarrow> 'z world_scheme fido \<Rightarrow> string \<Rightarrow> string option \<Rightarrow> ('z world_scheme, signer_error, string) io" where
  "setup_credential K F rp pin =
     io_bind (io_map_err (\<lambda>e. Unavailable (''no YubiKey detected: '' @ e)) (io_act (fido_create F))) (\<lambda>device.
     io_bind (fill_bytes 32) (\<lambda>challenge.
     let args = \<lparr> mk_rp_id = rp, mk_challenge = challenge, mk_key_type = ''Ed25519'',
                  mk_hmac_secret = True, mk_resident_key = True, mk_pin = pin \<rparr> in
     io_bind (io_map_err (\<lambda>e. SigningFailed (''credential creation failed: '' @ e))
       (io_act (fido_make_credential F device args))) (\<lambda>cred_id.
     if cred_id = [] then io_err (KeyNotFound ''no credential ID in attestation response'')
     else io_ok (base64_encode K cred_id))))"

text \<open>The scan for the first \<^verbatim>\<open>HmacSecret(Some(_))\<close>.\<close>

fun first_hmac_secret :: "fido_extension list \<Rightarrow> byte list option" where
  "first_hmac_secret [] = None"
| "first_hmac_secret (HmacSecret (Some out) # es) = Some out"
| "first_hmac_secret (HmacSecret None # es) = first_hmac_secret es"
| "first_hmac_secret (OtherExtension e # es) = first_hmac_secret es"

definition assertion_args ::
  "'w yubikey_signer \<Rightarrow> byte list \<Rightarrow> byte list \<Rightarrow> byte list \<Rightarrow> string option \<Rightarrow> get_assertion_args" where
  "assertion_args self credential_id salt challenge pin = \<lparr>
     ga_rp_id = rp_id self, ga_challenge = challenge, ga_credential_id = credential_id,
     ga_extensions = [HmacSecret (Some salt)], ga_pin = pin,
     ga_without_pin_and_uv = (pin = None \<and> \<not> require_touch self) \<rparr>"

definition no_hmac_output :: signer_error where
  "no_hmac_output = KeyNotFound (''YubiKey did not return hmac-secret output '' @ [CHR 0xE2, CHR 0x80, CHR 0x94]
     @ '' ensure the credential was created with hmac-secret enabled'')"

definition derive_root ::
  "crates \<Rightarrow> 'z world_scheme fido \<Rightarrow> 'z world_scheme yubikey_signer \<Rightarrow> string option
     \<Rightarrow> ('z world_scheme, signer_error, byte list) io" where
  "derive_root K F self pin =
     io_bind (io_map_err (\<lambda>e. Unavailable (''no YubiKey detected: '' @ e)) (io_act (fido_create F))) (\<lambda>device.
     io_bind (io_res (map_err (\<lambda>e. KeyNotFound (''invalid credential ID base64: '' @ e))
       (base64_decode K (credential_id_b64 self)))) (\<lambda>credential_id.
     io_bind (io_pure (map_option Inr (styrene_identity_salt K))) (\<lambda>salt.
     io_bind (fill_bytes 32) (\<lambda>challenge.
     io_bind (io_map_err (\<lambda>e. SigningFailed (''hmac-secret assertion failed: '' @ e))
       (io_act (fido_get_assertion F device (assertion_args self credential_id salt challenge pin)))) (\<lambda>assertions.
     io_bind (io_res (ok_or (KeyNotFound ''no assertion returned'')
       (case assertions of [] \<Rightarrow> None | a # _ \<Rightarrow> Some a))) (\<lambda>assertion.
     io_res (ok_or no_hmac_output (first_hmac_secret assertion))))))))"

definition yubikey_root_secret ::
  "crates \<Rightarrow> 'z world_scheme fido \<Rightarrow> 'z world_scheme yubikey_signer
     \<Rightarrow> ('z world_scheme, signer_error, byte list) io" where
  "yubikey_root_secret K F self = io_bind (pin_provider self) (\<lambda>pin. derive_root K F self pin)"

definition yubikey_sign ::
  "crates \<Rightarrow> 'z world_scheme fido \<Rightarrow> 'z world_scheme yubikey_signer \<Rightarrow> byte list
     \<Rightarrow> ('z world_scheme, signer_error, byte list) io" where
  "yubikey_sign K F self msg =
     io_bind (yubikey_root_secret K F self) (\<lambda>root.
     io_pure (do {
       seed \<leftarrow> derive K (KeyDeriver_new K root) Signing;
       let sig = sign_with_seed K seed msg;
       Some (Inr sig)
     }))"

definition yubikey_is_available :: "'w fido \<Rightarrow> ('w, bool) act" where
  "yubikey_is_available F w = (case fido_devices F w of (n, w') \<Rightarrow> (n \<noteq> 0, w'))"

definition yubikey_as_signer ::
  "crates \<Rightarrow> 'z world_scheme fido \<Rightarrow> 'z world_scheme yubikey_signer \<Rightarrow> 'z world_scheme signer" where
  "yubikey_as_signer K F self = \<lparr>
     sg_tier = (\<lambda>w. (HardwareHsm, w)), sg_label = (\<lambda>w. (yk_label self, w)),
     sg_is_available = yubikey_is_available F,
     sg_root_secret = yubikey_root_secret K F self, sg_sign = yubikey_sign K F self \<rparr>"

interpretation yubikey_contract:
  identity_signer K "yubikey_root_secret K F self" "yubikey_sign K F self"
  for K :: crates and F :: "'z world_scheme fido" and self :: "'z world_scheme yubikey_signer"
  by unfold_locales (simp add: yubikey_sign_def sign_with_root_def Let_def)

subsection \<open>The device's documented behaviour\<close>

text \<open>
  The \<^verbatim>\<open>hmac-secret\<close> extension of CTAP2: every output in an assertion for one salt is the 32-byte
  value of a function that the device keeps per credential, at the salt and at the way the user was
  verified (a PIN, or the request to do without one); the challenge has no part in it.
\<close>

locale hmac_secret_device =
  fixes F :: "'w fido" and hmac :: "byte list \<Rightarrow> byte list \<Rightarrow> bool \<times> bool \<Rightarrow> byte list"
  assumes hmac_output: "fido_get_assertion F dev args w = (Inr found, w') \<Longrightarrow>
      ga_extensions args = [HmacSecret (Some salt)] \<Longrightarrow> a \<in> set found \<Longrightarrow> HmacSecret (Some out) \<in> set a \<Longrightarrow>
      out = hmac (ga_credential_id args) salt (ga_pin args \<noteq> None, ga_without_pin_and_uv args)"
    and hmac_length: "length (hmac cred salt mode) = 32"

lemma io_map_err_Inr_iff: "io_map_err g m w = Some (Inr a, w') \<longleftrightarrow> m w = Some (Inr a, w')"
  by (auto simp: io_map_err_def map_err_def split: option.splits sum.splits)

lemma first_Some_iff: "(case xs of [] \<Rightarrow> None | x # _ \<Rightarrow> Some x) = Some a \<longleftrightarrow> (\<exists>rest. xs = a # rest)"
  by (cases xs) auto

lemma first_hmac_secret_mem: "first_hmac_secret es = Some out \<Longrightarrow> HmacSecret (Some out) \<in> set es"
  by (induction es rule: first_hmac_secret.induct) auto

lemma styrene_identity_salt_eq:
  "hash_crate K \<Longrightarrow> styrene_identity_salt K = Some (sha256_digest K (str_bytes ''styrene-identity-root-v1''))"
  by (simp add: styrene_identity_salt_def copy_at_def hash_crate.length_sha256)

text \<open>A successful derivation, step by step.\<close>

lemma derive_root_Inr:
  assumes "hash_crate K" and "hmac_secret_device F hmac" and "derive_root K F self pin w = Some (Inr root, w')"
  shows "\<exists>cred. base64_decode K (credential_id_b64 self) = Inr cred
    \<and> root = hmac cred (sha256_digest K (str_bytes ''styrene-identity-root-v1'')) (pin \<noteq> None, pin = None \<and> \<not> require_touch self)"
proof -
  obtain cred challenge dev v v' a rest where cred: "base64_decode K (credential_id_b64 self) = Inr cred"
    and get: "fido_get_assertion F dev (assertion_args self cred
        (sha256_digest K (str_bytes ''styrene-identity-root-v1'')) challenge pin) v = (Inr (a # rest), v')"
    and out: "first_hmac_secret a = Some root"
    using assms(3) unfolding derive_root_def styrene_identity_salt_eq [OF assms(1)]
    by (auto simp: io_bind_Inr_iff io_map_err_Inr_iff map_err_Inr_iff ok_or_Inr_iff first_Some_iff)
  from hmac_secret_device.hmac_output [OF assms(2) get _ _ first_hmac_secret_mem [OF out]] cred show ?thesis
    by (auto simp: assertion_args_def)
qed

text \<open>A device without a PIN that hashes the credential and the salt.\<close>

definition sample_fido :: "crates \<Rightarrow> world fido" where
  "sample_fido K = \<lparr>
     fido_devices = (\<lambda>w. (1, w)), fido_create = (\<lambda>w. (Inr 0, w)),
     fido_make_credential = (\<lambda>_ _ w. (Inr [7], w)),
     fido_get_assertion = (\<lambda>_ args w. (Inr [case ga_extensions args of
         [HmacSecret (Some salt)] \<Rightarrow> [OtherExtension ''credProtect'',
           HmacSecret (Some (sha256_digest K (ga_credential_id args @ salt)))]
       | _ \<Rightarrow> []], w)) \<rparr>"

interpretation sample_device: hmac_secret_device "sample_fido lite_crates"
  "\<lambda>cred salt _. sha256_digest lite_crates (cred @ salt)"
  by unfold_locales (auto simp: sample_fido_def)

subsection \<open>Properties\<close>

text \<open>
  C31: The YubiKey root is a function of the credential: whatever challenge was drawn and whichever
  device answered, a root is the \<^verbatim>\<open>hmac-secret\<close> value of the configured credential at the fixed
  identity salt, 32 bytes, so that a signer under the same configuration and PIN presence always
  serves the same root.  Without a device the answer is \<^verbatim>\<open>Unavailable\<close>; a malformed credential is
  refused before anything is drawn or asked; an assertion without the output is \<^verbatim>\<open>KeyNotFound\<close>.
\<close>

theorem yubikey_root_is_credential_secret:
  assumes "hash_crate K" and "hmac_secret_device F hmac"
  shows "(\<forall>w root w'. yubikey_root_secret K F self w = Some (Inr root, w') \<longrightarrow>
      (\<exists>pin w0 cred. pin_provider self w = Some (Inr pin, w0)
         \<and> base64_decode K (credential_id_b64 self) = Inr cred \<and> length root = 32
         \<and> root = hmac cred (sha256_digest K (str_bytes ''styrene-identity-root-v1''))
                    (pin \<noteq> None, pin = None \<and> \<not> require_touch self)
         \<and> (\<forall>v pin' v0 root' v'. pin_provider self v = Some (Inr pin', v0) \<and> (pin' = None \<longleftrightarrow> pin = None)
              \<and> yubikey_root_secret K F self v = Some (Inr root', v') \<longrightarrow> root' = root)))
    \<and> (\<forall>w w0 w1 pin e. pin_provider self w = Some (Inr pin, w0) \<and> fido_create F w0 = (Inl e, w1) \<longrightarrow>
         yubikey_root_secret K F self w = Some (Inl (Unavailable (''no YubiKey detected: '' @ e)), w1))
    \<and> (\<forall>w w0 w1 pin dev e. pin_provider self w = Some (Inr pin, w0) \<and> fido_create F w0 = (Inr dev, w1)
         \<and> base64_decode K (credential_id_b64 self) = Inl e \<longrightarrow>
         yubikey_root_secret K F self w = Some (Inl (KeyNotFound (''invalid credential ID base64: '' @ e)), w1))
    \<and> (first_hmac_secret es = None \<longleftrightarrow> (\<forall>out. HmacSecret (Some out) \<notin> set es))"
proof -
  have root: "\<exists>pin w0 cred. pin_provider self w = Some (Inr pin, w0)
         \<and> base64_decode K (credential_id_b64 self) = Inr cred
         \<and> root = hmac cred (sha256_digest K (str_bytes ''styrene-identity-root-v1''))
                    (pin \<noteq> None, pin = None \<and> \<not> require_touch self)"
    if "yubikey_root_secret K F self w = Some (Inr root, w')" for w root w'
    using that derive_root_Inr [OF assms] by (fastforce simp: yubikey_root_secret_def io_bind_Inr_iff)
  have first: "\<forall>w root w'. yubikey_root_secret K F self w = Some (Inr root, w') \<longrightarrow>
      (\<exists>pin w0 cred. pin_provider self w = Some (Inr pin, w0)
         \<and> base64_decode K (credential_id_b64 self) = Inr cred \<and> length root = 32
         \<and> root = hmac cred (sha256_digest K (str_bytes ''styrene-identity-root-v1''))
                    (pin \<noteq> None, pin = None \<and> \<not> require_touch self)
         \<and> (\<forall>v pin' v0 root' v'. pin_provider self v = Some (Inr pin', v0) \<and> (pin' = None \<longleftrightarrow> pin = None)
              \<and> yubikey_root_secret K F self v = Some (Inr root', v') \<longrightarrow> root' = root))"
  proof (intro allI impI)
    fix w root w'
    assume "yubikey_root_secret K F self w = Some (Inr root, w')"
    from root [OF this] obtain pin w0 cred where r: "pin_provider self w = Some (Inr pin, w0)"
      "base64_decode K (credential_id_b64 self) = Inr cred"
      "root = hmac cred (sha256_digest K (str_bytes ''styrene-identity-root-v1''))
                    (pin \<noteq> None, pin = None \<and> \<not> require_touch self)" by blast
    moreover have "root' = root" if "pin_provider self v = Some (Inr pin', v0)" "pin' = None \<longleftrightarrow> pin = None"
      "yubikey_root_secret K F self v = Some (Inr root', v')" for v pin' v0 root' v'
      using root [OF that(3)] that(1,2) r by auto
    ultimately show "\<exists>pin w0 cred. pin_provider self w = Some (Inr pin, w0)
         \<and> base64_decode K (credential_id_b64 self) = Inr cred \<and> length root = 32
         \<and> root = hmac cred (sha256_digest K (str_bytes ''styrene-identity-root-v1''))
                    (pin \<noteq> None, pin = None \<and> \<not> require_touch self)
         \<and> (\<forall>v pin' v0 root' v'. pin_provider self v = Some (Inr pin', v0) \<and> (pin' = None \<longleftrightarrow> pin = None)
              \<and> yubikey_root_secret K F self v = Some (Inr root', v') \<longrightarrow> root' = root)"
      using hmac_secret_device.hmac_length [OF assms(2)]
      by (intro exI [of _ pin] exI [of _ w0] exI [of _ cred] conjI allI impI) (blast | simp)+
  qed
  have scan: "first_hmac_secret es = None \<longleftrightarrow> (\<forall>out. HmacSecret (Some out) \<notin> set es)"
    by (induction es rule: first_hmac_secret.induct) auto
  show ?thesis
    using first scan
    by (simp add: yubikey_root_secret_def derive_root_def io_bind_def io_map_err_def)
qed

theorem yubikey_root_is_credential_secret_witness:
  "\<exists>root w'. yubikey_root_secret lite_crates (sample_fido lite_crates)
       (YubiKeySigner_new (base64_encode lite_crates [9]) ''styrene.mesh'' False NoPinProvider) sample_world
       = Some (Inr root, w') \<and> length root = 32"
proof -
  have base64: "base64_decode lite_crates = hex_decode lite_crates" "base64_encode lite_crates = hex_encode lite_crates"
    by (simp_all add: lite_crates_def ref_crates_def)
  have decode: "base64_decode lite_crates (base64_encode lite_crates [9]) = Inr [9]"
    unfolding base64 by (rule lite_hex.hex_decode_encode)
  obtain b w1 where fill: "fill_bytes 32 sample_world = Some (Inr b :: signer_error + byte list, w1)"
    using calm_fill_bytes [OF sample_world_calm(1)] by metis
  have "\<exists>root w'. yubikey_root_secret lite_crates (sample_fido lite_crates)
       (YubiKeySigner_new (base64_encode lite_crates [9]) ''styrene.mesh'' False NoPinProvider) sample_world
       = Some (Inr root, w')"
    by (simp add: yubikey_root_secret_def YubiKeySigner_new_def NoPinProvider_def derive_root_def io_bind_def
        io_map_err_def sample_fido_def styrene_identity_salt_eq [OF lite_hash.hash_crate_axioms]
        assertion_args_def decode fill)
  with yubikey_root_is_credential_secret [OF lite_hash.hash_crate_axioms sample_device.hmac_secret_device_axioms]
  show ?thesis by blast
qed

end
