(* ===== verification/Discover.thy ===== *)
theory Discover
  imports FileSigner Keychain
begin

text \<open>
  The discovery of an identity on the machine, \<^verbatim>\<open>src/discover.rs\<close>.  The Keychain branch is compiled
  under a feature on Apple systems: it is an argument that may be absent.  The two environment
  variables are arguments, \<^term>\<open>None\<close> when unset or not UTF-8.
\<close>

subsection \<open>Paths from text\<close>

text \<open>\<^verbatim>\<open>PathBuf::from\<close>: components between slashes; empty ones, and \<^verbatim>\<open>.\<close> after the first, are dropped.\<close>

fun split_slash :: "string \<Rightarrow> string list" where
  "split_slash [] = [[]]"
| "split_slash (c # cs) =
     (if c = CHR ''/'' then [] # split_slash cs
      else case split_slash cs of [] \<Rightarrow> [[c]] | p # ps \<Rightarrow> (c # p) # ps)"

definition path_of :: "string \<Rightarrow> path" where
  "path_of s =
     (let ps = split_slash s; root = (case s of CHR ''/'' # _ \<Rightarrow> True | _ \<Rightarrow> False);
          named = filter (\<lambda>c. c \<noteq> [] \<and> c \<noteq> ''.'') ps
      in \<lparr> absolute = root, comps = (if \<not> root \<and> hd ps = ''.'' then ''.'' # named else named) \<rparr>)"

text \<open>\<^verbatim>\<open>Path::is_file\<close> answers false on any error.\<close>

definition is_file_call :: "string list \<Rightarrow> bool call" where
  "is_file_call n fault f =
     (case fault of
        Some (k, _) \<Rightarrow> (Inl k, [])
      | None \<Rightarrow> (Inr (case nodes f n of Some (File _) \<Rightarrow> True | _ \<Rightarrow> False), []))"

definition path_is_file :: "path \<Rightarrow> ('z world_scheme, bool) act" where
  "path_is_file p w =
     (case on_path p is_file_call w of (Inl _, w') \<Rightarrow> (False, w') | (Inr b, w') \<Rightarrow> (b, w'))"

subsection \<open>Discovery\<close>

record discovered_identity =
  di_path :: path
  di_tier :: signer_tier
  di_label :: string

definition starts_with :: "string \<Rightarrow> string \<Rightarrow> bool" where
  "starts_with s p \<longleftrightarrow> take (length p) s = p"

definition is_hash_only :: "discovered_identity \<Rightarrow> bool" where
  "is_hash_only d \<longleftrightarrow> di_tier d = CredentialManager \<and> starts_with (di_label d) ''env:STYRENE_IDENTITY_HASH''"

definition home_dir :: "'z world_scheme \<Rightarrow> path option" where
  "home_dir w = (case home_var w of Some p \<Rightarrow> if absolute p then Some p else None | None \<Rightarrow> None)"

definition discover_hash :: "string option \<Rightarrow> discovered_identity option" where
  "discover_hash hash_var =
     (case hash_var of
        Some hash \<Rightarrow>
          if hash \<noteq> [] then Some \<lparr> di_path = path_of (''hash:'' @ hash), di_tier = CredentialManager,
            di_label = ''env:STYRENE_IDENTITY_HASH='' @ hash \<rparr>
          else None
      | None \<Rightarrow> None)"

definition discover_custom ::
  "string option \<Rightarrow> string option \<Rightarrow> ('z world_scheme, discovered_identity option) act" where
  "discover_custom custom_path hash_var w =
     (case custom_path of
        Some custom \<Rightarrow>
          (case path_is_file (path_of custom) w of
             (True, w') \<Rightarrow> (Some \<lparr> di_path = path_of custom, di_tier = EncryptedFile,
               di_label = ''env:STYRENE_IDENTITY_PATH='' @ custom \<rparr>, w')
           | (False, w') \<Rightarrow> (discover_hash hash_var, w'))
      | None \<Rightarrow> (discover_hash hash_var, w))"

definition discover_from_sources ::
  "path option \<Rightarrow> string option \<Rightarrow> string option \<Rightarrow> ('z world_scheme, discovered_identity option) act" where
  "discover_from_sources home custom_path hash_var w =
     (case home of
        Some h \<Rightarrow>
          let default = path_join (path_join (path_join h ''.config'') ''styrene'') ''identity.key'' in
          (case path_is_file default w of
             (True, w') \<Rightarrow> (Some \<lparr> di_path = default, di_tier = EncryptedFile,
               di_label = ''~/.config/styrene/identity.key'' \<rparr>, w')
           | (False, w') \<Rightarrow> discover_custom custom_path hash_var w')
      | None \<Rightarrow> discover_custom custom_path hash_var w)"

definition discover_keychain ::
  "'z world_scheme keychain \<Rightarrow> ('z world_scheme, unit, bool) io" where
  "discover_keychain C =
     io_bind (keychain_exists C KeychainSigner_default) (\<lambda>present.
     if present then io_ok True
     else keychain_exists C (KeychainSigner_new SERVICE LEGACY_BIOMETRIC_ACCOUNT))"

definition discover ::
  "'z world_scheme keychain option \<Rightarrow> string option \<Rightarrow> string option
     \<Rightarrow> ('z world_scheme, unit, discovered_identity option) io" where
  "discover keychain custom_path hash_var =
     io_bind (case keychain of Some C \<Rightarrow> discover_keychain C | None \<Rightarrow> io_ok False) (\<lambda>present.
     if present then io_ok (Some \<lparr> di_path = path_of ''(Keychain)'', di_tier = DeviceHsm,
       di_label = ''Keychain (after first unlock)'' \<rparr>)
     else io_probe (\<lambda>w. discover_from_sources (home_dir w) custom_path hash_var w))"

subsection \<open>Lemmas\<close>

text \<open>What a name holds, on a calm disk.\<close>

definition holds_file :: "path \<Rightarrow> 'z world_scheme \<Rightarrow> bool" where
  "holds_file p w \<longleftrightarrow> \<not> path_empty p \<and> custody (resolve w p) (disk w) \<noteq> None"

lemma calm_is_file:
  assumes "calm w"
  shows "\<exists>w'. path_is_file p w = (holds_file p w, w') \<and> calm_after w (disk w) w'"
proof (cases "path_empty p")
  case True
  with calm_on_empty_path [OF assms True, of is_file_call] show ?thesis
    by (auto simp: path_is_file_def holds_file_def)
next
  case False
  have call: "is_file_call (name_of (cwd w) p) None (disk w) = (Inr (holds_file p w), [])"
    using False by (auto simp: is_file_call_def holds_file_def custody_def resolve_name_of
        split: option.splits node.splits)
  from calm_on_path [where op = is_file_call, OF assms False call] show ?thesis
    by (auto simp: path_is_file_def)
qed

lemma holds_file_same: "calm_after w (disk w) w' \<Longrightarrow> holds_file p w' = holds_file p w"
  by (simp add: holds_file_def calm_after_def resolve_name_of)

lemma calm_file_available:
  assumes "calm w" and "holds_file p w"
  shows "fst (path_exists p w)"
proof -
  have "\<not> path_empty p" and "nodes (disk w) (name_of (cwd w) p) \<noteq> None"
    using assms(2) by (auto simp: holds_file_def custody_Some_iff resolve_name_of)
  with calm_exists [OF assms(1), of p] show ?thesis by auto
qed

lemma calm_custom:
  assumes "calm w"
  shows "\<exists>w'. discover_custom custom hash w =
      (case custom of
         Some c \<Rightarrow> if holds_file (path_of c) w
           then Some \<lparr> di_path = path_of c, di_tier = EncryptedFile, di_label = ''env:STYRENE_IDENTITY_PATH='' @ c \<rparr>
           else discover_hash hash
       | None \<Rightarrow> discover_hash hash, w') \<and> calm_after w (disk w) w'"
proof (cases custom)
  case None
  with assms show ?thesis by (auto simp: discover_custom_def calm_after_def)
next
  case (Some c)
  obtain w' where "path_is_file (path_of c) w = (holds_file (path_of c) w, w')" "calm_after w (disk w) w'"
    using calm_is_file [OF assms] by blast
  with Some show ?thesis
    by (intro exI [of _ w']) (simp add: discover_custom_def split: bool.split)
qed

subsection \<open>Properties\<close>

text \<open>
  C33: Without the Keychain feature and on a calm disk, discovery is the fixed priority list: the
  file at the default path of an absolute home, then the file the variable names, then a non-empty
  hash, then nothing; it only looks.  What it finds is hash-only exactly when it came from the hash
  variable, and otherwise a file signer at that path reports itself available; the default path it
  tries is the file signer's.
\<close>

theorem discovery_order:
  fixes w :: "'z world_scheme"
  assumes "calm w"
  shows "\<exists>w' d. discover None custom hash w = Some (Inr d, w') \<and> disk w' = disk w
     \<and> d = (if home_dir w \<noteq> None \<and> holds_file (default_path w) w
            then Some \<lparr> di_path = default_path w, di_tier = EncryptedFile,
                        di_label = ''~/.config/styrene/identity.key'' \<rparr>
            else case custom of
              Some c \<Rightarrow> if holds_file (path_of c) w
                then Some \<lparr> di_path = path_of c, di_tier = EncryptedFile,
                            di_label = ''env:STYRENE_IDENTITY_PATH='' @ c \<rparr>
                else discover_hash hash
            | None \<Rightarrow> discover_hash hash)
     \<and> (\<forall>x. d = Some x \<longrightarrow>
          (is_hash_only x \<longleftrightarrow> d = discover_hash hash \<and> (\<exists>h. hash = Some h \<and> h \<noteq> []))
          \<and> (\<not> is_hash_only x \<longrightarrow> di_tier x = fst (sg_tier (file_as_signer K (FileSigner_new (di_path x) provider)) w)
               \<and> fst (sg_is_available (file_as_signer K (FileSigner_new (di_path x) provider)) w)))"
proof -
  let ?default = "\<lparr> di_path = default_path w, di_tier = EncryptedFile,
    di_label = ''~/.config/styrene/identity.key'' \<rparr>"
  define rest where "rest = (case custom of
      Some c \<Rightarrow> if holds_file (path_of c) w
        then Some \<lparr> di_path = path_of c, di_tier = EncryptedFile, di_label = ''env:STYRENE_IDENTITY_PATH='' @ c \<rparr>
        else discover_hash hash
    | None \<Rightarrow> discover_hash hash)"
  define d where "d = (if home_dir w \<noteq> None \<and> holds_file (default_path w) w then Some ?default else rest)"
  have run: "\<exists>w'. discover_from_sources (home_dir w) custom hash w = (d, w') \<and> calm_after w (disk w) w'"
  proof (cases "home_dir w")
    case None
    with calm_custom [OF assms, of custom hash] show ?thesis
      by (simp add: discover_from_sources_def d_def rest_def)
  next
    case (Some h)
    then have default: "path_join (path_join (path_join h ''.config'') ''styrene'') ''identity.key'' = default_path w"
      by (auto simp: home_dir_def default_path_def split: option.splits if_splits)
    obtain w1 where w1: "path_is_file (default_path w) w = (holds_file (default_path w) w, w1)"
      "calm_after w (disk w) w1"
      using calm_is_file [OF assms] by blast
    have calm1: "calm w1" and same: "disk w1 = disk w" using w1(2) by (simp_all add: calm_after_def)
    show ?thesis
    proof (cases "holds_file (default_path w) w")
      case True
      with w1 Some show ?thesis by (simp add: discover_from_sources_def default d_def)
    next
      case False
      obtain w2 where w2: "discover_custom custom hash w1 = (rest, w2)" "calm_after w1 (disk w1) w2"
        using calm_custom [OF calm1, of custom hash] unfolding rest_def holds_file_same [OF w1(2)] by blast
      have "calm_after w (disk w) w2" using w1(2) w2(2) same by (simp add: calm_after_def)
      with w1 w2 Some False show ?thesis
        by (intro exI [of _ w2]) (simp add: discover_from_sources_def default d_def)
    qed
  qed
  then obtain w' where w': "discover_from_sources (home_dir w) custom hash w = (d, w')" "disk w' = disk w"
    by (auto simp: calm_after_def)
  have found: "discover None custom hash w = Some (Inr d, w')"
    by (simp add: discover_def io_bind_def w'(1))
  have kinds: "(is_hash_only x \<longleftrightarrow> d = discover_hash hash \<and> (\<exists>h. hash = Some h \<and> h \<noteq> []))
      \<and> (\<not> is_hash_only x \<longrightarrow> di_tier x = EncryptedFile \<and> holds_file (di_path x) w)" if "d = Some x" for x
    using that by (auto simp: d_def rest_def is_hash_only_def discover_hash_def starts_with_def
        split: if_splits option.splits)
  have avail: "fst (sg_is_available (file_as_signer K (FileSigner_new p provider)) w)" if "holds_file p w" for p
    using calm_file_available [OF assms that] by (simp add: file_as_signer_def FileSigner_new_def)
  show ?thesis
    using found w'(2) kinds avail
    by (intro exI [of _ w'] exI [of _ d] conjI allI impI)
      (auto simp: d_def rest_def file_as_signer_def)
qed

theorem discovery_order_witness:
  "\<exists>w' d. discover None None (Some ''ab'') sample_world = Some (Inr (Some d), w') \<and> is_hash_only d"
  using discovery_order [OF sample_world_calm(1), where custom = None and hash = "Some ''ab''" and K = lite_crates
      and provider = "io_ok []"]
  by (auto simp: home_dir_def sample_world_def discover_hash_def)

end
