(* ===== verification/Format.thy ===== *)
theory Format
  imports Identity
begin

text \<open>
  The protocol formats of derived keys, \<^verbatim>\<open>src/format.rs\<close>: OpenSSH lines and fingerprints, WireGuard
  and age keys, the Git configuration.  \<^verbatim>\<open>base64\<close> and \<^verbatim>\<open>bech32\<close> are parameters.
\<close>

subsection \<open>SSH\<close>

definition ssh_wire_pubkey :: "crates \<Rightarrow> byte list \<Rightarrow> byte list" where
  "ssh_wire_pubkey K seed =
     (let pubkey_bytes = ed25519_verifying_key K seed;
          key_type = str_bytes ''ssh-ed25519''
      in u32_be (of_nat (length key_type)) @ key_type
         @ u32_be (of_nat (length pubkey_bytes)) @ pubkey_bytes)"

definition ssh_pubkey :: "crates \<Rightarrow> byte list \<Rightarrow> string \<Rightarrow> string" where
  "ssh_pubkey K seed comment =
     (let b64 = base64_encode K (ssh_wire_pubkey K seed)
      in ''ssh-ed25519 '' @ b64 @ '' '' @ comment @ [CHR 0x0A])"

definition ssh_pubkey_fingerprint :: "crates \<Rightarrow> byte list \<Rightarrow> string" where
  "ssh_pubkey_fingerprint K seed =
     (let hash = sha256_digest K (ssh_wire_pubkey K seed)
      in ''SHA256:'' @ base64_encode_no_pad K hash)"

subsection \<open>WireGuard\<close>

definition wireguard_privkey :: "crates \<Rightarrow> byte list \<Rightarrow> string" where
  "wireguard_privkey K secret = base64_encode K secret"

definition wireguard_pubkey :: "crates \<Rightarrow> byte list \<Rightarrow> string" where
  "wireguard_pubkey K secret = base64_encode K (x25519_public_key K secret)"

subsection \<open>age\<close>

text \<open>\<^verbatim>\<open>to_uppercase\<close> on ASCII text, which is all that \<^verbatim>\<open>bech32\<close> writes.\<close>

definition ascii_upper :: "char \<Rightarrow> char" where
  "ascii_upper c =
     (let n = (of_char c :: nat) in if 97 \<le> n \<and> n \<le> 122 then char_of (n - 32) else c)"

definition age_identity :: "crates \<Rightarrow> byte list \<Rightarrow> string option" where
  "age_identity K secret = map_option (map ascii_upper) (bech32_encode K ''AGE-SECRET-KEY-'' secret)"

definition age_recipient :: "crates \<Rightarrow> byte list \<Rightarrow> string option" where
  "age_recipient K secret = bech32_encode K ''age'' (x25519_public_key K secret)"

subsection \<open>Git\<close>

definition git_signing_config :: "crates \<Rightarrow> byte list \<Rightarrow> string" where
  "git_signing_config K seed =
     (let b64 = base64_encode K (ssh_wire_pubkey K seed); nl = [CHR 0x0A]
      in ''[gpg]'' @ nl @ ''    format = ssh'' @ nl @ ''[user]'' @ nl
         @ ''    signingkey = key::ssh-ed25519 '' @ b64 @ nl @ ''[commit]'' @ nl
         @ ''    gpgsign = true'' @ nl)"

subsection \<open>Reading the formats back\<close>

text \<open>A string of RFC 4251: a big-endian length and that many bytes; what follows is the rest.\<close>

definition read_ssh_string :: "byte list \<Rightarrow> (byte list \<times> byte list) option" where
  "read_ssh_string b =
     (if length b < 4 \<or> length b < 4 + be_val (take 4 b) then None
      else Some (take (be_val (take 4 b)) (drop 4 b), drop (4 + be_val (take 4 b)) b))"

definition read_ssh_ed25519 :: "byte list \<Rightarrow> byte list option" where
  "read_ssh_ed25519 b = do {
     (kind, r) \<leftarrow> read_ssh_string b;
     (key, r) \<leftarrow> read_ssh_string r;
     (if kind = str_bytes ''ssh-ed25519'' \<and> r = [] \<and> length key = 32 then Some key else None)
   }"

text \<open>The second field of a line whose fields are separated by blanks.\<close>

definition second_field :: "string \<Rightarrow> string" where
  "second_field line = takeWhile (\<lambda>c. c \<noteq> CHR '' '') (tl (dropWhile (\<lambda>c. c \<noteq> CHR '' '') line))"

definition read_ssh_line :: "crates \<Rightarrow> string \<Rightarrow> byte list option" where
  "read_ssh_line K line =
     (case base64_decode K (second_field line) of Inl _ \<Rightarrow> None | Inr b \<Rightarrow> read_ssh_ed25519 b)"

text \<open>Base64 decodes what it encoded and writes no blank.\<close>

locale base64_crate =
  fixes K :: crates
  assumes base64_roundtrip: "base64_decode K (base64_encode K b) = Inr b"
    and base64_no_blank: "CHR '' '' \<notin> set (base64_encode K b)"

lemma read_ssh_string_append:
  "length s < 2 ^ 32 \<Longrightarrow> read_ssh_string (u32_be (of_nat (length s)) @ s @ r) = Some (s, r)"
  by (simp add: read_ssh_string_def u32_be_def be_val_be_bytes unat_of_nat)

lemma read_ssh_wire:
  assumes "ed25519_crate K" and "length seed = 32"
  shows "read_ssh_ed25519 (ssh_wire_pubkey K seed) = Some (ed_verifying_key K seed)"
proof -
  have len: "length (ed_verifying_key K seed) = 32" by (rule ed25519_crate.length_key [OF assms])
  show ?thesis
    using read_ssh_string_append [of "str_bytes ''ssh-ed25519''"
        "u32_be (of_nat (length (ed_verifying_key K seed))) @ ed_verifying_key K seed"]
      read_ssh_string_append [of "ed_verifying_key K seed" "[]"]
    by (simp add: ssh_wire_pubkey_def read_ssh_ed25519_def ed25519_verifying_key_def len Let_def)
qed

lemma read_ssh_pubkey:
  assumes "base64_crate K" and "ed25519_crate K" and "length seed = 32"
  shows "read_ssh_line K (ssh_pubkey K seed comment) = Some (ed_verifying_key K seed)"
proof -
  have "\<forall>c \<in> set (base64_encode K (ssh_wire_pubkey K seed)). c \<noteq> CHR '' ''"
    using base64_crate.base64_no_blank [OF assms(1)] by metis
  then have "second_field (ssh_pubkey K seed comment) = base64_encode K (ssh_wire_pubkey K seed)"
    by (simp add: second_field_def ssh_pubkey_def takeWhile_append2)
  then show ?thesis
    by (simp add: read_ssh_line_def base64_crate.base64_roundtrip [OF assms(1)] read_ssh_wire [OF assms(2,3)])
qed

end
