(* ===== verification/Export.thy ===== *)
theory Export
  imports Format SshAgent
begin

text \<open>
  The batch export of public keys, \<^verbatim>\<open>src/export.rs\<close>, and its agreement with the signer side.  The
  feature \<^verbatim>\<open>age-format\<close> is an argument.
\<close>

record all_public_keys =
  apk_identity_hash :: string
  apk_signing_pubkey :: "byte list"
  apk_signing_pubkey_hex :: string
  apk_ssh_host_pubkey :: string
  apk_ssh_host_fingerprint :: string
  apk_wireguard_pubkey :: string
  apk_age_recipient :: string

definition AllPublicKeys_from_root :: "bool \<Rightarrow> crates \<Rightarrow> byte list \<Rightarrow> all_public_keys option" where
  "AllPublicKeys_from_root age_format K root = do {
     hash \<leftarrow> identity_hash K root;
     pubkey \<leftarrow> identity_pubkey K root;
     let pubkey_hex = hex_encode K pubkey;
     let deriver = KeyDeriver_new K root;
     seed \<leftarrow> derive K deriver SshHost;
     let ssh_key = ssh_pubkey K seed ''styrene'';
     let ssh_fingerprint = ssh_pubkey_fingerprint K seed;
     wg_secret \<leftarrow> derive K deriver WireGuard;
     let wg = wireguard_pubkey K wg_secret;
     age \<leftarrow> (if age_format then do {
                age_secret \<leftarrow> derive K deriver Age;
                age_recipient K age_secret
              } else Some []);
     Some \<lparr> apk_identity_hash = hash, apk_signing_pubkey = pubkey, apk_signing_pubkey_hex = pubkey_hex,
            apk_ssh_host_pubkey = ssh_key, apk_ssh_host_fingerprint = ssh_fingerprint,
            apk_wireguard_pubkey = wg, apk_age_recipient = age \<rparr>
   }"

text \<open>\<^verbatim>\<open>bech32\<close> accepts the two human-readable parts with 32 bytes.\<close>

locale bech32_crate =
  fixes K :: crates
  assumes bech32_ok: "hrp \<in> {''age'', ''AGE-SECRET-KEY-''} \<Longrightarrow> length d = 32 \<Longrightarrow> bech32_encode K hrp d \<noteq> None"
    and length_x25519: "length secret = 32 \<Longrightarrow> length (x25519_public K secret) = 32"

lemma hex_decode_ref_encode: "base64_decode lite_crates (base64_encode lite_crates b) = Inr b"
proof -
  have "base64_decode lite_crates = hex_decode lite_crates" "base64_encode lite_crates = hex_encode lite_crates"
    by (simp_all add: lite_crates_def ref_crates_def)
  then show ?thesis by (simp add: lite_hex.hex_decode_encode)
qed

interpretation lite_base64: base64_crate lite_crates
proof
  fix b
  show "base64_decode lite_crates (base64_encode lite_crates b) = Inr b" by (rule hex_decode_ref_encode)
  have "base64_encode lite_crates = hex_encode lite_crates"
    by (simp add: lite_crates_def ref_crates_def)
  moreover have "\<not> is_lower_hex (CHR '' '')" by (simp add: is_lower_hex_def)
  ultimately show "CHR '' '' \<notin> set (base64_encode lite_crates b)"
    using lite_hex.hex_encode_lower [of "CHR '' ''" b] by auto
qed

interpretation lite_bech32: bech32_crate lite_crates
  by unfold_locales (auto simp: lite_crates_def ref_crates_def)

subsection \<open>Properties\<close>

text \<open>
  C32: The export never panics and shows exactly the public side of the keys the other components
  use: its hash and signing key are the identity's (the hash is accepted for the key, the
  hexadecimal form reads back as that identity), its SSH line reads back as the host key the agent
  lists, with the fingerprint of the same blob, the WireGuard key is that of the WireGuard branch,
  and the age recipient is empty exactly without the feature.
\<close>

theorem exported_keys_match_the_signers:
  assumes "identity_crates K" and "base64_crate K" and "bech32_crate K"
  shows "\<exists>keys. AllPublicKeys_from_root age_format K root = Some keys
     \<and> identity_pubkey K root = Some (apk_signing_pubkey keys)
     \<and> identity_hash K root = Some (apk_identity_hash keys)
     \<and> PublicIdentity_from_hex K (apk_signing_pubkey_hex keys)
         = Inr \<lparr>pi_hash = apk_identity_hash keys, pi_pubkey = apk_signing_pubkey keys\<rparr>
     \<and> apk_signing_pubkey keys = spec_key K root GitSigningSpec
     \<and> read_ssh_line K (apk_ssh_host_pubkey keys) = Some (spec_key K root HostSpec)
     \<and> (\<exists>blob. read_ssh_ed25519 blob = Some (spec_key K root HostSpec)
          \<and> apk_ssh_host_fingerprint keys = ''SHA256:'' @ base64_encode_no_pad K (sha256_digest K blob))
     \<and> base64_decode K (apk_wireguard_pubkey keys)
         = Inr (x25519_public K (path_key K root (Flat (purpose_info WireGuard))))
     \<and> (if age_format then bech32_encode K ''age''
              (x25519_public K (path_key K root (Flat (purpose_info Age)))) = Some (apk_age_recipient keys)
        else apk_age_recipient keys = [])"
proof -
  have k: "kdf_crate K" "ed25519_crate K" using assms(1) by (simp_all add: identity_crates_def)
  note derive = kdf_crate.derive_path [OF k(1)] and len = kdf_crate.length_path_key [OF k(1)]
  let ?seed = "path_key K root (Flat (purpose_info SshHost))"
  let ?age = "path_key K root (Flat (purpose_info Age))"
  let ?pk = "ed_verifying_key K (identity_seed K root)"
  let ?hash = "IdentityId_to_string K (IdentityId_from_public_key K ?pk)"
  obtain age where age: "(if age_format then age_recipient K ?age else Some []) = Some age"
  proof -
    have "bech32_encode K ''age'' (x25519_public K ?age) \<noteq> None"
      by (rule bech32_crate.bech32_ok [OF assms(3)]) (simp_all add: bech32_crate.length_x25519 [OF assms(3)] len)
    then obtain a where "age_recipient K ?age = Some a"
      unfolding age_recipient_def x25519_public_key_def by blast
    then show ?thesis using that by (cases age_format) (simp_all only: if_True if_False)
  qed
  have idh: "identity_hash K root = Some ?hash" "identity_pubkey K root = Some ?pk"
    by (simp_all add: identity_crates.identity_hash_eq [OF assms(1)] identity_crates.identity_pubkey_eq [OF assms(1)])
  have hex: "PublicIdentity_from_hex K (hex_encode K ?pk) = Inr \<lparr>pi_hash = ?hash, pi_pubkey = ?pk\<rparr>"
  proof -
    have "hex_crate K" using assms(1) by (simp add: identity_crates_def)
    moreover have "length ?pk = 32"
      by (rule ed25519_crate.length_key [OF k(2)]) (rule identity_crates.length_identity_seed [OF assms(1)])
    ultimately show ?thesis
      by (simp add: PublicIdentity_from_hex_def PublicIdentity_from_pubkey_def hex_crate.hex_decode_encode
          try_into_array_def ok_or_def Let_def)
  qed
  have run: "AllPublicKeys_from_root age_format K root = Some \<lparr>
      apk_identity_hash = ?hash, apk_signing_pubkey = ?pk, apk_signing_pubkey_hex = hex_encode K ?pk,
      apk_ssh_host_pubkey = ssh_pubkey K ?seed ''styrene'',
      apk_ssh_host_fingerprint = ssh_pubkey_fingerprint K ?seed,
      apk_wireguard_pubkey = wireguard_pubkey K (path_key K root (Flat (purpose_info WireGuard))),
      apk_age_recipient = age \<rparr>"
    using age
    by (cases age_format) (simp_all add: AllPublicKeys_from_root_def idh derive Let_def del: purpose_info.simps)
  have git: "?pk = spec_key K root GitSigningSpec"
    by (simp add: spec_key_def identity_seed_def)
  have host: "spec_key K root HostSpec = ed_verifying_key K ?seed"
    by (simp add: spec_key_def)
  have blob: "\<exists>blob. read_ssh_ed25519 blob = Some (ed_verifying_key K ?seed)
      \<and> ssh_pubkey_fingerprint K ?seed = ''SHA256:'' @ base64_encode_no_pad K (sha256_digest K blob)"
    using read_ssh_wire [OF k(2) len] unfolding ssh_pubkey_fingerprint_def Let_def by blast
  show ?thesis
    by (intro exI [where x = "\<lparr>
      apk_identity_hash = ?hash, apk_signing_pubkey = ?pk, apk_signing_pubkey_hex = hex_encode K ?pk,
      apk_ssh_host_pubkey = ssh_pubkey K ?seed ''styrene'',
      apk_ssh_host_fingerprint = ssh_pubkey_fingerprint K ?seed,
      apk_wireguard_pubkey = wireguard_pubkey K (path_key K root (Flat (purpose_info WireGuard))),
      apk_age_recipient = age \<rparr>"] conjI run)
      (use age blob read_ssh_pubkey [OF assms(2) k(2)]
        in \<open>auto simp: idh hex git [symmetric] host len wireguard_pubkey_def
          x25519_public_key_def base64_crate.base64_roundtrip [OF assms(2)] age_recipient_def
          simp del: purpose_info.simps split: if_splits\<close>)
qed

theorem exported_keys_match_the_signers_witness:
  "\<exists>keys. AllPublicKeys_from_root True lite_crates (replicate 32 7) = Some keys
     \<and> read_ssh_line lite_crates (apk_ssh_host_pubkey keys) = Some (spec_key lite_crates (replicate 32 7) HostSpec)"
  using exported_keys_match_the_signers [OF lite_identity.identity_crates_axioms lite_base64.base64_crate_axioms
      lite_bech32.bech32_crate_axioms, of True "replicate 32 7"] by blast

end
