(* ===== verification/NetAddr.thy ===== *)
theory NetAddr
  imports RefCrates
begin

text \<open>
  The parts of Rust's standard library that the certificate code uses on text: \<^verbatim>\<open>IpAddr\<close> with its
  parser (\<^verbatim>\<open>FromStr\<close>) and its \<^verbatim>\<open>Display\<close>, hexadecimal formatting, and \<^verbatim>\<open>str::to_ascii_lowercase\<close>.
  The last section shows that the text of an address determines it.
\<close>

subsection \<open>Numbers\<close>

fun show_base :: "nat \<Rightarrow> nat \<Rightarrow> string" where
  "show_base b n =
     (if n < b \<or> b < 2 then [digit_char n] else show_base b (n div b) @ [digit_char (n mod b)])"

declare show_base.simps [simp del]

text \<open>\<^verbatim>\<open>{:x}\<close>, \<^verbatim>\<open>{:016x}\<close> and \<^verbatim>\<open>to_string\<close> of a signed number.\<close>

definition show_hex :: "nat \<Rightarrow> string" where
  "show_hex n = show_base 16 n"

definition show_hex16 :: "nat \<Rightarrow> string" where
  "show_hex16 n = replicate (16 - length (show_hex n)) (CHR ''0'') @ show_hex n"

text \<open>\<^verbatim>\<open>{:02X}\<close> of a byte.\<close>

definition upper_hex_char :: "nat \<Rightarrow> char" where
  "upper_hex_char d = (if d < 10 then char_of (48 + d) else char_of (55 + d))"

definition show_HEX2 :: "nat \<Rightarrow> string" where
  "show_HEX2 n = [upper_hex_char (n div 16), upper_hex_char (n mod 16)]"

definition show_int :: "int \<Rightarrow> string" where
  "show_int i = (if i < 0 then ''-'' @ show_nat (nat (- i)) else show_nat (nat i))"

definition ascii_lower :: "char \<Rightarrow> char" where
  "ascii_lower c =
     (let n = (of_char c :: nat) in if 65 \<le> n \<and> n \<le> 90 then char_of (n + 32) else c)"

definition to_ascii_lowercase :: "string \<Rightarrow> string" where
  "to_ascii_lowercase s = map ascii_lower s"

subsection \<open>Addresses\<close>

text \<open>Four octets, or eight segments.\<close>

datatype ip_addr = V4 "byte list" | V6 "16 word list"

text \<open>The parser keeps the unread rest of the text.\<close>

fun read_given :: "char \<Rightarrow> string \<Rightarrow> string option" where
  "read_given c [] = None"
| "read_given c (d # s) = (if c = d then Some s else None)"

definition char_digit :: "nat \<Rightarrow> char \<Rightarrow> nat option" where
  "char_digit radix c =
     (let n = (of_char c :: nat);
          d = (if 48 \<le> n \<and> n \<le> 57 then Some (n - 48)
               else if 97 \<le> n \<and> n \<le> 102 then Some (n - 87)
               else if 65 \<le> n \<and> n \<le> 70 then Some (n - 55) else None)
      in case d of Some k \<Rightarrow> if k < radix then Some k else None | None \<Rightarrow> None)"

definition read_number :: "nat \<Rightarrow> nat \<Rightarrow> bool \<Rightarrow> string \<Rightarrow> (nat \<times> string) option" where
  "read_number radix max_digits allow_zero_prefix s =
     (let ds = takeWhile (\<lambda>c. char_digit radix c \<noteq> None) s;
          value = foldl (\<lambda>n c. n * radix + the (char_digit radix c)) 0 ds
      in if ds = [] \<or> max_digits < length ds
            \<or> (\<not> allow_zero_prefix \<and> hd ds = CHR ''0'' \<and> 1 < length ds)
         then None else Some (value, drop (length ds) s))"

definition read_octet :: "string \<Rightarrow> (byte \<times> string) option" where
  "read_octet s = do {
     (n, r) \<leftarrow> read_number 10 3 False s;
     (if n < 256 then Some (of_nat n, r) else None)
   }"

definition read_ipv4 :: "string \<Rightarrow> (byte list \<times> string) option" where
  "read_ipv4 s = do {
     (a, s) \<leftarrow> read_octet s;
     s \<leftarrow> read_given (CHR ''.'') s;
     (b, s) \<leftarrow> read_octet s;
     s \<leftarrow> read_given (CHR ''.'') s;
     (c, s) \<leftarrow> read_octet s;
     s \<leftarrow> read_given (CHR ''.'') s;
     (d, s) \<leftarrow> read_octet s;
     Some ([a, b, c, d], s)
   }"

definition read_separator :: "bool \<Rightarrow> string \<Rightarrow> string option" where
  "read_separator first s = (if first then Some s else read_given (CHR '':'') s)"

text \<open>
  Up to a number of groups, the last two possibly written as an IPv4 address; the flag tells whether
  they were.
\<close>

definition u16_of_octets :: "byte list \<Rightarrow> 16 word list" where
  "u16_of_octets bs = (case bs of
     [a, b, c, d] \<Rightarrow> [of_nat (256 * unat a + unat b), of_nat (256 * unat c + unat d)] | _ \<Rightarrow> [])"

fun read_groups :: "nat \<Rightarrow> bool \<Rightarrow> string \<Rightarrow> 16 word list \<times> bool \<times> string" where
  "read_groups 0 first s = ([], False, s)"
| "read_groups (Suc n) first s =
     (case (if 0 < n then read_separator first s \<bind> read_ipv4 else None) of
        Some (octets, r) \<Rightarrow> (u16_of_octets octets, True, r)
      | None \<Rightarrow>
          (case read_separator first s \<bind> read_number 16 4 True of
             Some (g, r) \<Rightarrow>
               (case read_groups n False r of (gs, v4, r') \<Rightarrow> (of_nat g # gs, v4, r'))
           | None \<Rightarrow> ([], False, s)))"

definition read_ipv6 :: "string \<Rightarrow> (16 word list \<times> string) option" where
  "read_ipv6 s =
     (case read_groups 8 True s of (head, head_ipv4, s) \<Rightarrow>
        if length head = 8 then Some (head, s)
        else if head_ipv4 then None
        else do {
          s \<leftarrow> read_given (CHR '':'') s;
          s \<leftarrow> read_given (CHR '':'') s;
          (case read_groups (8 - (length head + 1)) True s of (tail, _, s) \<Rightarrow>
             Some (head @ replicate (8 - length head - length tail) 0 @ tail, s))
        })"

definition parse_ip_addr :: "string \<Rightarrow> ip_addr option" where
  "parse_ip_addr s =
     (case read_ipv4 s of
        Some (octets, r) \<Rightarrow> if r = [] then Some (V4 octets) else None
      | None \<Rightarrow>
          (case read_ipv6 s of
             Some (segments, r) \<Rightarrow> if r = [] then Some (V6 segments) else None
           | None \<Rightarrow> None))"

subsection \<open>Display\<close>

fun join :: "char \<Rightarrow> string list \<Rightarrow> string" where
  "join c [] = []"
| "join c [s] = s"
| "join c (s # t # ss) = s @ [c] @ join c (t # ss)"

definition show_ipv4 :: "byte list \<Rightarrow> string" where
  "show_ipv4 octets = join (CHR ''.'') (map (\<lambda>b. show_nat (unat b)) octets)"

definition to_ipv4_mapped :: "16 word list \<Rightarrow> byte list option" where
  "to_ipv4_mapped segments =
     (case segments of
        [a, b, c, d, e, f, g, h] \<Rightarrow>
          if a = 0 \<and> b = 0 \<and> c = 0 \<and> d = 0 \<and> e = 0 \<and> f = 65535
          then Some [of_nat (unat g div 256), of_nat (unat g mod 256),
                     of_nat (unat h div 256), of_nat (unat h mod 256)]
          else None
      | _ \<Rightarrow> None)"

text \<open>The first longest run of zero segments, as start and length.\<close>

fun zero_span ::
  "nat \<Rightarrow> nat \<times> nat \<Rightarrow> nat \<times> nat \<Rightarrow> 16 word list \<Rightarrow> nat \<times> nat" where
  "zero_span i longest current [] = longest"
| "zero_span i longest current (x # xs) =
     (if x = 0 then
        (let start = (if snd current = 0 then i else fst current);
             current' = (start, snd current + 1)
         in zero_span (i + 1) (if snd longest < snd current' then current' else longest) current' xs)
      else zero_span (i + 1) longest (0, 0) xs)"

definition show_segments :: "16 word list \<Rightarrow> string" where
  "show_segments segments = join (CHR '':'') (map (\<lambda>s. show_hex (unat s)) segments)"

definition show_ipv6 :: "16 word list \<Rightarrow> string" where
  "show_ipv6 segments =
     (case to_ipv4_mapped segments of
        Some ipv4 \<Rightarrow> ''::ffff:'' @ show_ipv4 ipv4
      | None \<Rightarrow>
          (case zero_span 0 (0, 0) (0, 0) segments of (start, len) \<Rightarrow>
             if 1 < len
             then show_segments (take start segments) @ ''::'' @ show_segments (drop (start + len) segments)
             else show_segments segments))"

fun show_ip_addr :: "ip_addr \<Rightarrow> string" where
  "show_ip_addr (V4 octets) = show_ipv4 octets"
| "show_ip_addr (V6 segments) = show_ipv6 segments"

fun wf_ip_addr :: "ip_addr \<Rightarrow> bool" where
  "wf_ip_addr (V4 octets) \<longleftrightarrow> length octets = 4"
| "wf_ip_addr (V6 segments) \<longleftrightarrow> length segments = 8"

subsection \<open>The text of an address determines it\<close>

lemma show_nat_base: "show_nat n = show_base 10 n"
proof (induction n rule: show_nat.induct)
  case (1 n)
  then show ?case by (cases "n < 10") (simp_all add: show_nat.simps [of n] show_base.simps [of 10 n])
qed

definition num_val :: "nat \<Rightarrow> string \<Rightarrow> nat" where
  "num_val b s = foldl (\<lambda>n c. n * b + the (hex_value c)) 0 s"

lemma hex_value_digit_char: "d < 16 \<Longrightarrow> hex_value (digit_char d) = Some d"
  using hex_value_digit [of d] by (simp add: hex_digit_def)

lemma num_val_show_base: "2 \<le> b \<Longrightarrow> b \<le> 16 \<Longrightarrow> num_val b (show_base b n) = n"
proof (induction b n rule: show_base.induct)
  case (1 b n)
  show ?case
  proof (cases "n < b")
    case True
    with 1(3) show ?thesis
      by (simp add: show_base.simps [of b n] num_val_def hex_value_digit_char)
  next
    case False
    have "num_val b (show_base b (n div b)) = n div b" using 1 False by simp
    moreover have "n mod b < 16" using 1(2,3) mod_less_divisor [of b n] by linarith
    ultimately show ?thesis
      using False 1(2) by (simp add: show_base.simps [of b n] num_val_def hex_value_digit_char)
  qed
qed

lemma show_base_inject: "2 \<le> b \<Longrightarrow> b \<le> 16 \<Longrightarrow> show_base b m = show_base b n \<longleftrightarrow> m = n"
  using num_val_show_base by metis

lemma show_base_lower_hex: "2 \<le> b \<Longrightarrow> b \<le> 16 \<Longrightarrow> c \<in> set (show_base b n) \<Longrightarrow> is_lower_hex c"
proof (induction b n rule: show_base.induct)
  case (1 b n)
  show ?case
  proof (cases "n < b")
    case True
    with 1 is_lower_hex_digit [of n] show ?thesis
      by (simp add: show_base.simps [of b n] hex_digit_def)
  next
    case False
    have "n mod b < 16" using 1(2,3) mod_less_divisor [of b n] by linarith
    then have "is_lower_hex (digit_char (n mod b))"
      using is_lower_hex_digit [of "n mod b"] by (simp add: hex_digit_def)
    with 1 False show ?thesis by (auto simp: show_base.simps [of b n])
  qed
qed

lemma show_base_nonempty: "show_base b n \<noteq> []"
  by (simp add: show_base.simps [of b n])

lemma show_nat_inject: "show_nat m = show_nat n \<longleftrightarrow> m = n"
  by (simp add: show_nat_base show_base_inject)

lemma show_hex_inject: "show_hex m = show_hex n \<longleftrightarrow> m = n"
  by (simp add: show_hex_def show_base_inject)

lemma separators_not_hex: "\<not> is_lower_hex (CHR '':'')" "\<not> is_lower_hex (CHR ''.'')" "\<not> is_lower_hex (CHR ''-'')"
  by (simp_all add: is_lower_hex_def)

lemma separator_notin_show:
  "CHR '':'' \<notin> set (show_nat n)" "CHR ''.'' \<notin> set (show_nat n)" "CHR ''-'' \<notin> set (show_nat n)"
  "CHR '':'' \<notin> set (show_hex n)" "CHR ''.'' \<notin> set (show_hex n)"
  using show_base_lower_hex [of 10 _ n] show_base_lower_hex [of 16 _ n] separators_not_hex
  by (auto simp: show_nat_base show_hex_def)

lemma show_nonempty: "show_nat n \<noteq> []" "show_hex n \<noteq> []"
  by (simp_all add: show_nat_base show_hex_def show_base_nonempty)

lemma show_int_inject: "show_int i = show_int j \<longleftrightarrow> i = j"
proof -
  have "show_nat m \<noteq> CHR ''-'' # s" for m s
    using separator_notin_show(3) [of m] by (metis list.set_intros(1))
  then show ?thesis
    by (auto simp: show_int_def show_nat_inject dest: sym)
qed

text \<open>Splitting at a character undoes \<open>join\<close>.\<close>

fun split_at :: "char \<Rightarrow> string \<Rightarrow> string list" where
  "split_at c [] = [[]]"
| "split_at c (d # s) =
     (if d = c then [] # split_at c s
      else case split_at c s of [] \<Rightarrow> [[d]] | f # fs \<Rightarrow> (d # f) # fs)"

lemma split_at_nonempty: "split_at c s \<noteq> []"
  by (induction s) (auto split: list.split)

lemma split_at_free: "c \<notin> set f \<Longrightarrow> split_at c f = [f]"
  by (induction f) auto

lemma split_at_append: "c \<notin> set f \<Longrightarrow> split_at c (f @ [c] @ s) = f # split_at c s"
  by (induction f) auto

lemma split_at_join_append:
  "fs \<noteq> [] \<Longrightarrow> \<forall>f \<in> set fs. c \<notin> set f \<Longrightarrow> split_at c (join c fs @ [c] @ s) = fs @ split_at c s"
proof (induction c fs rule: join.induct)
  case (3 c s' t ss)
  then show ?case using split_at_append [of c s' "join c (t # ss) @ [c] @ s"] by simp
qed (use split_at_append in auto)

lemma split_at_join: "fs \<noteq> [] \<Longrightarrow> \<forall>f \<in> set fs. c \<notin> set f \<Longrightarrow> split_at c (join c fs) = fs"
proof (induction c fs rule: join.induct)
  case (3 c s' t ss)
  then show ?case using split_at_append [of c s' "join c (t # ss)"] by simp
qed (auto simp: split_at_free)

lemma map_inject_on: "(\<And>x y. f x = f y \<longleftrightarrow> x = y) \<Longrightarrow> map f xs = map f ys \<longleftrightarrow> xs = ys"
  by (metis inj_def inj_map_eq_map)

lemma show_ipv4_inject:
  assumes "length a = 4" and "length b = 4" and "show_ipv4 a = show_ipv4 b"
  shows "a = b"
proof -
  have "split_at (CHR ''.'') (show_ipv4 x) = map (\<lambda>b. show_nat (unat b)) x" if "length x = 4" for x :: "byte list"
    using that separator_notin_show(2) unfolding show_ipv4_def by (subst split_at_join) auto
  then have "map (\<lambda>b. show_nat (unat b)) a = map (\<lambda>b. show_nat (unat b)) b" using assms by metis
  then show ?thesis by (subst (asm) map_inject_on) (simp_all add: show_nat_inject word_unat_eq_iff)
qed

text \<open>A run of zero segments.\<close>

definition zero_run :: "16 word list \<Rightarrow> nat \<times> nat \<Rightarrow> bool" where
  "zero_run xs r \<longleftrightarrow> fst r + snd r \<le> length xs \<and> (\<forall>j < snd r. xs ! (fst r + j) = 0)"

lemma zero_run_append: "zero_run xs r \<Longrightarrow> zero_run (xs @ ys) r"
  by (auto simp: zero_run_def nth_append)

lemma zero_run_snoc:
  "zero_run xs (s, n) \<Longrightarrow> s + n = length xs \<Longrightarrow> zero_run (xs @ [0]) (s, Suc n)"
  by (auto simp: zero_run_def nth_append less_Suc_eq)

lemma zero_span_run:
  "zero_run ps longest \<Longrightarrow> snd current = 0 \<or> zero_run ps current \<and> fst current + snd current = length ps \<Longrightarrow>
     zero_run (ps @ xs) (zero_span (length ps) longest current xs)"
proof (induction xs arbitrary: ps longest current)
  case Nil
  then show ?case by simp
next
  case (Cons x xs)
  let ?ps = "ps @ [x]"
  have IH: "zero_run ?ps l \<Longrightarrow> snd c = 0 \<or> zero_run ?ps c \<and> fst c + snd c = length ?ps \<Longrightarrow>
      zero_run (ps @ x # xs) (zero_span (Suc (length ps)) l c xs)" for l c
    using Cons.IH [of ?ps l c] by simp
  have l: "zero_run ?ps longest" by (rule zero_run_append) (rule Cons.prems(1))
  show ?case
  proof (cases "x = 0")
    case True
    define c where "c = (if snd current = 0 then length ps else fst current, Suc (snd current))"
    have c: "zero_run ?ps c \<and> fst c + snd c = length ?ps"
      using Cons.prems(2) zero_run_snoc [of ps "fst current" "snd current"] True
      by (auto simp: c_def zero_run_def nth_append)
    then have "zero_run ?ps (if snd longest < snd c then c else longest)" using l by simp
    with IH [of "if snd longest < snd c then c else longest" c] c
    have "zero_run (ps @ x # xs) (zero_span (Suc (length ps)) (if snd longest < snd c then c else longest) c xs)"
      by blast
    moreover have "zero_span (length ps) longest current (x # xs)
        = zero_span (Suc (length ps)) (if snd longest < snd c then c else longest) c xs"
      using True by (simp add: c_def Let_def)
    ultimately show ?thesis by simp
  next
    case False
    with IH [OF l, of "(0, 0)"] show ?thesis by simp
  qed
qed

lemma zero_run_split:
  assumes "zero_run xs (s, n)"
  shows "xs = take s xs @ replicate n 0 @ drop (s + n) xs" "length (take s xs) = s"
proof -
  have "take n (drop s xs) = replicate n 0"
    using assms by (intro nth_equalityI) (auto simp: zero_run_def)
  then show "xs = take s xs @ replicate n 0 @ drop (s + n) xs"
    by (metis append_take_drop_id drop_drop add.commute)
  show "length (take s xs) = s" using assms by (simp add: zero_run_def)
qed

text \<open>What a compressed text shows: the segments before and after the gap.\<close>

definition shown_parts :: "string \<Rightarrow> string list \<times> string list" where
  "shown_parts t =
     (let fs = split_at (CHR '':'') t; pre = takeWhile (\<lambda>f. f \<noteq> []) fs
      in (pre, drop (length pre) (filter (\<lambda>f. f \<noteq> []) fs)))"

abbreviation hex_fields :: "16 word list \<Rightarrow> string list" where
  "hex_fields xs \<equiv> map (\<lambda>s. show_hex (unat s)) xs"

lemma split_show_segments:
  "split_at (CHR '':'') (show_segments xs) = (if xs = [] then [[]] else hex_fields xs)"
  using separator_notin_show(4) unfolding show_segments_def
  by (cases "xs = []") (simp, subst split_at_join, auto)

lemma split_compressed:
  "split_at (CHR '':'') (show_segments g @ ''::'' @ show_segments h) =
     (if g = [] then [[]] else hex_fields g) @ [[]] @ (if h = [] then [[]] else hex_fields h)"
proof (cases "g = []")
  case True
  then show ?thesis by (simp add: show_segments_def [of "[]"] split_show_segments)
next
  case False
  have "split_at (CHR '':'') (join (CHR '':'') (hex_fields g) @ [CHR '':''] @ CHR '':'' # show_segments h)
      = hex_fields g @ split_at (CHR '':'') (CHR '':'' # show_segments h)"
    using False separator_notin_show(4) by (intro split_at_join_append) auto
  with False show ?thesis by (simp add: show_segments_def [of g] split_show_segments)
qed

lemma takeWhile_hex_fields: "takeWhile (\<lambda>f. f \<noteq> []) (hex_fields g @ [] # r) = hex_fields g"
  by (induction g) (simp_all add: show_nonempty)

lemma filter_hex_fields: "filter (\<lambda>f. f \<noteq> []) (hex_fields g) = hex_fields g"
  by (induction g) (simp_all add: show_nonempty)

lemma shown_parts_compressed:
  "shown_parts (show_segments g @ ''::'' @ show_segments h) = (hex_fields g, hex_fields h)"
  by (cases "g = []"; cases "h = []")
    (simp_all add: shown_parts_def split_compressed takeWhile_hex_fields filter_hex_fields Let_def
      del: append.simps(2), simp_all add: takeWhile_hex_fields filter_hex_fields)

lemma shown_parts_full: "xs \<noteq> [] \<Longrightarrow> shown_parts (show_segments xs) = (hex_fields xs, [])"
proof -
  assume "xs \<noteq> []"
  moreover have "takeWhile (\<lambda>f. f \<noteq> []) (hex_fields xs) = hex_fields xs"
    by (induction xs) (simp_all add: show_nonempty)
  ultimately show ?thesis
    by (simp add: shown_parts_def split_show_segments filter_hex_fields Let_def del: takeWhile_eq_all_conv)
qed

lemma show_ipv6_parts:
  assumes "length xs = 8" and "to_ipv4_mapped xs = None"
  shows "\<exists>g h. shown_parts (show_ipv6 xs) = (hex_fields g, hex_fields h)
     \<and> xs = g @ replicate (8 - length g - length h) 0 @ h"
proof -
  obtain s n where span: "zero_span 0 (0, 0) (0, 0) xs = (s, n)" by fastforce
  have run: "zero_run xs (s, n)"
    using zero_span_run [of "[]" "(0, 0)" "(0, 0)" xs] by (simp add: span) (simp add: zero_run_def)
  show ?thesis
  proof (cases "1 < n")
    case True
    have n: "8 - length (take s xs) - length (drop (s + n) xs) = n"
      using run assms(1) by (auto simp: zero_run_def)
    have "shown_parts (show_ipv6 xs) = (hex_fields (take s xs), hex_fields (drop (s + n) xs))"
      using shown_parts_compressed [of "take s xs" "drop (s + n) xs"] True assms(2) by (simp add: show_ipv6_def span)
    moreover have "xs = take s xs @ replicate (8 - length (take s xs) - length (drop (s + n) xs)) 0 @ drop (s + n) xs"
      unfolding n by (rule zero_run_split(1) [OF run])
    ultimately show ?thesis by blast
  next
    case False
    have "shown_parts (show_ipv6 xs) = (hex_fields xs, hex_fields [])"
    proof -
      have "xs \<noteq> []" using assms(1) by auto
      then show ?thesis using shown_parts_full [of xs] False assms(2) by (simp add: show_ipv6_def span)
    qed
    moreover have "xs = xs @ replicate (8 - length xs - length []) 0 @ []" using assms(1) by simp
    ultimately show ?thesis by blast
  qed
qed

lemma hex_fields_inject: "hex_fields g = hex_fields h \<longleftrightarrow> g = h"
  by (rule map_inject_on) (simp add: show_hex_inject word_unat_eq_iff)

lemma set_join: "set (join c fs) \<subseteq> insert c (\<Union> (set ` set fs))"
  by (induction c fs rule: join.induct) auto

lemma to_ipv4_mapped_Some:
  assumes "to_ipv4_mapped xs = Some octets"
  obtains g h where "xs = [0, 0, 0, 0, 0, 65535, g, h]"
    and "octets = [of_nat (unat g div 256), of_nat (unat g mod 256), of_nat (unat h div 256), of_nat (unat h mod 256)]"
  using assms by (auto simp: to_ipv4_mapped_def split: list.splits if_splits)

lemma dot_in_show_ipv4: "length octets = 4 \<Longrightarrow> CHR ''.'' \<in> set (show_ipv4 octets)"
  by (auto simp: show_ipv4_def length_Suc_conv eval_nat_numeral)

lemma colon_notin_show_ipv4: "CHR '':'' \<notin> set (show_ipv4 octets)"
  using set_join [of "CHR ''.''" "map (\<lambda>b. show_nat (unat b)) octets"] separator_notin_show(1)
  by (auto simp: show_ipv4_def)

lemma dot_notin_show_segments: "CHR ''.'' \<notin> set (show_segments xs)"
  using set_join [of "CHR '':''" "hex_fields xs"] separator_notin_show(5)
  by (auto simp: show_segments_def)

lemma dot_in_show_ipv6: "CHR ''.'' \<in> set (show_ipv6 xs) \<longleftrightarrow> to_ipv4_mapped xs \<noteq> None"
proof (cases "to_ipv4_mapped xs")
  case None
  with dot_notin_show_segments show ?thesis by (auto simp: show_ipv6_def split: prod.splits if_splits)
next
  case (Some octets)
  then have "length octets = 4" by (auto elim: to_ipv4_mapped_Some)
  with dot_in_show_ipv4 Some show ?thesis by (simp add: show_ipv6_def)
qed

lemma colon_in_show_ipv6: "length xs = 8 \<Longrightarrow> CHR '':'' \<in> set (show_ipv6 xs)"
proof (cases "to_ipv4_mapped xs")
  case None
  assume "length xs = 8"
  then have "CHR '':'' \<in> set (show_segments xs)"
    by (auto simp: show_segments_def length_Suc_conv eval_nat_numeral)
  with None show ?thesis by (cases "zero_span 0 (0, 0) (0, 0) xs") (simp add: show_ipv6_def)
qed (simp add: show_ipv6_def)

lemma u16_bytes_inject:
  fixes g g' :: "16 word"
  assumes "(of_nat (unat g div 256) :: byte) = of_nat (unat g' div 256)"
    and "(of_nat (unat g mod 256) :: byte) = of_nat (unat g' mod 256)"
  shows "g = g'"
proof -
  have small: "unat x div 256 < 256" for x :: "16 word"
    using unsigned_less [of x, where ?'a = nat] by (simp add: less_mult_imp_div_less)
  have "unat g div 256 = unat g' div 256" "unat g mod 256 = unat g' mod 256"
    using assms [THEN arg_cong [where f = unat]] small [of g] small [of g']
    by (simp_all add: unat_of_nat)
  then show ?thesis by (metis mult_div_mod_eq word_unat_eq_iff)
qed

lemma to_ipv4_mapped_inject:
  assumes "to_ipv4_mapped xs = Some octets" and "to_ipv4_mapped ys = Some octets"
  shows "xs = ys"
proof -
  obtain g h where 1: "xs = [0, 0, 0, 0, 0, 65535, g, h]"
    "octets = [of_nat (unat g div 256), of_nat (unat g mod 256), of_nat (unat h div 256), of_nat (unat h mod 256)]"
    using assms(1) by (rule to_ipv4_mapped_Some)
  obtain g' h' where 2: "ys = [0, 0, 0, 0, 0, 65535, g', h']"
    "octets = [of_nat (unat g' div 256), of_nat (unat g' mod 256), of_nat (unat h' div 256), of_nat (unat h' mod 256)]"
    using assms(2) by (rule to_ipv4_mapped_Some)
  have "g = g'" "h = h'" using 1(2) 2(2) by (auto intro: u16_bytes_inject)
  with 1 2 show ?thesis by simp
qed

lemma show_ipv6_inject:
  assumes "length xs = 8" and "length ys = 8" and "show_ipv6 xs = show_ipv6 ys"
  shows "xs = ys"
proof (cases "to_ipv4_mapped xs")
  case None
  then have None': "to_ipv4_mapped ys = None"
    using dot_in_show_ipv6 [of xs] dot_in_show_ipv6 [of ys] assms(3) by simp
  obtain g h where 1: "shown_parts (show_ipv6 xs) = (hex_fields g, hex_fields h)"
    "xs = g @ replicate (8 - length g - length h) 0 @ h"
    using show_ipv6_parts [OF assms(1) None] by blast
  obtain g' h' where 2: "shown_parts (show_ipv6 ys) = (hex_fields g', hex_fields h')"
    "ys = g' @ replicate (8 - length g' - length h') 0 @ h'"
    using show_ipv6_parts [OF assms(2) None'] by blast
  have "g = g'" "h = h'" using 1(1) 2(1) assms(3) by (simp_all add: hex_fields_inject)
  with 1(2) 2(2) show ?thesis by metis
next
  case (Some a)
  then obtain b where b: "to_ipv4_mapped ys = Some b"
    using dot_in_show_ipv6 [of xs] dot_in_show_ipv6 [of ys] assms(3) by auto
  have "length a = 4" "length b = 4" using Some b by (auto elim: to_ipv4_mapped_Some)
  then have "a = b" using show_ipv4_inject assms(3) Some b by (simp add: show_ipv6_def)
  with to_ipv4_mapped_inject Some b show ?thesis by blast
qed

lemma show_ip_addr_inject:
  "wf_ip_addr a \<Longrightarrow> wf_ip_addr b \<Longrightarrow> show_ip_addr a = show_ip_addr b \<Longrightarrow> a = b"
  using colon_in_show_ipv6 colon_notin_show_ipv4
  by (cases a; cases b) (auto dest: show_ipv4_inject show_ipv6_inject, metis+)

subsection \<open>Parsed addresses\<close>

lemma read_ipv4_length: "read_ipv4 s = Some (octets, r) \<Longrightarrow> length octets = 4"
  by (auto simp: read_ipv4_def split: bind_splits)

lemma u16_of_octets_length: "length octets = 4 \<Longrightarrow> length (u16_of_octets octets) = 2"
  by (auto simp: u16_of_octets_def length_Suc_conv eval_nat_numeral)

lemma read_groups_length: "read_groups n first s = (gs, v4, r) \<Longrightarrow> length gs \<le> n"
proof (induction n first s arbitrary: gs v4 r rule: read_groups.induct)
  case (2 n first s)
  then show ?case
    by (auto simp: bind_eq_Some_conv read_ipv4_length u16_of_octets_length split: option.splits prod.splits if_splits)
qed simp

lemma parse_ip_addr_wf: "parse_ip_addr s = Some a \<Longrightarrow> wf_ip_addr a"
proof -
  have "length x = 8" if v6: "read_ipv6 s = Some (x, r)" for x r
  proof -
    obtain g v t where head: "read_groups 8 True s = (g, v, t)" by (metis prod_cases3)
    have len: "length (fst (read_groups (7 - length g) True t')) \<le> 7 - length g" for t'
      using read_groups_length [of "7 - length g" True t'] by (metis prod.collapse)
    show ?thesis using v6 read_groups_length [OF head] len
      apply (auto simp: read_ipv6_def head bind_eq_Some_conv case_prod_beta split: if_splits)
      subgoal for y ya using len [of ya] by linarith
      done
  qed
  then show "parse_ip_addr s = Some a \<Longrightarrow> wf_ip_addr a"
    by (auto simp: parse_ip_addr_def read_ipv4_length split: option.splits if_splits)
qed

end
