(* ===== verification/Pki.thy ===== *)
theory Pki
  imports Identity NetAddr "HOL-Library.List_Lexorder" "HOL-Library.Char_ord"
begin

text \<open>
  Certificates bound to an identity, \<^verbatim>\<open>src/pki.rs\<close>: issuance profiles, label checks, the seed labels
  and serial numbers, the identity URIs, normalised alternative names, and the derivation of
  authorities and leaf chains.  \<^verbatim>\<open>rcgen\<close> is a parameter; a panic is \<^term>\<open>None\<close>.  A \<^verbatim>\<open>SerialNumber\<close>
  and an \<^verbatim>\<open>Ia5String\<close> are the bytes and the text they were built from.
\<close>

subsection \<open>rcgen\<close>

datatype san_type = DnsName string | IpAddress ip_addr | URI string
datatype basic_constraints = Unconstrained | Constrained "8 word"
datatype is_ca = NoCa | ExplicitNoCa | IsCa basic_constraints
datatype dn_type = CommonName
datatype key_usage = DigitalSignature | KeyCertSign | CrlSign
datatype extended_key_usage = ServerAuth | ClientAuth

record 'd cert_params =
  serial_number :: "byte list option"
  not_before :: 'd
  not_after :: 'd
  is_ca :: is_ca
  distinguished_name :: "(dn_type \<times> string) list"
  subject_alt_names :: "san_type list"
  key_usages :: "key_usage list"
  extended_key_usages :: "extended_key_usage list"
  use_authority_key_identifier_extension :: bool

text \<open>An \<^verbatim>\<open>Issuer\<close> is the pair of parameters and key it was built from; errors are their texts.\<close>

record ('d, 'k, 'c) rcgen =
  params_new :: "string list \<Rightarrow> string + 'd cert_params"
  date_time_ymd :: "int \<Rightarrow> nat \<Rightarrow> nat \<Rightarrow> 'd option"     \<comment> \<open>panics on a date out of range\<close>
  ia5_string :: "string \<Rightarrow> string + string"
  key_pair_try_from :: "byte list \<Rightarrow> string + 'k"
  self_signed :: "'d cert_params \<Rightarrow> 'k \<Rightarrow> string + 'c"
  signed_by :: "'d cert_params \<Rightarrow> 'k \<Rightarrow> 'd cert_params \<times> 'k \<Rightarrow> string + 'c"
  cert_der :: "'c \<Rightarrow> byte list"
  cert_pem :: "'c \<Rightarrow> string"
  serialize_pem :: "'k \<Rightarrow> string"
  serialize_der :: "'k \<Rightarrow> byte list"

subsection \<open>Profiles, roles, material\<close>

definition SPIFFE_BASE :: string where
  "SPIFFE_BASE = ''spiffe://styrene.dev''"

definition MAX_LABEL_BYTES :: nat where
  "MAX_LABEL_BYTES = 256"

record cert_profile =
  profile_name :: string
  ca_epoch :: string
  leaf_epoch :: string
  ca_not_before_year :: "32 word"
  ca_not_after_year :: "32 word"
  leaf_not_before_year :: "32 word"
  leaf_not_after_year :: "32 word"

definition profile_default :: cert_profile where
  "profile_default = \<lparr> profile_name = ''default'', ca_epoch = ''0'', leaf_epoch = ''0'',
     ca_not_before_year = 2026, ca_not_after_year = 2036,
     leaf_not_before_year = 2026, leaf_not_after_year = 2031 \<rparr>"

definition with_leaf_epoch :: "string \<Rightarrow> cert_profile \<Rightarrow> cert_profile" where
  "with_leaf_epoch e p = p \<lparr> leaf_epoch := e \<rparr>"

definition with_ca_epoch :: "string \<Rightarrow> cert_profile \<Rightarrow> cert_profile" where
  "with_ca_epoch e p = p \<lparr> ca_epoch := e \<rparr>"

definition with_profile :: "string \<Rightarrow> cert_profile \<Rightarrow> cert_profile" where
  "with_profile n p = p \<lparr> profile_name := n \<rparr>"

datatype certificate_role = Ca | Server | Client

record styrene_certificate =
  cert_role :: certificate_role
  cert_identity_hash :: string
  cert_label :: string
  cert_profile_name :: string
  cert_epoch :: string
  cert_uri_san :: string
  cert_pem_text :: string
  cert_der_bytes :: "byte list"
  private_key_pem :: string
  private_key_der :: "byte list"
  cert_fingerprint :: string

text \<open>What \<^verbatim>\<open>Debug\<close> shows, field by field.\<close>

datatype debug_field = DebugRole certificate_role | DebugStr string | DebugBytes "byte list"

definition StyreneCertificate_debug :: "styrene_certificate \<Rightarrow> (string \<times> debug_field) list" where
  "StyreneCertificate_debug c =
     [(''role'', DebugRole (cert_role c)),
      (''identity_hash'', DebugStr (cert_identity_hash c)),
      (''label'', DebugStr (cert_label c)),
      (''profile'', DebugStr (cert_profile_name c)),
      (''epoch'', DebugStr (cert_epoch c)),
      (''uri_san'', DebugStr (cert_uri_san c)),
      (''cert_pem'', DebugStr (cert_pem_text c)),
      (''cert_der'', DebugBytes (cert_der_bytes c)),
      (''private_key_pem'', DebugStr ''[REDACTED]''),
      (''private_key_der'', DebugStr ''[REDACTED]''),
      (''fingerprint_sha256'', DebugStr (cert_fingerprint c))]"

record certificate_chain =
  chain_profile :: cert_profile
  ca_cert_pem :: string
  ca_cert_der :: "byte list"
  ca_fingerprint :: string
  chain_leaf :: styrene_certificate

definition cert_chain_pem :: "certificate_chain \<Rightarrow> string" where
  "cert_chain_pem c = cert_pem_text (chain_leaf c) @ ca_cert_pem c"

definition ca_bundle_pem :: "certificate_chain \<Rightarrow> string" where
  "ca_bundle_pem c = ca_cert_pem c"

datatype pki_error = PkiEmptyLabel | InvalidLabel string | InvalidValidity | CertificateError string

fun pki_error_of_derive :: "derive_error \<Rightarrow> pki_error" where
  "pki_error_of_derive EmptyLabel = PkiEmptyLabel"

subsection \<open>Checks\<close>

definition pki_validate_label :: "string \<Rightarrow> pki_error + unit" where
  "pki_validate_label value =
     (if value = [] then Inl PkiEmptyLabel
      else if str_trim value \<noteq> value then Inl (InvalidLabel ''leading or trailing whitespace'')
      else if MAX_LABEL_BYTES < length value then Inl (InvalidLabel ''too long'')
      else if (case str_chars value of Some cs \<Rightarrow> list_ex char_is_control cs | None \<Rightarrow> False)
      then Inl (InvalidLabel ''control character'')
      else Inr ())"

definition validate_profile :: "cert_profile \<Rightarrow> pki_error + unit" where
  "validate_profile p =
     bind_res (pki_validate_label (profile_name p)) (\<lambda>_.
     bind_res (pki_validate_label (ca_epoch p)) (\<lambda>_.
     bind_res (pki_validate_label (leaf_epoch p)) (\<lambda>_.
     if sint (ca_not_after_year p) \<le> sint (ca_not_before_year p) then Inl InvalidValidity
     else if sint (leaf_not_after_year p) \<le> sint (leaf_not_before_year p) then Inl InvalidValidity
     else if sint (leaf_not_before_year p) < sint (ca_not_before_year p) then Inl InvalidValidity
     else if sint (ca_not_after_year p) < sint (leaf_not_after_year p) then Inl InvalidValidity
     else Inr ())))"

subsection \<open>Names\<close>

definition pct_byte :: "char \<Rightarrow> string" where
  "pct_byte c =
     (let n = (of_char c :: nat) in
      if (65 \<le> n \<and> n \<le> 90) \<or> (97 \<le> n \<and> n \<le> 122) \<or> (48 \<le> n \<and> n \<le> 57)
         \<or> c = CHR ''-'' \<or> c = CHR ''.'' \<or> c = CHR ''_'' \<or> c = CHR ''~''
      then [c]
      else ''%'' @ show_HEX2 n)"

definition pct_encode_path :: "string \<Rightarrow> string" where
  "pct_encode_path value = concat (map pct_byte value)"

definition styrene_uri :: "string \<Rightarrow> string \<Rightarrow> string \<Rightarrow> string" where
  "styrene_uri ih role label =
     SPIFFE_BASE @ ''/identity/'' @ pct_encode_path ih @ ''/'' @ role
       @ (if label = [] then [] else ''/'' @ pct_encode_path label)"

definition styrene_agent_uri :: "string \<Rightarrow> string \<Rightarrow> string" where
  "styrene_agent_uri ih agent_label = styrene_uri ih ''agent'' agent_label"

definition styrene_client_uri :: "string \<Rightarrow> string \<Rightarrow> string" where
  "styrene_client_uri ih client_label = styrene_uri ih ''client'' client_label"

definition styrene_ca_uri :: "string \<Rightarrow> string \<Rightarrow> string" where
  "styrene_ca_uri ih ca_scope = styrene_uri ih ''ca'' ca_scope"

fun role_name :: "certificate_role \<Rightarrow> string" where
  "role_name Ca = ''ca''"
| "role_name Server = ''server''"
| "role_name Client = ''client''"

definition tls_seed_label :: "string \<Rightarrow> string list \<Rightarrow> string" where
  "tls_seed_label kind components =
     foldl (\<lambda>label c. label @ ''/'' @ show_hex16 (length c) @ '':'' @ c) (''styrene/tls/v2/'' @ kind) components"

definition serial_preimage :: "string list \<Rightarrow> byte list" where
  "serial_preimage parts = concat (map (\<lambda>p. u64_be (of_nat (length p)) @ str_bytes p) parts)"

definition deterministic_serial :: "crates \<Rightarrow> string list \<Rightarrow> byte list" where
  "deterministic_serial K parts =
     (let serial = take 20 (sha256_digest K (serial_preimage parts));
          serial = serial[0 := serial ! 0 AND 0x7f]
      in if serial ! 0 = 0 then serial[0 := 1] else serial)"

definition fingerprint_sha256 :: "crates \<Rightarrow> byte list \<Rightarrow> string" where
  "fingerprint_sha256 K der = hex_encode K (sha256_digest K der)"

subsection \<open>Alternative names\<close>

definition san_entry ::
  "('d, 'k, 'c) rcgen \<Rightarrow> string \<Rightarrow> pki_error + string \<times> san_type" where
  "san_entry R name =
     (case parse_ip_addr name of
        Some ip \<Rightarrow> Inr (''ip:'' @ show_ip_addr ip, IpAddress ip)
      | None \<Rightarrow>
          let dns_name = to_ascii_lowercase name
          in map_err CertificateError
               (bind_res (ia5_string R dns_name) (\<lambda>d. Inr (''dns:'' @ dns_name, DnsName d))))"

fun san_entries ::
  "('d, 'k, 'c) rcgen \<Rightarrow> string list \<Rightarrow> pki_error + (string \<times> san_type) list" where
  "san_entries R [] = Inr []"
| "san_entries R (name # names) =
     (let trimmed = str_trim name in
      if trimmed = [] then san_entries R names
      else bind_res (san_entry R trimmed) (\<lambda>e.
           bind_res (san_entries R names) (\<lambda>es. Inr (e # es))))"

text \<open>\<^verbatim>\<open>dedup_by\<close>: an entry equal to the one kept before it is dropped.\<close>

fun dedup_by_key :: "('k \<times> 'v) list \<Rightarrow> ('k \<times> 'v) list" where
  "dedup_by_key (x # y # xs) =
     (if fst y = fst x then dedup_by_key (x # xs) else x # dedup_by_key (y # xs))"
| "dedup_by_key xs = xs"

definition normalize_subject_alt_names ::
  "('d, 'k, 'c) rcgen \<Rightarrow> string list \<Rightarrow> pki_error + (string \<times> san_type) list" where
  "normalize_subject_alt_names R names =
     bind_res (san_entries R names) (\<lambda>es. Inr (dedup_by_key (sort_key fst es)))"

subsection \<open>Keys\<close>

definition ed25519_pkcs8_prefix :: "byte list" where
  "ed25519_pkcs8_prefix =
     [0x30, 0x2e, 0x02, 0x01, 0x00, 0x30, 0x05, 0x06, 0x03, 0x2b, 0x65, 0x70, 0x04, 0x22, 0x04, 0x20]"

definition ed25519_seed_to_pkcs8_der :: "byte list \<Rightarrow> byte list" where
  "ed25519_seed_to_pkcs8_der seed = ed25519_pkcs8_prefix @ seed"

definition key_pair_from_derived_seed ::
  "('d, 'k, 'c) rcgen \<Rightarrow> crates \<Rightarrow> byte list \<Rightarrow> string \<Rightarrow> (pki_error + 'k) option" where
  "key_pair_from_derived_seed R K root label =
     (if label = [] then Some (Inl PkiEmptyLabel)
      else
        try_opt (map_option (map_err pki_error_of_derive)
                  (derive_tls_certificate_key K (KeyDeriver_new K root) label)) (\<lambda>seed.
        Some (map_err CertificateError (key_pair_try_from R (ed25519_seed_to_pkcs8_der seed)))))"

subsection \<open>Certificate parameters\<close>

definition ca_serial_parts :: "string \<Rightarrow> string \<Rightarrow> string \<Rightarrow> cert_profile \<Rightarrow> string list" where
  "ca_serial_parts ih scope uri p =
     [''ca'', ih, scope, uri, profile_name p, ca_epoch p,
      show_int (sint (ca_not_before_year p)), show_int (sint (ca_not_after_year p)), ''v1'']"

definition ca_params ::
  "('d, 'k, 'c) rcgen \<Rightarrow> crates \<Rightarrow> string \<Rightarrow> string \<Rightarrow> string \<Rightarrow> cert_profile
     \<Rightarrow> (pki_error + 'd cert_params) option" where
  "ca_params R K ih scope uri p =
     try_opt (Some (map_err CertificateError (params_new R []))) (\<lambda>params. do {
       before \<leftarrow> date_time_ymd R (sint (ca_not_before_year p)) 1 1;
       after \<leftarrow> date_time_ymd R (sint (ca_not_after_year p)) 1 1;
       try_opt (Some (map_err CertificateError (ia5_string R uri))) (\<lambda>uri_san.
         Some (Inr (params \<lparr>
           serial_number := Some (deterministic_serial K (ca_serial_parts ih scope uri p)),
           not_before := before,
           not_after := after,
           is_ca := IsCa (Constrained 0),
           distinguished_name := [(CommonName, ''styrene:'' @ ih @ '':ca:'' @ scope)],
           subject_alt_names := subject_alt_names params @ [URI uri_san],
           key_usages := key_usages params @ [DigitalSignature, KeyCertSign, CrlSign] \<rparr>)))
     })"

definition leaf_serial_parts ::
  "string \<Rightarrow> certificate_role \<Rightarrow> string \<Rightarrow> string \<Rightarrow> (string \<times> san_type) list \<Rightarrow> cert_profile \<Rightarrow> string list" where
  "leaf_serial_parts ih role label uri names p =
     [role_name role, ih, label, uri, profile_name p, ca_epoch p, leaf_epoch p,
      show_int (sint (leaf_not_before_year p)), show_int (sint (leaf_not_after_year p)), ''v1'']
     @ map fst names"

fun leaf_usage :: "certificate_role \<Rightarrow> extended_key_usage option" where
  "leaf_usage Server = Some ServerAuth"
| "leaf_usage Client = Some ClientAuth"
| "leaf_usage Ca = None"

definition leaf_params ::
  "('d, 'k, 'c) rcgen \<Rightarrow> crates \<Rightarrow> string \<Rightarrow> certificate_role \<Rightarrow> string \<Rightarrow> string \<Rightarrow> string list
     \<Rightarrow> cert_profile \<Rightarrow> (pki_error + 'd cert_params) option" where
  "leaf_params R K ih role label uri names p =
     try_opt (Some (pki_validate_label label)) (\<lambda>_.
     try_opt (Some (normalize_subject_alt_names R names)) (\<lambda>normalized.
     try_opt (Some (map_err CertificateError (params_new R []))) (\<lambda>params. do {
       before \<leftarrow> date_time_ymd R (sint (leaf_not_before_year p)) 1 1;
       after \<leftarrow> date_time_ymd R (sint (leaf_not_after_year p)) 1 1;
       try_opt (Some (map_err CertificateError (ia5_string R uri))) (\<lambda>uri_san. do {
         usage \<leftarrow> leaf_usage role;
         Some (Inr (params \<lparr>
           serial_number := Some (deterministic_serial K (leaf_serial_parts ih role label uri normalized p)),
           not_before := before,
           not_after := after,
           is_ca := ExplicitNoCa,
           distinguished_name := [(CommonName, ''styrene:'' @ ih @ '':'' @ role_name role @ '':'' @ label)],
           subject_alt_names := subject_alt_names params @ [URI uri_san] @ map snd normalized,
           key_usages := key_usages params @ [DigitalSignature],
           extended_key_usages := extended_key_usages params @ [usage],
           use_authority_key_identifier_extension := True \<rparr>))
       })
     })))"

definition material_from_raw ::
  "('d, 'k, 'c) rcgen \<Rightarrow> crates \<Rightarrow> certificate_role \<Rightarrow> string \<Rightarrow> string \<Rightarrow> string \<Rightarrow> string \<Rightarrow> string
     \<Rightarrow> 'c \<Rightarrow> string \<Rightarrow> byte list \<Rightarrow> styrene_certificate" where
  "material_from_raw R K role ih label profile epoch uri cert key_pem key_der =
     (let der = cert_der R cert in
      \<lparr> cert_role = role, cert_identity_hash = ih, cert_label = label, cert_profile_name = profile,
        cert_epoch = epoch, cert_uri_san = uri, cert_pem_text = cert_pem R cert, cert_der_bytes = der,
        private_key_pem = key_pem, private_key_der = key_der,
        cert_fingerprint = fingerprint_sha256 K der \<rparr>)"

definition material_from_cert ::
  "('d, 'k, 'c) rcgen \<Rightarrow> crates \<Rightarrow> certificate_role \<Rightarrow> string \<Rightarrow> string \<Rightarrow> string \<Rightarrow> string \<Rightarrow> string
     \<Rightarrow> 'c \<Rightarrow> 'k \<Rightarrow> styrene_certificate" where
  "material_from_cert R K role ih label profile epoch uri cert key_pair =
     material_from_raw R K role ih label profile epoch uri cert
       (serialize_pem R key_pair) (serialize_der R key_pair)"

subsection \<open>Issuance\<close>

definition derive_ca_certificate_with_profile ::
  "('d, 'k, 'c) rcgen \<Rightarrow> crates \<Rightarrow> byte list \<Rightarrow> string \<Rightarrow> cert_profile
     \<Rightarrow> (pki_error + styrene_certificate) option" where
  "derive_ca_certificate_with_profile R K root ca_scope p =
     try_opt (Some (pki_validate_label ca_scope)) (\<lambda>_.
     try_opt (Some (validate_profile p)) (\<lambda>_. do {
       ih \<leftarrow> identity_hash K root;
       let seed_label = tls_seed_label ''ca'' [profile_name p, ca_scope, ca_epoch p];
       let uri = styrene_ca_uri ih ca_scope;
       try_opt (key_pair_from_derived_seed R K root seed_label) (\<lambda>key_pair.
       try_opt (ca_params R K ih ca_scope uri p) (\<lambda>params.
       try_opt (Some (map_err CertificateError (self_signed R params key_pair))) (\<lambda>cert.
       Some (Inr (material_from_cert R K Ca ih ca_scope (profile_name p) (ca_epoch p) uri cert key_pair)))))
     }))"

definition derive_ca_certificate ::
  "('d, 'k, 'c) rcgen \<Rightarrow> crates \<Rightarrow> byte list \<Rightarrow> string \<Rightarrow> (pki_error + styrene_certificate) option" where
  "derive_ca_certificate R K root ca_scope =
     derive_ca_certificate_with_profile R K root ca_scope profile_default"

fun leaf_seed_label ::
  "certificate_role \<Rightarrow> string \<Rightarrow> string \<Rightarrow> cert_profile \<Rightarrow> pki_error + string" where
  "leaf_seed_label Server ca_scope label p =
     Inr (tls_seed_label ''server'' [profile_name p, ca_scope, label, leaf_epoch p])"
| "leaf_seed_label Client ca_scope label p =
     Inr (tls_seed_label ''client'' [profile_name p, ca_scope, label, leaf_epoch p])"
| "leaf_seed_label Ca ca_scope label p = Inl PkiEmptyLabel"

fun leaf_uri :: "certificate_role \<Rightarrow> string \<Rightarrow> string \<Rightarrow> string option" where
  "leaf_uri Server ih label = Some (styrene_agent_uri ih label)"
| "leaf_uri Client ih label = Some (styrene_client_uri ih label)"
| "leaf_uri Ca ih label = None"

definition derive_leaf_certificate_chain ::
  "('d, 'k, 'c) rcgen \<Rightarrow> crates \<Rightarrow> byte list \<Rightarrow> string \<Rightarrow> certificate_role \<Rightarrow> string \<Rightarrow> string list
     \<Rightarrow> cert_profile \<Rightarrow> (pki_error + certificate_chain) option" where
  "derive_leaf_certificate_chain R K root ca_scope role label names p =
     try_opt (Some (pki_validate_label ca_scope)) (\<lambda>_.
     try_opt (Some (pki_validate_label label)) (\<lambda>_.
     try_opt (Some (validate_profile p)) (\<lambda>_. do {
       ih \<leftarrow> identity_hash K root;
       let ca_seed_label = tls_seed_label ''ca'' [profile_name p, ca_scope, ca_epoch p];
       let ca_uri = styrene_ca_uri ih ca_scope;
       try_opt (key_pair_from_derived_seed R K root ca_seed_label) (\<lambda>ca_key_pair.
       try_opt (ca_params R K ih ca_scope ca_uri p) (\<lambda>ca_parameters.
       try_opt (Some (map_err CertificateError (self_signed R ca_parameters ca_key_pair))) (\<lambda>ca_cert.
       let issuer = (ca_parameters, ca_key_pair) in
       try_opt (Some (leaf_seed_label role ca_scope label p)) (\<lambda>leaf_label. do {
         uri \<leftarrow> leaf_uri role ih label;
         try_opt (key_pair_from_derived_seed R K root leaf_label) (\<lambda>leaf_key_pair.
         try_opt (leaf_params R K ih role label uri names p) (\<lambda>leaf_parameters.
         try_opt (Some (map_err CertificateError (signed_by R leaf_parameters leaf_key_pair issuer))) (\<lambda>leaf_cert.
         let der = cert_der R ca_cert in
         Some (Inr \<lparr> chain_profile = p, ca_cert_pem = cert_pem R ca_cert, ca_cert_der = der,
           ca_fingerprint = fingerprint_sha256 K der,
           chain_leaf = material_from_cert R K role ih label (profile_name p) (leaf_epoch p) uri
             leaf_cert leaf_key_pair \<rparr>))))
       }))))
     })))"

definition derive_server_certificate_chain_with_profile ::
  "('d, 'k, 'c) rcgen \<Rightarrow> crates \<Rightarrow> byte list \<Rightarrow> string \<Rightarrow> string \<Rightarrow> string list \<Rightarrow> cert_profile
     \<Rightarrow> (pki_error + certificate_chain) option" where
  "derive_server_certificate_chain_with_profile R K root ca_scope agent_label names p =
     derive_leaf_certificate_chain R K root ca_scope Server agent_label names p"

definition derive_server_certificate_chain ::
  "('d, 'k, 'c) rcgen \<Rightarrow> crates \<Rightarrow> byte list \<Rightarrow> string \<Rightarrow> string \<Rightarrow> string list
     \<Rightarrow> (pki_error + certificate_chain) option" where
  "derive_server_certificate_chain R K root ca_scope agent_label names =
     derive_server_certificate_chain_with_profile R K root ca_scope agent_label names profile_default"

definition derive_client_certificate_chain_with_profile ::
  "('d, 'k, 'c) rcgen \<Rightarrow> crates \<Rightarrow> byte list \<Rightarrow> string \<Rightarrow> string \<Rightarrow> cert_profile
     \<Rightarrow> (pki_error + certificate_chain) option" where
  "derive_client_certificate_chain_with_profile R K root ca_scope client_label p =
     derive_leaf_certificate_chain R K root ca_scope Client client_label [] p"

definition derive_client_certificate_chain ::
  "('d, 'k, 'c) rcgen \<Rightarrow> crates \<Rightarrow> byte list \<Rightarrow> string \<Rightarrow> string
     \<Rightarrow> (pki_error + certificate_chain) option" where
  "derive_client_certificate_chain R K root ca_scope client_label =
     derive_client_certificate_chain_with_profile R K root ca_scope client_label profile_default"

subsection \<open>Length-prefixed names\<close>

lemma concat_prefix_code:
  assumes "\<And>x y r s. x \<in> A \<Longrightarrow> y \<in> A \<Longrightarrow> f x @ r = f y @ s \<Longrightarrow> x = y \<and> r = s"
    and "\<And>x. f x \<noteq> []" and "set xs \<subseteq> A" and "set ys \<subseteq> A"
    and "concat (map f xs) = concat (map f ys)"
  shows "xs = ys"
  using assms(3-5)
proof (induction xs arbitrary: ys)
  case Nil
  then show ?case using assms(2) by (cases ys) auto
next
  case (Cons x xs)
  show ?case
  proof (cases ys)
    case Nil
    with Cons.prems assms(2) [of x] show ?thesis by simp
  next
    case (Cons y zs)
    with Cons.prems assms(1) [of x y "concat (map f xs)" "concat (map f zs)"]
    have "x = y" "concat (map f xs) = concat (map f zs)" by auto
    with Cons Cons.prems Cons.IH [of zs] show ?thesis by simp
  qed
qed

lemma serial_preimage_inject:
  assumes "\<forall>p \<in> set parts \<union> set parts'. length p < 2 ^ 64"
  shows "serial_preimage parts = serial_preimage parts' \<longleftrightarrow> parts = parts'"
proof
  let ?f = "\<lambda>p. u64_be (of_nat (length p)) @ str_bytes p"
  have code: "x = y \<and> r = s"
    if small: "x \<in> {p. length p < 2 ^ 64}" "y \<in> {p. length p < 2 ^ 64}" and eq: "?f x @ r = ?f y @ s" for x y r s
  proof -
    have split: "u64_be (of_nat (length x)) = u64_be (of_nat (length y))" "str_bytes x @ r = str_bytes y @ s"
      using eq by (simp_all add: append_eq_append_conv)
    then have "unat (of_nat (length x) :: 64 word) = unat (of_nat (length y) :: 64 word)" by simp
    then have "length x = length y" using small by (simp add: unat_of_nat)
    with split(2) show ?thesis by (simp add: append_eq_append_conv)
  qed
  have "length (u64_be x) = 8" for x by simp
  then have nonempty: "u64_be x \<noteq> []" for x by (metis list.size(3) zero_neq_numeral)
  assume "serial_preimage parts = serial_preimage parts'"
  then show "parts = parts'"
    unfolding serial_preimage_def
    using assms nonempty by (intro concat_prefix_code [where f = ?f and A = "{p. length p < 2 ^ 64}"] code) auto
qed simp

text \<open>The digits of \<open>show_hex\<close> number at most sixteen below \<open>2 ^ 64\<close>.\<close>

lemma length_show_base:
  "2 \<le> b \<Longrightarrow> n < b ^ Suc k \<Longrightarrow> length (show_base b n) \<le> Suc k"
proof (induction k arbitrary: n)
  case 0
  then show ?case by (simp add: show_base.simps [of b n])
next
  case (Suc k)
  have "n div b < b ^ Suc k" using Suc.prems by (simp add: less_mult_imp_div_less mult.commute)
  with Suc show ?case by (simp add: show_base.simps [of b n])
qed

lemma length_show_hex16: "n < 2 ^ 64 \<Longrightarrow> length (show_hex16 n) = 16"
  using length_show_base [of 16 n 15] by (simp add: show_hex16_def show_hex_def)

lemma num_val_zeros: "num_val 16 (replicate k (CHR ''0'') @ s) = num_val 16 s"
  by (induction k) (simp_all add: num_val_def hex_value_def Let_def)

lemma show_hex16_inject: "show_hex16 m = show_hex16 n \<longleftrightarrow> m = n"
proof
  assume "show_hex16 m = show_hex16 n"
  then have "num_val 16 (show_hex16 m) = num_val 16 (show_hex16 n)" by simp
  then show "m = n" by (simp add: show_hex16_def num_val_zeros show_hex_def num_val_show_base)
qed simp

definition component_code :: "string \<Rightarrow> string" where
  "component_code c = ''/'' @ show_hex16 (length c) @ '':'' @ c"

lemma tls_seed_label_code:
  "tls_seed_label kind cs = ''styrene/tls/v2/'' @ kind @ concat (map component_code cs)"
proof -
  have "foldl (\<lambda>label c. label @ ''/'' @ show_hex16 (length c) @ '':'' @ c) l cs = l @ concat (map component_code cs)" for l
    by (induction cs arbitrary: l) (simp_all add: component_code_def)
  then show ?thesis by (simp add: tls_seed_label_def)
qed

lemma tls_seed_label_inject:
  assumes "CHR ''/'' \<notin> set kind" and "CHR ''/'' \<notin> set kind'"
    and "\<forall>c \<in> set cs \<union> set cs'. length c < 2 ^ 64"
  shows "tls_seed_label kind cs = tls_seed_label kind' cs' \<longleftrightarrow> kind = kind' \<and> cs = cs'"
proof
  let ?A = "{c :: string. length c < 2 ^ 64}"
  have code: "x = y \<and> r = s"
    if "x \<in> ?A" "y \<in> ?A" and eq: "component_code x @ r = component_code y @ s" for x y r s
  proof -
    have hex: "show_hex16 (length x) = show_hex16 (length y)" and rest: "x @ r = y @ s"
      using eq that(1,2) length_show_hex16 [of "length x"] length_show_hex16 [of "length y"]
      by (simp_all add: component_code_def append_eq_append_conv)
    then show ?thesis by (simp add: show_hex16_inject append_eq_append_conv)
  qed
  have kind: "takeWhile (\<lambda>c. c \<noteq> CHR ''/'') (k @ concat (map component_code ds)) = k"
    if "CHR ''/'' \<notin> set k" for k ds
  proof -
    have "takeWhile (\<lambda>c. c \<noteq> CHR ''/'') (concat (map component_code ds)) = []"
      by (cases ds) (simp_all add: component_code_def)
    moreover have "\<forall>c \<in> set k. c \<noteq> CHR ''/''" using that by auto
    ultimately show ?thesis by (subst takeWhile_append2) simp_all
  qed
  assume "tls_seed_label kind cs = tls_seed_label kind' cs'"
  then have eq: "kind @ concat (map component_code cs) = kind' @ concat (map component_code cs')"
    by (simp add: tls_seed_label_code)
  then have k: "kind = kind'" using kind [OF assms(1)] kind [OF assms(2)] by metis
  with eq have "concat (map component_code cs) = concat (map component_code cs')" by simp
  then have "cs = cs'"
    by (rule concat_prefix_code [where f = component_code and A = ?A, OF code, rotated -1])
      (use assms(3) in \<open>auto simp: component_code_def\<close>)
  with k show "kind = kind' \<and> cs = cs'" by simp
qed simp

lemma tls_seed_label_nonempty: "tls_seed_label kind cs \<noteq> []"
  by (simp add: tls_seed_label_code)

lemma serial_wf:
  assumes "hash_crate K"
  shows "length (deterministic_serial K parts) = 20"
    and "0 < unat (hd (deterministic_serial K parts))" and "unat (hd (deterministic_serial K parts)) < 128"
proof -
  define s where "s = take 20 (sha256_digest K (serial_preimage parts))"
  have len: "length s = 20" using hash_crate.length_sha256 [OF assms] by (simp add: s_def)
  then obtain b r where s: "s = b # r" by (cases s) auto
  have eq: "deterministic_serial K parts = (if b AND 0x7f = 0 then 1 else b AND 0x7f) # r"
    by (simp add: deterministic_serial_def s_def [symmetric] s)
  then show "length (deterministic_serial K parts) = 20" using len s by simp
  have "b AND 0x7f \<le> 0x7f" by (rule word_and_le1)
  then have "unat (b AND 0x7f) \<le> 127" by (simp add: word_le_nat_alt)
  with eq show "0 < unat (hd (deterministic_serial K parts))" "unat (hd (deterministic_serial K parts)) < 128"
    by (simp_all add: unat_gt_0)
qed

text \<open>Equal serial numbers: the digests agree in every byte but the masked first one.\<close>

lemma serial_tl:
  assumes "hash_crate K"
  shows "tl (deterministic_serial K parts) = take 19 (drop 1 (sha256_digest K (serial_preimage parts)))"
proof -
  obtain b r where d: "sha256_digest K (serial_preimage parts) = b # r"
    using hash_crate.length_sha256 [OF assms, of "serial_preimage parts"] by (cases "sha256_digest K (serial_preimage parts)") auto
  then show ?thesis by (simp add: deterministic_serial_def Let_def take_Cons')
qed

text \<open>The serial inputs determine what they name.\<close>

lemma sint_eq_iff: "sint (x :: 32 word) = sint y \<longleftrightarrow> x = y"
  using signed_word_eqI [of x y] by auto

lemma ca_serial_parts_inject:
  "ca_serial_parts ih scope (styrene_ca_uri ih scope) p = ca_serial_parts ih' scope' (styrene_ca_uri ih' scope') p'
     \<longleftrightarrow> ih = ih' \<and> scope = scope' \<and> profile_name p = profile_name p' \<and> ca_epoch p = ca_epoch p'
       \<and> ca_not_before_year p = ca_not_before_year p' \<and> ca_not_after_year p = ca_not_after_year p'"
  by (auto simp: ca_serial_parts_def show_int_inject sint_eq_iff)

lemma leaf_serial_parts_inject:
  "leaf_serial_parts ih role label uri names p = leaf_serial_parts ih' role' label' uri' names' p'
     \<longleftrightarrow> ih = ih' \<and> role = role' \<and> label = label' \<and> uri = uri' \<and> profile_name p = profile_name p'
       \<and> ca_epoch p = ca_epoch p' \<and> leaf_epoch p = leaf_epoch p'
       \<and> leaf_not_before_year p = leaf_not_before_year p' \<and> leaf_not_after_year p = leaf_not_after_year p'
       \<and> map fst names = map fst names'"
proof -
  have "role_name role = role_name role' \<longleftrightarrow> role = role'" by (cases role; cases role') simp_all
  then show ?thesis by (auto simp: leaf_serial_parts_def show_int_inject sint_eq_iff)
qed

lemma authority_is_no_leaf:
  "ca_serial_parts ih scope u p \<noteq> leaf_serial_parts ih' role label uri names p'" if "role \<noteq> Ca"
  using that by (cases role) (simp_all add: ca_serial_parts_def leaf_serial_parts_def)

subsection \<open>Reading the URIs back\<close>

fun pct_decode :: "string \<Rightarrow> string" where
  "pct_decode [] = []"
| "pct_decode (c # s) =
     (if c = CHR ''%'' then
        (case s of a # b # r \<Rightarrow>
             char_of (16 * the (char_digit 16 a) + the (char_digit 16 b)) # pct_decode r
         | _ \<Rightarrow> [])
      else c # pct_decode s)"

definition read_styrene_uri :: "string \<Rightarrow> (string \<times> string \<times> string) option" where
  "read_styrene_uri u =
     (let base = SPIFFE_BASE @ ''/identity/'' in
      if take (length base) u = base then
        (case split_at (CHR ''/'') (drop (length base) u) of
           [ih, role] \<Rightarrow> Some (pct_decode ih, role, [])
         | [ih, role, label] \<Rightarrow> Some (pct_decode ih, role, pct_decode label)
         | _ \<Rightarrow> None)
      else None)"

lemma char_digit_upper: "d < 16 \<Longrightarrow> char_digit 16 (upper_hex_char d) = Some d"
  by (simp add: char_digit_def upper_hex_char_def Let_def)

lemma char_digits: "(of_char c :: nat) div 16 < 16" "(of_char c :: nat) mod 16 < 16"
  using nat_of_char_less_256 [of c] by (simp_all add: less_mult_imp_div_less)

lemma pct_decode_byte: "pct_decode (pct_byte c @ s) = c # pct_decode s"
  using char_digits [of c] by (auto simp: pct_byte_def show_HEX2_def Let_def char_digit_upper)

lemma pct_decode_encode: "pct_decode (pct_encode_path v) = v"
  by (induction v) (simp_all add: pct_encode_path_def pct_decode_byte)

definition uri_char :: "char \<Rightarrow> bool" where
  "uri_char c \<longleftrightarrow> (of_char c :: nat) < 128 \<and> c \<noteq> CHR ''/''"

lemma upper_hex_uri_char: "d < 16 \<Longrightarrow> uri_char (upper_hex_char d)"
proof -
  assume "d < 16"
  then have "d < 10 \<and> of_char (upper_hex_char d) = 48 + d \<or> of_char (upper_hex_char d) = 55 + d"
    by (simp add: upper_hex_char_def)
  moreover have "(of_char (CHR ''/'') :: nat) = 47" by simp
  ultimately have "(of_char (upper_hex_char d) :: nat) < 128" "(of_char (upper_hex_char d) :: nat) \<noteq> of_char (CHR ''/'')"
    using \<open>d < 16\<close> by auto
  then show ?thesis unfolding uri_char_def by metis
qed

lemma pct_byte_uri_char: "d \<in> set (pct_byte c) \<Longrightarrow> uri_char d"
proof -
  have digits: "uri_char (upper_hex_char (of_char c div 16))" "uri_char (upper_hex_char (of_char c mod 16))"
    by (simp_all add: upper_hex_uri_char char_digits)
  have "uri_char (CHR ''%'')" "uri_char (CHR ''-'')" "uri_char (CHR ''.'')" "uri_char (CHR ''_'')" "uri_char (CHR ''~'')"
    by (simp_all add: uri_char_def)
  moreover have "uri_char c" if "65 \<le> (of_char c :: nat) \<and> (of_char c :: nat) \<le> 90 \<or> 97 \<le> (of_char c :: nat) \<and> (of_char c :: nat) \<le> 122
      \<or> 48 \<le> (of_char c :: nat) \<and> (of_char c :: nat) \<le> 57"
    using that by (auto simp: uri_char_def)
  ultimately show "d \<in> set (pct_byte c) \<Longrightarrow> uri_char d"
    using digits by (auto simp: pct_byte_def show_HEX2_def Let_def split: if_splits)
qed

lemma pct_encode_uri_char: "c \<in> set (pct_encode_path v) \<Longrightarrow> uri_char c"
  using pct_byte_uri_char by (auto simp: pct_encode_path_def)

lemma read_styrene_uri_eq:
  assumes "CHR ''/'' \<notin> set role"
  shows "read_styrene_uri (styrene_uri ih role label) = Some (ih, role, label)"
proof -
  have free: "CHR ''/'' \<notin> set (pct_encode_path v)" for v
    using pct_encode_uri_char [of "CHR ''/''" v] by (auto simp: uri_char_def)
  have tail: "split_at (CHR ''/'') (pct_encode_path ih @ [CHR ''/''] @ role @ r) = pct_encode_path ih # split_at (CHR ''/'') (role @ r)" for r
    by (rule split_at_append) (rule free)
  show ?thesis
    using tail [of "[]"] tail [of "CHR ''/'' # pct_encode_path label"]
      split_at_append [OF assms, of "pct_encode_path label"] split_at_free [OF assms] split_at_free [OF free]
    by (cases "label = []") (simp_all add: read_styrene_uri_def styrene_uri_def Let_def pct_decode_encode)
qed

lemma styrene_uri_ascii: "is_ascii role \<Longrightarrow> is_ascii (styrene_uri ih role label)"
  using pct_encode_uri_char by (auto simp: is_ascii_def styrene_uri_def SPIFFE_BASE_def uri_char_def)

subsection \<open>Normalised alternative names\<close>

text \<open>The names that count, and the key each is filed under.\<close>

definition named :: "string list \<Rightarrow> string set" where
  "named names = {str_trim n | n. n \<in> set names \<and> str_trim n \<noteq> []}"

definition san_key :: "string \<Rightarrow> string" where
  "san_key name =
     (case parse_ip_addr name of
        Some ip \<Rightarrow> ''ip:'' @ show_ip_addr ip
      | None \<Rightarrow> ''dns:'' @ to_ascii_lowercase name)"

lemma san_entry_key: "san_entry R n = Inr e \<Longrightarrow> fst e = san_key n"
  by (auto simp: san_entry_def san_key_def Let_def map_err_Inr_iff bind_res_Inr_iff split: option.splits)

lemma san_entry_determined:
  assumes "san_key n = san_key m"
  shows "san_entry R n = san_entry R m"
proof (cases "parse_ip_addr n"; cases "parse_ip_addr m")
  fix a b assume ips: "parse_ip_addr n = Some a" "parse_ip_addr m = Some b"
  then have "show_ip_addr a = show_ip_addr b" using assms by (simp add: san_key_def)
  then have "a = b" using ips by (blast intro: show_ip_addr_inject parse_ip_addr_wf)
  with ips show ?thesis by (simp add: san_entry_def)
qed (use assms in \<open>auto simp: san_entry_def san_key_def Let_def\<close>)

lemma named_Cons: "named (n # ns) = (if str_trim n = [] then named ns else insert (str_trim n) (named ns))"
  by (auto simp: named_def)

lemma san_entries_ok: "is_ok (san_entries R names) \<longleftrightarrow> (\<forall>n \<in> named names. is_ok (san_entry R n))"
proof (induction names)
  case (Cons n ns)
  then show ?case
    by (cases "san_entry R (str_trim n)"; cases "san_entries R ns") (auto simp: named_Cons Let_def)
qed (simp add: named_def)

lemma san_entries_set: "san_entries R names = Inr es \<Longrightarrow> Inr ` set es = san_entry R ` named names"
proof (induction names arbitrary: es)
  case Nil
  then show ?case by (simp add: named_def)
next
  case (Cons n ns)
  show ?case
  proof (cases "str_trim n = []")
    case True
    with Cons show ?thesis by (simp add: Let_def named_Cons)
  next
    case False
    then obtain e ds where "san_entry R (str_trim n) = Inr e" "san_entries R ns = Inr ds" "es = e # ds"
      using Cons.prems by (auto simp: Let_def bind_res_Inr_iff)
    with False Cons.IH [of ds] show ?thesis by (simp add: named_Cons)
  qed
qed

lemma set_dedup_by_key: "inj_on fst (set es) \<Longrightarrow> set (dedup_by_key es) = set es"
proof (induction es rule: dedup_by_key.induct)
  case (1 x y xs)
  have inj: "inj_on fst (set (x # xs))" by (rule inj_on_subset [OF 1(3)]) auto
  have inj': "inj_on fst (set (y # xs))" by (rule inj_on_subset [OF 1(3)]) auto
  show ?case
  proof (cases "fst y = fst x")
    case True
    have "y = x" by (rule inj_onD [OF 1(3) True]) simp_all
    with 1(1) [OF True inj] True show ?thesis by simp
  next
    case False
    with 1(2) [OF False inj'] show ?thesis by simp
  qed
qed simp_all

lemma dedup_by_key_strict:
  "sorted (map fst es) \<Longrightarrow> sorted_wrt (<) (map fst (dedup_by_key es))
     \<and> set (dedup_by_key es) \<subseteq> set es \<and> (es \<noteq> [] \<longrightarrow> hd (dedup_by_key es) = hd es \<and> dedup_by_key es \<noteq> [])"
  for es :: "('k :: linorder \<times> 'v) list"
proof (induction es rule: dedup_by_key.induct)
  case (1 x y xs)
  show ?case
  proof (cases "fst y = fst x")
    case True
    with 1(1) 1(3) show ?thesis by auto
  next
    case False
    with 1(2) 1(3) have IH: "sorted_wrt (<) (map fst (dedup_by_key (y # xs)))" "set (dedup_by_key (y # xs)) \<subseteq> set (y # xs)"
      by auto
    have "fst x < fst e" if "e \<in> set (y # xs)" for e
      using 1(3) False that by (force simp: order.strict_iff_order)
    with IH have "\<forall>e \<in> set (dedup_by_key (y # xs)). fst x < fst e" by blast
    with IH False show ?thesis by auto
  qed
qed simp_all

lemma normalize_ok:
  "is_ok (normalize_subject_alt_names R names) \<longleftrightarrow> (\<forall>n \<in> named names. is_ok (san_entry R n))"
  unfolding san_entries_ok [symmetric]
  by (cases "san_entries R names") (simp_all add: normalize_subject_alt_names_def)

lemma normalize_eq:
  assumes "normalize_subject_alt_names R names = Inr es"
  shows "sorted_wrt (<) (map fst es)" and "Inr ` set es = san_entry R ` named names" and "inj_on fst (set es)"
proof -
  obtain ds where ds: "san_entries R names = Inr ds" and es: "es = dedup_by_key (sort_key fst ds)"
    using assms by (auto simp: normalize_subject_alt_names_def bind_res_Inr_iff)
  note set_ds = san_entries_set [OF ds]
  have inj: "inj_on fst (set ds)"
  proof (rule inj_onI)
    fix a b assume "a \<in> set ds" "b \<in> set ds" "fst a = fst b"
    moreover from this obtain n m where "san_entry R n = Inr a" "san_entry R m = Inr b"
      using set_ds by (metis imageE imageI)
    ultimately show "a = b" using san_entry_key san_entry_determined by (metis sum.inject(2))
  qed
  have sorted: "sorted (map fst (sort_key fst ds))" by simp
  show "sorted_wrt (<) (map fst es)" using dedup_by_key_strict [OF sorted] es by simp
  have "set es = set ds" using set_dedup_by_key [of "sort_key fst ds"] inj es by simp
  with set_ds inj show "Inr ` set es = san_entry R ` named names" "inj_on fst (set es)" by simp_all
qed

lemma san_entry_image_cong:
  assumes "san_key ` A = san_key ` B"
  shows "san_entry R ` A = san_entry R ` B"
proof -
  have "san_entry R ` C \<subseteq> san_entry R ` D" if "san_key ` C \<subseteq> san_key ` D" for C D
  proof
    fix x assume "x \<in> san_entry R ` C"
    then obtain n where n: "n \<in> C" "x = san_entry R n" by blast
    with that obtain m where "m \<in> D" "san_key n = san_key m" by blast
    with n show "x \<in> san_entry R ` D" by (metis imageI san_entry_determined)
  qed
  from this [of A B] this [of B A] show ?thesis using assms by (intro equalityI) simp_all
qed

lemma normalize_cong:
  assumes "san_key ` named names = san_key ` named names'"
  shows "is_ok (normalize_subject_alt_names R names) \<longleftrightarrow> is_ok (normalize_subject_alt_names R names')"
    and "normalize_subject_alt_names R names = Inr es \<Longrightarrow> normalize_subject_alt_names R names' = Inr es"
proof -
  have same: "san_entry R ` named names = san_entry R ` named names'"
    by (rule san_entry_image_cong) (rule assms)
  have image: "is_ok (normalize_subject_alt_names R ns) \<longleftrightarrow> (\<forall>x \<in> san_entry R ` named ns. is_ok x)" for ns
    by (simp add: normalize_ok)
  show ok: "is_ok (normalize_subject_alt_names R names) \<longleftrightarrow> is_ok (normalize_subject_alt_names R names')"
    unfolding image same by (rule refl)
  assume es: "normalize_subject_alt_names R names = Inr es"
  with ok obtain es' where es': "normalize_subject_alt_names R names' = Inr es'" by (auto simp: is_ok_iff)
  have set: "set es = set es'"
    by (rule inj_image_eq_iff [THEN iffD1, of "Inr :: _ \<Rightarrow> pki_error + _"])
      (simp_all add: inj_def normalize_eq(2) [OF es] normalize_eq(2) [OF es'] same)
  have "es = es'"
  proof (rule map_sorted_distinct_set_unique [where f = fst])
    show "inj_on fst (set es \<union> set es')" using normalize_eq(3) [OF es] set by simp
    show "sorted (map fst es)" "distinct (map fst es)" "sorted (map fst es')" "distinct (map fst es')"
      using normalize_eq(1) [OF es] normalize_eq(1) [OF es'] by (simp_all add: strict_sorted_iff)
  qed (rule set)
  with es' show "normalize_subject_alt_names R names' = Inr es" by simp
qed

lemma leaf_params_cong:
  "normalize_subject_alt_names R names = normalize_subject_alt_names R names' \<Longrightarrow>
     leaf_params R K ih role label uri names p = leaf_params R K ih role label uri names' p"
  by (simp add: leaf_params_def)

subsection \<open>A small instance\<close>

text \<open>A stand-in for \<^verbatim>\<open>rcgen\<close>: a certificate is the parameters and keys it was made from.\<close>

definition lite_rcgen ::
  "(int, byte list, int cert_params \<times> byte list \<times> int cert_params \<times> byte list) rcgen" where
  "lite_rcgen = \<lparr>
     params_new = \<lambda>_. Inr \<lparr> serial_number = None, not_before = 1975, not_after = 4096, is_ca = NoCa,
       distinguished_name = [], subject_alt_names = [], key_usages = [], extended_key_usages = [],
       use_authority_key_identifier_extension = False \<rparr>,
     date_time_ymd = \<lambda>y _ _. if 0 \<le> y \<and> y \<le> 9999 then Some y else None,
     ia5_string = \<lambda>s. if is_ascii s then Inr s else Inl ''InvalidAsn1String'',
     key_pair_try_from = \<lambda>der. if length der = 48 \<and> take 16 der = ed25519_pkcs8_prefix
       then Inr (drop 16 der) else Inl ''CouldNotParseKeyPair'',
     self_signed = \<lambda>p k. Inr (p, k, p, k),
     signed_by = \<lambda>p k i. Inr (p, k, i),
     cert_der = \<lambda>c. the (serial_number (fst c)),
     cert_pem = \<lambda>_. '''',
     serialize_pem = \<lambda>_. '''',
     serialize_der = \<lambda>k. ed25519_pkcs8_prefix @ k \<rparr>"

lemma named_code: "named names = set (filter (\<lambda>n. n \<noteq> []) (map str_trim names))"
  by (auto simp: named_def)

subsection \<open>Properties\<close>

text \<open>
  C15: Certificate keys and serial numbers are separated.  The seed labels of two keys are the same
  path of the key tree exactly when the kind and every component (profile, scope, label, epoch) are
  the same; both keys exist, and for different paths they agree only where HKDF collides at the inputs
  shown.  A serial number is a positive integer of 20 bytes, made from an input that determines its
  parts, so two agree for different parts only where the two different inputs have digests that agree
  in 19 bytes; and the parts determine every field of the request that goes into the certificate, for
  an authority and for a leaf, which never share them.
\<close>

theorem certificate_keys_separate:
  assumes "kdf_crate K" and "hash_crate K" and "{kind, kind'} \<subseteq> range role_name"
    and "\<forall>c \<in> set cs \<union> set cs' \<union> set parts \<union> set parts'. length c < 2 ^ 64"
  shows "(let p = request_path (TlsKey (tls_seed_label kind cs)); q = request_path (TlsKey (tls_seed_label kind' cs')) in
           (p = q \<longleftrightarrow> kind = kind' \<and> cs = cs')
         \<and> (\<exists>s s'. derive_tls_certificate_key K (KeyDeriver_new K root) (tls_seed_label kind cs) = Some (Inr s)
              \<and> derive_tls_certificate_key K (KeyDeriver_new K root) (tls_seed_label kind' cs') = Some (Inr s')
              \<and> (s \<noteq> s' \<or> kind = kind' \<and> cs = cs'
                \<or> extract_call K root p \<noteq> extract_call K root q \<and>
                  case_prod (hkdf_extract K) (extract_call K root p) = case_prod (hkdf_extract K) (extract_call K root q)
                \<or> expand_call K root p \<noteq> expand_call K root q \<and>
                  (\<exists>okm. case_prod (\<lambda>prk info. hkdf_expand K prk info 32) (expand_call K root p) = Some okm \<and>
                         case_prod (\<lambda>prk info. hkdf_expand K prk info 32) (expand_call K root q) = Some okm))))
    \<and> (serial_preimage parts = serial_preimage parts' \<longleftrightarrow> parts = parts')
    \<and> (deterministic_serial K parts \<noteq> deterministic_serial K parts' \<or> parts = parts'
       \<or> serial_preimage parts \<noteq> serial_preimage parts'
         \<and> take 19 (drop 1 (sha256_digest K (serial_preimage parts)))
           = take 19 (drop 1 (sha256_digest K (serial_preimage parts'))))
    \<and> length (deterministic_serial K parts) = 20
    \<and> 0 < unat (hd (deterministic_serial K parts)) \<and> unat (hd (deterministic_serial K parts)) < 128
    \<and> (ca_serial_parts ih scope (styrene_ca_uri ih scope) p = ca_serial_parts ih' scope' (styrene_ca_uri ih' scope') p'
       \<longleftrightarrow> ih = ih' \<and> scope = scope' \<and> profile_name p = profile_name p' \<and> ca_epoch p = ca_epoch p'
         \<and> ca_not_before_year p = ca_not_before_year p' \<and> ca_not_after_year p = ca_not_after_year p')
    \<and> (leaf_serial_parts ih role label uri names p = leaf_serial_parts ih' role' label' uri' names' p'
       \<longleftrightarrow> ih = ih' \<and> role = role' \<and> label = label' \<and> uri = uri' \<and> profile_name p = profile_name p'
         \<and> ca_epoch p = ca_epoch p' \<and> leaf_epoch p = leaf_epoch p'
         \<and> leaf_not_before_year p = leaf_not_before_year p' \<and> leaf_not_after_year p = leaf_not_after_year p'
         \<and> map fst names = map fst names')
    \<and> (role' = Ca \<or> ca_serial_parts ih scope uri p \<noteq> leaf_serial_parts ih' role' label' uri' names' p')"
proof -
  let ?l = "tls_seed_label kind cs" and ?l' = "tls_seed_label kind' cs'"
  let ?p = "request_path (TlsKey ?l)" and ?q = "request_path (TlsKey ?l')"
  have "CHR ''/'' \<notin> set (role_name r)" for r by (cases r) simp_all
  then have "CHR ''/'' \<notin> set kind" "CHR ''/'' \<notin> set kind'" using assms(3) by auto
  then have path: "?p = ?q \<longleftrightarrow> kind = kind' \<and> cs = cs'"
    using assms(4) by (simp add: tls_seed_label_inject)
  have run: "derive_tls_certificate_key K (KeyDeriver_new K root) l = Some (Inr (path_key K root (request_path (TlsKey l))))"
    if "l \<noteq> []" for l
    using kdf_crate.run_request_path [OF assms(1), of root "TlsKey l"] that by simp
  have collide: "path_key K root ?p \<noteq> path_key K root ?q \<or> kind = kind' \<and> cs = cs'
      \<or> extract_call K root ?p \<noteq> extract_call K root ?q \<and>
           case_prod (hkdf_extract K) (extract_call K root ?p) = case_prod (hkdf_extract K) (extract_call K root ?q)
      \<or> expand_call K root ?p \<noteq> expand_call K root ?q \<and>
           (\<exists>okm. case_prod (\<lambda>prk info. hkdf_expand K prk info 32) (expand_call K root ?p) = Some okm \<and>
                  case_prod (\<lambda>prk info. hkdf_expand K prk info 32) (expand_call K root ?q) = Some okm)"
  proof (cases "path_key K root ?p = path_key K root ?q \<and> ?p \<noteq> ?q")
    case True
    then have "path_key K root ?p = path_key K root ?q" "?p \<noteq> ?q" by simp_all
    then have "extract_call K root ?p \<noteq> extract_call K root ?q \<and>
           case_prod (hkdf_extract K) (extract_call K root ?p) = case_prod (hkdf_extract K) (extract_call K root ?q)
      \<or> expand_call K root ?p \<noteq> expand_call K root ?q \<and>
           (\<exists>okm. case_prod (\<lambda>prk info. hkdf_expand K prk info 32) (expand_call K root ?p) = Some okm \<and>
                  case_prod (\<lambda>prk info. hkdf_expand K prk info 32) (expand_call K root ?q) = Some okm)"
      by (rule kdf_crate.equal_keys_collide [OF assms(1)]) (use salt_neqs in auto)
    then show ?thesis by blast
  qed (use path in blast)
  have serial: "serial_preimage parts = serial_preimage parts' \<longleftrightarrow> parts = parts'"
    using assms(4) by (simp add: serial_preimage_inject)
  have keys: "\<exists>s s'. derive_tls_certificate_key K (KeyDeriver_new K root) ?l = Some (Inr s)
      \<and> derive_tls_certificate_key K (KeyDeriver_new K root) ?l' = Some (Inr s')
      \<and> (s \<noteq> s' \<or> kind = kind' \<and> cs = cs'
        \<or> extract_call K root ?p \<noteq> extract_call K root ?q \<and>
           case_prod (hkdf_extract K) (extract_call K root ?p) = case_prod (hkdf_extract K) (extract_call K root ?q)
        \<or> expand_call K root ?p \<noteq> expand_call K root ?q \<and>
           (\<exists>okm. case_prod (\<lambda>prk info. hkdf_expand K prk info 32) (expand_call K root ?p) = Some okm \<and>
                  case_prod (\<lambda>prk info. hkdf_expand K prk info 32) (expand_call K root ?q) = Some okm))"
    by (intro exI [of _ "path_key K root ?p"] exI [of _ "path_key K root ?q"] conjI run tls_seed_label_nonempty collide)
  have digests: "deterministic_serial K parts \<noteq> deterministic_serial K parts' \<or> parts = parts'
       \<or> serial_preimage parts \<noteq> serial_preimage parts'
         \<and> take 19 (drop 1 (sha256_digest K (serial_preimage parts)))
           = take 19 (drop 1 (sha256_digest K (serial_preimage parts')))"
    using serial serial_tl [OF assms(2), of parts] serial_tl [OF assms(2), of parts'] by auto
  have other: "role' = Ca \<or> ca_serial_parts ih scope uri p \<noteq> leaf_serial_parts ih' role' label' uri' names' p'"
  proof (cases "role' = Ca")
    case False
    then show ?thesis by (intro disjI2 authority_is_no_leaf)
  qed simp
  show ?thesis
    unfolding Let_def
    by (intro conjI path keys serial digests serial_wf [OF assms(2)] ca_serial_parts_inject leaf_serial_parts_inject other)
qed

theorem certificate_keys_separate_witness:
  "request_path (TlsKey (tls_seed_label ''ca'' [''default'', ''mesh'', ''0'']))
     \<noteq> request_path (TlsKey (tls_seed_label ''ca'' [''default'', ''mesh'', ''1'']))
   \<and> serial_preimage [''ca'', ''x''] \<noteq> serial_preimage [''cax'']
   \<and> length (deterministic_serial lite_crates [''ca'', ''x'']) = 20"
proof -
  have kinds: "{''ca'', ''ca''} \<subseteq> range role_name" by (auto intro: range_eqI [of _ _ Ca])
  have lengths: "\<forall>c \<in> set [''default'', ''mesh'', ''0''] \<union> set [''default'', ''mesh'', ''1'']
      \<union> set [''ca'', ''x''] \<union> set [''cax'']. length c < 2 ^ 64" by simp
  have laws: "kdf_crate lite_crates" "hash_crate lite_crates"
    using lite_identity.identity_crates_axioms by (simp_all add: identity_crates_def)
  show ?thesis
    using certificate_keys_separate [OF laws kinds lengths]
    unfolding Let_def by (simp del: request_path.simps)
qed

text \<open>
  C34: The identity URIs read back: percent-decoding the parts between the slashes of an agent, client
  or authority URI returns the identity hash, the role and the label, whatever bytes they hold; the
  URI is ASCII text under the identity base.
\<close>

theorem identity_uri_roundtrip:
  "read_styrene_uri (styrene_agent_uri ih label) = Some (ih, ''agent'', label)
   \<and> read_styrene_uri (styrene_client_uri ih label) = Some (ih, ''client'', label)
   \<and> read_styrene_uri (styrene_ca_uri ih label) = Some (ih, ''ca'', label)
   \<and> is_ascii (styrene_agent_uri ih label) \<and> is_ascii (styrene_client_uri ih label)
   \<and> is_ascii (styrene_ca_uri ih label)"
  by (simp add: styrene_agent_uri_def styrene_client_uri_def styrene_ca_uri_def read_styrene_uri_eq
      styrene_uri_ascii is_ascii_def [of "''agent''"] is_ascii_def [of "''client''"] is_ascii_def [of "''ca''"])

text \<open>
  C35: The alternative names of a server certificate form a set: when each non-blank name is an
  address or a name \<^verbatim>\<open>rcgen\<close> takes, the normalised list is strictly sorted by key and holds exactly
  the entries of the names, and any list that names the same hosts (up to order, repetition, blanks,
  letter case and the spelling of an address) gives the same list and the same chain.
\<close>

theorem subject_alt_names_canonical:
  assumes "san_key ` named names = san_key ` named names'"
    and "\<forall>n \<in> named names. is_ok (san_entry R n)"
  shows "(\<exists>es. normalize_subject_alt_names R names = Inr es \<and> normalize_subject_alt_names R names' = Inr es
     \<and> sorted_wrt (<) (map fst es) \<and> Inr ` set es = san_entry R ` named names)
    \<and> derive_server_certificate_chain_with_profile R K root ca_scope agent_label names p
       = derive_server_certificate_chain_with_profile R K root ca_scope agent_label names' p"
proof -
  obtain es where es: "normalize_subject_alt_names R names = Inr es"
    using assms(2) normalize_ok [of R names] by (auto simp: is_ok_iff)
  with normalize_cong [OF assms(1)] normalize_eq [OF es]
  have entries: "\<exists>es. normalize_subject_alt_names R names = Inr es \<and> normalize_subject_alt_names R names' = Inr es
     \<and> sorted_wrt (<) (map fst es) \<and> Inr ` set es = san_entry R ` named names" by blast
  have "normalize_subject_alt_names R names = normalize_subject_alt_names R names'"
    using normalize_cong(2) [OF assms(1) es] es by simp
  from leaf_params_cong [OF this] have "derive_server_certificate_chain_with_profile R K root ca_scope agent_label names p
       = derive_server_certificate_chain_with_profile R K root ca_scope agent_label names' p"
    by (simp add: derive_server_certificate_chain_with_profile_def derive_leaf_certificate_chain_def)
  with entries show ?thesis by (rule conjI)
qed

lemmas trim_simps = str_trim_def str_chars_def ws_bytes_def char_len_utf8_def char_is_whitespace_def
lemmas ip_simps = parse_ip_addr_def read_ipv4_def read_octet_def read_number_def char_digit_def read_ipv6_def
  read_separator_def Let_def

theorem subject_alt_names_canonical_witness:
  "derive_server_certificate_chain_with_profile lite_rcgen lite_crates (replicate 32 7) ''mesh'' ''forge''
       [''B.x'', '' ::1'', '''', ''10.0.0.1''] profile_default
     = derive_server_certificate_chain_with_profile lite_rcgen lite_crates (replicate 32 7) ''mesh'' ''forge''
       [''10.0.0.1'', ''0:0::1'', ''b.X'', ''b.x''] profile_default"
proof (rule subject_alt_names_canonical [THEN conjunct2])
  have trims: "str_trim ''B.x'' = ''B.x''" "str_trim '' ::1'' = ''::1''" "str_trim ''10.0.0.1'' = ''10.0.0.1''"
    "str_trim ''0:0::1'' = ''0:0::1''" "str_trim ''b.X'' = ''b.X''" "str_trim ''b.x'' = ''b.x''" "str_trim [] = []"
    by (simp_all add: trim_simps)
  have ips: "parse_ip_addr ''B.x'' = None" "parse_ip_addr ''b.X'' = None" "parse_ip_addr ''b.x'' = None"
    "parse_ip_addr ''10.0.0.1'' = Some (V4 [10, 0, 0, 1])"
    "parse_ip_addr ''::1'' = Some (V6 [0, 0, 0, 0, 0, 0, 0, 1])"
    "parse_ip_addr ''0:0::1'' = Some (V6 [0, 0, 0, 0, 0, 0, 0, 1])"
    by (simp_all add: ip_simps eval_nat_numeral)
  have lower: "to_ascii_lowercase ''B.x'' = ''b.x''" "to_ascii_lowercase ''b.X'' = ''b.x''" "to_ascii_lowercase ''b.x'' = ''b.x''"
    by (simp_all add: to_ascii_lowercase_def ascii_lower_def char_of_eq_iff)
  show "san_key ` named [''B.x'', '' ::1'', '''', ''10.0.0.1'']
      = san_key ` named [''10.0.0.1'', ''0:0::1'', ''b.X'', ''b.x'']"
    by (auto simp: named_code trims san_key_def ips lower)
  show "\<forall>n \<in> named [''B.x'', '' ::1'', '''', ''10.0.0.1'']. is_ok (san_entry lite_rcgen n)"
    by (auto simp: named_code trims san_entry_def ips lower lite_rcgen_def is_ascii_def Let_def)
qed

end
