(* ===== verification/CertChain.thy ===== *)
theory CertChain
  imports Pki
begin

text \<open>
  What \<^verbatim>\<open>src/pki.rs\<close> issues: the decision table of a request and the contents of the authority and the
  leaf, under the documented behaviour of \<^verbatim>\<open>rcgen\<close> (\<open>x509_crate\<close>).
\<close>

subsection \<open>Contract of rcgen\<close>

text \<open>What a certificate says: its contents, its subject's key, its issuer and the key that signed it.\<close>

record 'd x509 =
  x_params :: "'d cert_params"
  x_subject_key :: "byte list"
  x_issuer :: "(dn_type \<times> string) list"
  x_signer :: "byte list"

text \<open>
  Fresh parameters carry no names or usages; dates of four-digit years exist; ASCII text is an
  \<^verbatim>\<open>Ia5String\<close>; an Ed25519 PKCS#8 document is a key pair with the public key of its seed; and parameters
  with a serial number of at most 20 bytes are issued as asked.
\<close>

locale x509_crate =
  fixes R :: "('d, 'k, 'c) rcgen" and K :: crates and content :: "'c \<Rightarrow> 'd x509"
    and public_of :: "'k \<Rightarrow> byte list"
  assumes params_new_ok: "\<exists>p. params_new R [] = Inr p \<and> subject_alt_names p = [] \<and> key_usages p = []
      \<and> extended_key_usages p = [] \<and> \<not> use_authority_key_identifier_extension p"
    and date_ok: "0 \<le> y \<Longrightarrow> y \<le> 9999 \<Longrightarrow> \<exists>d. date_time_ymd R y 1 1 = Some d"
    and ia5_ok: "is_ascii s \<Longrightarrow> ia5_string R s = Inr s"
    and key_pair_ok: "length seed = 32 \<Longrightarrow>
      \<exists>k. key_pair_try_from R (ed25519_pkcs8_prefix @ seed) = Inr k \<and> public_of k = ed_verifying_key K seed"
    and self_signed_ok: "serial_number p = Some n \<Longrightarrow> length n \<le> 20 \<Longrightarrow>
      \<exists>c. self_signed R p k = Inr c \<and> content c = \<lparr> x_params = p, x_subject_key = public_of k,
            x_issuer = distinguished_name p, x_signer = public_of k \<rparr>"
    and signed_by_ok: "serial_number p = Some n \<Longrightarrow> length n \<le> 20 \<Longrightarrow>
      \<exists>c. signed_by R p k (q, j) = Inr c \<and> content c = \<lparr> x_params = p, x_subject_key = public_of k,
            x_issuer = distinguished_name q, x_signer = public_of j \<rparr>"

subsection \<open>The decision table\<close>

definition label_chars :: "string \<Rightarrow> nat list" where
  "label_chars v = (case str_chars v of Some cs \<Rightarrow> cs | None \<Rightarrow> [])"

definition valid_cert_label :: "string \<Rightarrow> bool" where
  "valid_cert_label v \<longleftrightarrow>
     v \<noteq> [] \<and> str_trim v = v \<and> length v \<le> 256 \<and> (\<forall>c \<in> set (label_chars v). \<not> char_is_control c)"

definition label_refusal :: "string \<Rightarrow> pki_error" where
  "label_refusal v =
     (if v = [] then PkiEmptyLabel
      else if str_trim v \<noteq> v then InvalidLabel ''leading or trailing whitespace''
      else if 256 < length v then InvalidLabel ''too long''
      else InvalidLabel ''control character'')"

definition nested_windows :: "cert_profile \<Rightarrow> bool" where
  "nested_windows p \<longleftrightarrow>
     sint (ca_not_before_year p) \<le> sint (leaf_not_before_year p)
     \<and> sint (leaf_not_before_year p) < sint (leaf_not_after_year p)
     \<and> sint (leaf_not_after_year p) \<le> sint (ca_not_after_year p)"

text \<open>The first refusal of a request: its labels in the order they are checked, then the windows.\<close>

definition refusal :: "string list \<Rightarrow> cert_profile \<Rightarrow> pki_error option" where
  "refusal labels p =
     (case find (\<lambda>v. \<not> valid_cert_label v) (labels @ [profile_name p, ca_epoch p, leaf_epoch p]) of
        Some v \<Rightarrow> Some (label_refusal v)
      | None \<Rightarrow> if nested_windows p then None else Some InvalidValidity)"

lemma validate_label_eq:
  "pki_validate_label v = (if valid_cert_label v then Inr () else Inl (label_refusal v))"
  by (auto simp: pki_validate_label_def valid_cert_label_def label_refusal_def label_chars_def
      MAX_LABEL_BYTES_def list_ex_iff split: option.splits)

lemma validate_profile_eq:
  "validate_profile p = (case refusal [] p of Some e \<Rightarrow> Inl e | None \<Rightarrow> Inr ())"
  by (simp add: validate_profile_def refusal_def validate_label_eq nested_windows_def)

lemma refusal_Cons:
  "refusal (v # vs) p = (if valid_cert_label v then refusal vs p else Some (label_refusal v))"
  by (simp add: refusal_def)

subsection \<open>Contents\<close>

definition tls_public :: "crates \<Rightarrow> byte list \<Rightarrow> string \<Rightarrow> byte list" where
  "tls_public K root label = ed_verifying_key K (path_key K root (request_path (TlsKey label)))"

definition ca_label :: "string \<Rightarrow> cert_profile \<Rightarrow> string" where
  "ca_label scope p = tls_seed_label ''ca'' [profile_name p, scope, ca_epoch p]"

definition leaf_label :: "certificate_role \<Rightarrow> string \<Rightarrow> string \<Rightarrow> cert_profile \<Rightarrow> string" where
  "leaf_label role scope label p =
     tls_seed_label (role_name role) [profile_name p, scope, label, leaf_epoch p]"

definition ca_name :: "string \<Rightarrow> string \<Rightarrow> (dn_type \<times> string) list" where
  "ca_name ih scope = [(CommonName, ''styrene:'' @ ih @ '':ca:'' @ scope)]"

text \<open>An authority signs itself, may sign leaves only, and names the identity and the scope.\<close>

definition authority ::
  "('d, 'k, 'c) rcgen \<Rightarrow> crates \<Rightarrow> byte list \<Rightarrow> string \<Rightarrow> string \<Rightarrow> cert_profile \<Rightarrow> 'd x509 \<Rightarrow> bool" where
  "authority R K root ih scope p c \<longleftrightarrow>
     x_subject_key c = tls_public K root (ca_label scope p) \<and> x_signer c = x_subject_key c
     \<and> x_issuer c = ca_name ih scope \<and> distinguished_name (x_params c) = ca_name ih scope
     \<and> is_ca (x_params c) = IsCa (Constrained 0)
     \<and> key_usages (x_params c) = [DigitalSignature, KeyCertSign, CrlSign]
     \<and> subject_alt_names (x_params c) = [URI (styrene_ca_uri ih scope)]
     \<and> serial_number (x_params c)
         = Some (deterministic_serial K
             [''ca'', ih, scope, styrene_ca_uri ih scope, profile_name p, ca_epoch p,
              show_int (sint (ca_not_before_year p)), show_int (sint (ca_not_after_year p)), ''v1''])
     \<and> date_time_ymd R (sint (ca_not_before_year p)) 1 1 = Some (not_before (x_params c))
     \<and> date_time_ymd R (sint (ca_not_after_year p)) 1 1 = Some (not_after (x_params c))"

text \<open>A leaf is signed by the authority, signs nothing, and has the usage of its role.\<close>

definition leaf ::
  "('d, 'k, 'c) rcgen \<Rightarrow> crates \<Rightarrow> byte list \<Rightarrow> string \<Rightarrow> string \<Rightarrow> certificate_role \<Rightarrow> string
     \<Rightarrow> (string \<times> san_type) list \<Rightarrow> cert_profile \<Rightarrow> 'd x509 \<Rightarrow> bool" where
  "leaf R K root ih scope role label names p c \<longleftrightarrow>
     x_subject_key c = tls_public K root (leaf_label role scope label p)
     \<and> x_signer c = tls_public K root (ca_label scope p) \<and> x_issuer c = ca_name ih scope
     \<and> distinguished_name (x_params c) = [(CommonName, ''styrene:'' @ ih @ '':'' @ role_name role @ '':'' @ label)]
     \<and> is_ca (x_params c) = ExplicitNoCa \<and> use_authority_key_identifier_extension (x_params c)
     \<and> key_usages (x_params c) = [DigitalSignature]
     \<and> extended_key_usages (x_params c) = [if role = Server then ServerAuth else ClientAuth]
     \<and> (\<exists>uri. leaf_uri role ih label = Some uri
          \<and> subject_alt_names (x_params c) = URI uri # map snd names
          \<and> serial_number (x_params c)
              = Some (deterministic_serial K
                  ([role_name role, ih, label, uri, profile_name p, ca_epoch p, leaf_epoch p,
                    show_int (sint (leaf_not_before_year p)), show_int (sint (leaf_not_after_year p)), ''v1'']
                   @ map fst names)))
     \<and> date_time_ymd R (sint (leaf_not_before_year p)) 1 1 = Some (not_before (x_params c))
     \<and> date_time_ymd R (sint (leaf_not_after_year p)) 1 1 = Some (not_after (x_params c))"

text \<open>The requests a caller can make: years of four digits, and names in ASCII.\<close>

definition plain_years :: "cert_profile \<Rightarrow> bool" where
  "plain_years p \<longleftrightarrow> (\<forall>y \<in> {ca_not_before_year p, ca_not_after_year p, leaf_not_before_year p, leaf_not_after_year p}.
     0 \<le> sint y \<and> sint y \<le> 9999)"

lemma is_ascii_lower: "is_ascii s \<Longrightarrow> is_ascii (to_ascii_lowercase s)"
  by (auto simp: is_ascii_def to_ascii_lowercase_def ascii_lower_def Let_def)

lemma is_ascii_trim: "is_ascii s \<Longrightarrow> is_ascii (str_trim s)"
  by (auto simp: is_ascii_def str_trim_def split: option.splits dest!: in_set_dropD in_set_takeD)

locale pki_crates = x509_crate R K content public_of + identity_crates K
  for R :: "('d, 'k, 'c) rcgen" and K and content :: "'c \<Rightarrow> 'd x509" and public_of :: "'k \<Rightarrow> byte list"
begin

lemma key_pair_of_label:
  assumes "label \<noteq> []"
  shows "\<exists>k. key_pair_from_derived_seed R K root label = Some (Inr k) \<and> public_of k = tls_public K root label"
proof -
  let ?seed = "path_key K root (request_path (TlsKey label))"
  have "derive_tls_certificate_key K (KeyDeriver_new K root) label = Some (Inr ?seed)"
    using run_request_path [of root "TlsKey label"] assms by simp
  moreover have "length ?seed = 32" by (rule length_path_key)
  ultimately show ?thesis
    using assms key_pair_ok [of ?seed]
    by (auto simp: key_pair_from_derived_seed_def ed25519_seed_to_pkcs8_der_def tls_public_def
        simp del: request_path.simps)
qed

lemma names_ok: "\<forall>n \<in> set names. is_ascii n \<Longrightarrow> \<exists>es. normalize_subject_alt_names R names = Inr es"
proof -
  assume ascii: "\<forall>n \<in> set names. is_ascii n"
  have "is_ok (san_entry R n)" if "n \<in> named names" for n
  proof -
    have "is_ascii n" using that ascii is_ascii_trim by (auto simp: named_def)
    then show ?thesis
      by (simp add: san_entry_def Let_def ia5_ok is_ascii_lower split: option.split)
  qed
  then show ?thesis using normalize_ok [of R names] by (simp add: is_ok_iff)
qed

lemma ca_params_ok:
  assumes "plain_years p"
  shows "\<exists>q. ca_params R K ih scope (styrene_ca_uri ih scope) p = Some (Inr q)
     \<and> distinguished_name q = ca_name ih scope \<and> is_ca q = IsCa (Constrained 0)
     \<and> key_usages q = [DigitalSignature, KeyCertSign, CrlSign]
     \<and> subject_alt_names q = [URI (styrene_ca_uri ih scope)]
     \<and> serial_number q = Some (deterministic_serial K (ca_serial_parts ih scope (styrene_ca_uri ih scope) p))
     \<and> date_time_ymd R (sint (ca_not_before_year p)) 1 1 = Some (not_before q)
     \<and> date_time_ymd R (sint (ca_not_after_year p)) 1 1 = Some (not_after q)"
proof -
  obtain q where q: "params_new R [] = Inr q" "subject_alt_names q = []" "key_usages q = []"
    using params_new_ok by blast
  obtain before where before: "date_time_ymd R (sint (ca_not_before_year p)) 1 1 = Some before"
    using date_ok assms by (auto simp: plain_years_def)
  obtain after where after: "date_time_ymd R (sint (ca_not_after_year p)) 1 1 = Some after"
    using date_ok assms by (auto simp: plain_years_def)
  have "ia5_string R (styrene_ca_uri ih scope) = Inr (styrene_ca_uri ih scope)"
    by (rule ia5_ok) (simp add: styrene_ca_uri_def styrene_uri_ascii is_ascii_def [of "''ca''"])
  with q before after show ?thesis by (simp add: ca_params_def ca_name_def)
qed

lemma leaf_params_ok:
  assumes "plain_years p" and "role \<noteq> Ca" and "valid_cert_label label"
    and "normalize_subject_alt_names R names = Inr es" and "leaf_uri role ih label = Some uri"
  shows "\<exists>q. leaf_params R K ih role label uri names p = Some (Inr q)
     \<and> distinguished_name q = [(CommonName, ''styrene:'' @ ih @ '':'' @ role_name role @ '':'' @ label)]
     \<and> is_ca q = ExplicitNoCa \<and> use_authority_key_identifier_extension q
     \<and> key_usages q = [DigitalSignature]
     \<and> extended_key_usages q = [if role = Server then ServerAuth else ClientAuth]
     \<and> subject_alt_names q = URI uri # map snd es
     \<and> serial_number q = Some (deterministic_serial K (leaf_serial_parts ih role label uri es p))
     \<and> date_time_ymd R (sint (leaf_not_before_year p)) 1 1 = Some (not_before q)
     \<and> date_time_ymd R (sint (leaf_not_after_year p)) 1 1 = Some (not_after q)"
proof -
  obtain q where q: "params_new R [] = Inr q" "subject_alt_names q = []" "key_usages q = []"
    "extended_key_usages q = []"
    using params_new_ok by blast
  obtain before where before: "date_time_ymd R (sint (leaf_not_before_year p)) 1 1 = Some before"
    using date_ok assms(1) by (auto simp: plain_years_def)
  obtain after where after: "date_time_ymd R (sint (leaf_not_after_year p)) 1 1 = Some after"
    using date_ok assms(1) by (auto simp: plain_years_def)
  have "is_ascii uri" using assms(2,5)
    by (cases role) (auto simp: styrene_agent_uri_def styrene_client_uri_def
        intro!: styrene_uri_ascii simp: is_ascii_def [of "''agent''"] is_ascii_def [of "''client''"])
  then have "ia5_string R uri = Inr uri" by (rule ia5_ok)
  moreover have "leaf_usage role = Some (if role = Server then ServerAuth else ClientAuth)"
    using assms(2) by (cases role) simp_all
  ultimately show ?thesis
    using q before after assms(3,4) by (simp add: leaf_params_def validate_label_eq)
qed

lemma ca_issued:
  assumes "plain_years p"
  shows "\<exists>k q c. key_pair_from_derived_seed R K root (ca_label scope p) = Some (Inr k)
     \<and> public_of k = tls_public K root (ca_label scope p)
     \<and> ca_params R K ih scope (styrene_ca_uri ih scope) p = Some (Inr q)
     \<and> distinguished_name q = ca_name ih scope
     \<and> self_signed R q k = Inr c \<and> authority R K root ih scope p (content c)"
proof -
  obtain k where k: "key_pair_from_derived_seed R K root (ca_label scope p) = Some (Inr k)"
    "public_of k = tls_public K root (ca_label scope p)"
    using key_pair_of_label [of "ca_label scope p" root] by (auto simp: ca_label_def tls_seed_label_nonempty)
  obtain q where q: "ca_params R K ih scope (styrene_ca_uri ih scope) p = Some (Inr q)"
    "distinguished_name q = ca_name ih scope" "is_ca q = IsCa (Constrained 0)"
    "key_usages q = [DigitalSignature, KeyCertSign, CrlSign]"
    "subject_alt_names q = [URI (styrene_ca_uri ih scope)]"
    "serial_number q = Some (deterministic_serial K (ca_serial_parts ih scope (styrene_ca_uri ih scope) p))"
    "date_time_ymd R (sint (ca_not_before_year p)) 1 1 = Some (not_before q)"
    "date_time_ymd R (sint (ca_not_after_year p)) 1 1 = Some (not_after q)"
    using ca_params_ok [OF assms] by blast
  obtain c where c: "self_signed R q k = Inr c"
    "content c = \<lparr> x_params = q, x_subject_key = public_of k, x_issuer = distinguished_name q, x_signer = public_of k \<rparr>"
    using self_signed_ok [OF q(6)] serial_wf(1) [OF hash_crate_axioms] by auto
  have "authority R K root ih scope p (content c)"
    using q k c(2) by (simp add: authority_def ca_serial_parts_def)
  with k q(1,2) c(1) show ?thesis by blast
qed

lemma leaf_issued:
  assumes "plain_years p" and "role \<noteq> Ca" and "valid_cert_label label"
    and "normalize_subject_alt_names R names = Inr es" and "leaf_uri role ih label = Some uri"
    and "public_of j = tls_public K root (ca_label scope p)" and "distinguished_name q = ca_name ih scope"
  shows "\<exists>k r c. key_pair_from_derived_seed R K root (leaf_label role scope label p) = Some (Inr k)
     \<and> leaf_params R K ih role label uri names p = Some (Inr r)
     \<and> signed_by R r k (q, j) = Inr c \<and> leaf R K root ih scope role label es p (content c)"
proof -
  obtain k where k: "key_pair_from_derived_seed R K root (leaf_label role scope label p) = Some (Inr k)"
    "public_of k = tls_public K root (leaf_label role scope label p)"
    using key_pair_of_label [of "leaf_label role scope label p" root]
    by (auto simp: leaf_label_def tls_seed_label_nonempty)
  obtain r where r: "leaf_params R K ih role label uri names p = Some (Inr r)"
    "distinguished_name r = [(CommonName, ''styrene:'' @ ih @ '':'' @ role_name role @ '':'' @ label)]"
    "is_ca r = ExplicitNoCa" "use_authority_key_identifier_extension r" "key_usages r = [DigitalSignature]"
    "extended_key_usages r = [if role = Server then ServerAuth else ClientAuth]"
    "subject_alt_names r = URI uri # map snd es"
    "serial_number r = Some (deterministic_serial K (leaf_serial_parts ih role label uri es p))"
    "date_time_ymd R (sint (leaf_not_before_year p)) 1 1 = Some (not_before r)"
    "date_time_ymd R (sint (leaf_not_after_year p)) 1 1 = Some (not_after r)"
    using leaf_params_ok [OF assms(1-5)] by blast
  obtain c where c: "signed_by R r k (q, j) = Inr c"
    "content c = \<lparr> x_params = r, x_subject_key = public_of k, x_issuer = distinguished_name q, x_signer = public_of j \<rparr>"
    using signed_by_ok [OF r(8), of k q j] serial_wf(1) [OF hash_crate_axioms] by auto
  have "leaf R K root ih scope role label es p (content c)"
    using r k c(2) assms(5-7) by (simp add: leaf_def leaf_serial_parts_def)
  with k r(1) c(1) show ?thesis by blast
qed

lemma chain_refused:
  assumes "refusal [scope, label] p = Some e"
  shows "derive_leaf_certificate_chain R K root scope role label names p = Some (Inl e)"
  using assms
  by (auto simp: derive_leaf_certificate_chain_def refusal_Cons validate_label_eq validate_profile_eq
      split: if_splits)

lemma chain_issued:
  assumes "plain_years p" and "\<forall>n \<in> set names. is_ascii n" and "role \<noteq> Ca"
    and "refusal [scope, label] p = None" and ih: "identity_hash K root = Some ih"
  shows "\<exists>ca lc es chain own. normalize_subject_alt_names R names = Inr es
     \<and> authority R K root ih scope p (content ca) \<and> leaf R K root ih scope role label es p (content lc)
     \<and> derive_leaf_certificate_chain R K root scope role label names p = Some (Inr chain)
     \<and> chain_profile chain = p \<and> ca_cert_pem chain = cert_pem R ca \<and> ca_cert_der chain = cert_der R ca
     \<and> ca_fingerprint chain = fingerprint_sha256 K (cert_der R ca)
     \<and> cert_role (chain_leaf chain) = role \<and> cert_identity_hash (chain_leaf chain) = ih
     \<and> leaf_uri role ih label = Some (cert_uri_san (chain_leaf chain))
     \<and> cert_der_bytes (chain_leaf chain) = cert_der R lc \<and> cert_pem_text (chain_leaf chain) = cert_pem R lc
     \<and> cert_fingerprint (chain_leaf chain) = fingerprint_sha256 K (cert_der R lc)
     \<and> derive_ca_certificate_with_profile R K root scope p = Some (Inr own)
     \<and> cert_der_bytes own = ca_cert_der chain \<and> cert_pem_text own = ca_cert_pem chain"
proof -
  have valid: "valid_cert_label scope" "valid_cert_label label" "refusal [] p = None"
    using assms(4) by (auto simp: refusal_Cons split: if_splits)
  obtain es where es: "normalize_subject_alt_names R names = Inr es"
    using names_ok [OF assms(2)] by blast
  obtain uri where uri: "leaf_uri role ih label = Some uri" using assms(3) by (cases role) simp_all
  obtain j q ca where ca: "key_pair_from_derived_seed R K root (ca_label scope p) = Some (Inr j)"
    "public_of j = tls_public K root (ca_label scope p)"
    "ca_params R K ih scope (styrene_ca_uri ih scope) p = Some (Inr q)"
    "distinguished_name q = ca_name ih scope"
    "self_signed R q j = Inr ca" "authority R K root ih scope p (content ca)"
    using ca_issued [OF assms(1)] by blast
  obtain k r lc where lc: "key_pair_from_derived_seed R K root (leaf_label role scope label p) = Some (Inr k)"
    "leaf_params R K ih role label uri names p = Some (Inr r)"
    "signed_by R r k (q, j) = Inr lc" "leaf R K root ih scope role label es p (content lc)"
    using leaf_issued [OF assms(1,3) valid(2) es uri ca(2,4)] by blast
  have label: "leaf_seed_label role scope label p = Inr (leaf_label role scope label p)"
    using assms(3) by (cases role) (simp_all add: leaf_label_def)
  have chain: "derive_leaf_certificate_chain R K root scope role label names p = Some (Inr
      \<lparr> chain_profile = p, ca_cert_pem = cert_pem R ca, ca_cert_der = cert_der R ca,
        ca_fingerprint = fingerprint_sha256 K (cert_der R ca),
        chain_leaf = material_from_cert R K role ih label (profile_name p) (leaf_epoch p) uri lc k \<rparr>)"
    using ca(1,3,5) lc(1-3)
    by (simp add: derive_leaf_certificate_chain_def validate_label_eq validate_profile_eq valid ih
        ca_label_def [symmetric] uri label Let_def)
  have self: "derive_ca_certificate_with_profile R K root scope p = Some (Inr
      (material_from_cert R K Ca ih scope (profile_name p) (ca_epoch p) (styrene_ca_uri ih scope) ca j))"
    using ca(1,3,5)
    by (simp add: derive_ca_certificate_with_profile_def validate_label_eq validate_profile_eq valid ih
        ca_label_def [symmetric] Let_def)
  show ?thesis
    by (rule exI [where x = ca], rule exI [where x = lc], rule exI [where x = es])
      (simp add: es ca(6) lc(4) chain self uri material_from_cert_def material_from_raw_def Let_def)
qed

end

subsection \<open>Years out of range\<close>

text \<open>
  \<^verbatim>\<open>validate_profile\<close> bounds no year, so a profile it accepts can reach a date \<^verbatim>\<open>rcgen\<close> panics on.
\<close>

lemma unchecked_year_panics:
  assumes "x509_crate R K content public_of" and "identity_crates K"
    and "refusal [scope] p = None" and "date_time_ymd R (sint (ca_not_before_year p)) 1 1 = None"
  shows "derive_ca_certificate_with_profile R K root scope p = None"
proof -
  have crates: "pki_crates R K content public_of" using assms(1,2) by (simp add: pki_crates_def)
  obtain ih where ih: "identity_hash K root = Some ih"
    using identity_crates.identity_hash_eq [OF assms(2)] by blast
  obtain q where q: "params_new R [] = Inr q" using x509_crate.params_new_ok [OF assms(1)] by blast
  obtain k where "key_pair_from_derived_seed R K root (ca_label scope p) = Some (Inr k)"
    using pki_crates.key_pair_of_label [OF crates, of "ca_label scope p" root]
    by (auto simp: ca_label_def tls_seed_label_nonempty)
  moreover have "valid_cert_label scope" "refusal [] p = None"
    using assms(3) by (auto simp: refusal_Cons split: if_splits)
  ultimately show ?thesis
    using assms(4) q by (simp add: derive_ca_certificate_with_profile_def validate_label_eq validate_profile_eq
        ih ca_label_def [symmetric] ca_params_def Let_def)
qed

subsection \<open>Property\<close>

definition lite_content ::
  "int cert_params \<times> byte list \<times> int cert_params \<times> byte list \<Rightarrow> int x509" where
  "lite_content c = (case c of (p, k, q, j) \<Rightarrow>
     \<lparr> x_params = p, x_subject_key = ed_verifying_key lite_crates k,
       x_issuer = distinguished_name q, x_signer = ed_verifying_key lite_crates j \<rparr>)"

interpretation lite_x509: x509_crate lite_rcgen lite_crates lite_content "ed_verifying_key lite_crates"
  by unfold_locales (auto simp: lite_rcgen_def lite_content_def ed25519_pkcs8_prefix_def)

text \<open>
  C14: A request for a server or client chain, with years of four digits and names in ASCII, is
  answered by its decision table: the first invalid
  label, checked in the order scope, label, profile, epochs, or windows that are not nested, is refused
  with that error and nothing else is.  Otherwise the chain is issued: an authority that signs itself,
  may issue leaves only and is the same as the one derived alone, and a leaf signed by the authority's
  key, with the key, names, usage, serial number and validity of the request; the material returned
  is that of these two certificates.
\<close>

theorem certificate_chain_issued:
  assumes "x509_crate R K content public_of" and "identity_crates K"
    and "plain_years p" and "\<forall>n \<in> set names. is_ascii n" and "role \<noteq> Ca"
  shows "\<exists>ih. identity_hash K root = Some ih \<and>
    (case refusal [scope, label] p of
       Some e \<Rightarrow> derive_leaf_certificate_chain R K root scope role label names p = Some (Inl e)
     | None \<Rightarrow> \<exists>ca lc es chain own. normalize_subject_alt_names R names = Inr es
         \<and> authority R K root ih scope p (content ca) \<and> leaf R K root ih scope role label es p (content lc)
         \<and> derive_leaf_certificate_chain R K root scope role label names p = Some (Inr chain)
         \<and> chain_profile chain = p \<and> ca_cert_pem chain = cert_pem R ca \<and> ca_cert_der chain = cert_der R ca
         \<and> ca_fingerprint chain = fingerprint_sha256 K (cert_der R ca)
         \<and> cert_role (chain_leaf chain) = role \<and> cert_identity_hash (chain_leaf chain) = ih
         \<and> leaf_uri role ih label = Some (cert_uri_san (chain_leaf chain))
         \<and> cert_der_bytes (chain_leaf chain) = cert_der R lc \<and> cert_pem_text (chain_leaf chain) = cert_pem R lc
         \<and> cert_fingerprint (chain_leaf chain) = fingerprint_sha256 K (cert_der R lc)
         \<and> derive_ca_certificate_with_profile R K root scope p = Some (Inr own)
         \<and> cert_der_bytes own = ca_cert_der chain \<and> cert_pem_text own = ca_cert_pem chain)"
proof -
  have crates: "pki_crates R K content public_of"
    using assms(1,2) by (simp add: pki_crates_def)
  obtain ih where ih: "identity_hash K root = Some ih"
    using identity_crates.identity_hash_eq [OF assms(2)] by blast
  show ?thesis
    using ih pki_crates.chain_refused [OF crates, of scope label p]
      pki_crates.chain_issued [OF crates assms(3-5) _ ih, of scope label]
    by (intro exI [where x = ih] conjI ih) (simp split: option.split)
qed

theorem certificate_chain_issued_witness:
  "\<exists>chain. derive_server_certificate_chain lite_rcgen lite_crates (replicate 32 7) ''mesh'' ''forge'' [''a.b'']
     = Some (Inr chain) \<and> cert_role (chain_leaf chain) = Server"
proof -
  have years: "plain_years profile_default" by (simp add: plain_years_def profile_default_def)
  have labels: "valid_cert_label l" if "l \<in> {''mesh'', ''forge'', ''default'', ''0''}" for l
    using that by (auto simp: valid_cert_label_def label_chars_def trim_simps char_is_control_def)
  have none: "refusal [''mesh'', ''forge''] profile_default = None"
    by (simp add: refusal_def labels profile_default_def nested_windows_def)
  have "\<forall>n \<in> set [''a.b'']. is_ascii n" by (simp add: is_ascii_def)
  from certificate_chain_issued [OF lite_x509.x509_crate_axioms lite_identity.identity_crates_axioms years this,
      of Server "replicate 32 7" "''mesh''" "''forge''"]
  show ?thesis
    by (auto simp: none derive_server_certificate_chain_def derive_server_certificate_chain_with_profile_def)
qed

end
