(* ===== verification/NegativeVectors.thy ===== *)
theory NegativeVectors
  imports RepositorySigning
begin

text \<open>
  The generator of the negative conformance corpus,
  \<^verbatim>\<open>examples/generate_repository_signing_negative_vectors.rs\<close>: malformed and mutated bindings, each
  with the class of error that verification must answer, and the proof that it does.  \<^theory_text>\<open>Generators\<close>
  prints and writes the document; a panic (\<^verbatim>\<open>expect\<close>, a slice out of range) is \<^term>\<open>None\<close>.
\<close>

subsection \<open>Claims and encoders of the generator\<close>

definition GEN_PURPOSE :: string where
  "GEN_PURPOSE = ''styrene-repository-signing-v1''"

definition GEN_SIGNING_DOMAIN :: "byte list" where
  "GEN_SIGNING_DOMAIN = str_bytes ''styrene-repository-signer-binding-v1''"

record gen_claims =
  gc_version :: "16 word"
  gc_identity_id :: "byte list"
  gc_identity_public_key :: "byte list"
  gc_repository_public_key :: "byte list"
  gc_epoch :: "32 word"
  gc_purpose :: string
  gc_suite :: "8 word"

definition unwrap_or :: "'a \<Rightarrow> 'a option \<Rightarrow> 'a" where
  "unwrap_or d o1 = (case o1 of Some a \<Rightarrow> a | None \<Rightarrow> d)"

definition encode_claim_parts ::
  "cbor \<Rightarrow> gen_claims \<Rightarrow> byte list option \<Rightarrow> byte list option \<Rightarrow> byte list option \<Rightarrow> byte list option" where
  "encode_claim_parts C claims i ik rk = encode_seq
     [enc_map C 7,
      enc_u8 C 0, enc_u16 C (gc_version claims),
      enc_u8 C 1, enc_bytes C (unwrap_or (gc_identity_id claims) i),
      enc_u8 C 2, enc_bytes C (unwrap_or (gc_identity_public_key claims) ik),
      enc_u8 C 3, enc_bytes C (unwrap_or (gc_repository_public_key claims) rk),
      enc_u8 C 4, enc_u32 C (gc_epoch claims),
      enc_u8 C 5, enc_str C (gc_purpose claims),
      enc_u8 C 6, enc_u8 C (gc_suite claims)]"

definition encode_claims :: "cbor \<Rightarrow> gen_claims \<Rightarrow> byte list option" where
  "encode_claims C claims = encode_claim_parts C claims None None None"

definition reordered_claims :: "cbor \<Rightarrow> gen_claims \<Rightarrow> byte list option" where
  "reordered_claims C claims = encode_seq
     [enc_map C 7,
      enc_u8 C 1, enc_bytes C (gc_identity_id claims),
      enc_u8 C 0, enc_u16 C (gc_version claims),
      enc_u8 C 2, enc_bytes C (gc_identity_public_key claims),
      enc_u8 C 3, enc_bytes C (gc_repository_public_key claims),
      enc_u8 C 4, enc_u32 C (gc_epoch claims),
      enc_u8 C 5, enc_str C (gc_purpose claims),
      enc_u8 C 6, enc_u8 C (gc_suite claims)]"

definition gen_signing_frame :: "byte list \<Rightarrow> byte list" where
  "gen_signing_frame protected =
     u16_be (of_nat (length GEN_SIGNING_DOMAIN)) @ GEN_SIGNING_DOMAIN @ u16_be 1
       @ u32_be (of_nat (length protected)) @ protected"

definition outer_with_keys :: "cbor \<Rightarrow> 8 word \<Rightarrow> 8 word \<Rightarrow> byte list \<Rightarrow> byte list \<Rightarrow> byte list option" where
  "outer_with_keys C first_key second_key protected signature = encode_seq
     [enc_map C 2, enc_u8 C first_key, enc_bytes C protected, enc_u8 C second_key, enc_bytes C signature]"

definition gen_encode_outer :: "cbor \<Rightarrow> byte list \<Rightarrow> byte list \<Rightarrow> byte list option" where
  "gen_encode_outer C protected signature = outer_with_keys C 0 1 protected signature"

definition signed_outer :: "crates \<Rightarrow> cbor \<Rightarrow> byte list \<Rightarrow> byte list \<Rightarrow> byte list option" where
  "signed_outer K C identity_key protected =
     gen_encode_outer C protected (ed_sign K identity_key (gen_signing_frame protected))"

subsection \<open>The vectors\<close>

text \<open>The arguments of one call of \<^verbatim>\<open>add\<close>.\<close>

record negative_case =
  nc_name :: string
  nc_category :: string
  nc_protected :: "byte list option"
  nc_input :: "byte list"
  nc_class :: string

definition vector_case ::
  "string \<Rightarrow> string \<Rightarrow> byte list option \<Rightarrow> string \<Rightarrow> byte list \<Rightarrow> negative_case" where
  "vector_case name category protected class input =
     \<lparr> nc_name = name, nc_category = category, nc_protected = protected, nc_input = input, nc_class = class \<rparr>"

definition add_signed_protected ::
  "crates \<Rightarrow> cbor \<Rightarrow> byte list \<Rightarrow> string \<Rightarrow> string \<Rightarrow> byte list \<Rightarrow> string \<Rightarrow> negative_case option" where
  "add_signed_protected K C identity_key name category protected class =
     map_option (vector_case name category (Some protected) class) (signed_outer K C identity_key protected)"

text \<open>A loop of calls: the first panic ends it.\<close>

fun all_cases :: "'a option list \<Rightarrow> 'a list option" where
  "all_cases [] = Some []"
| "all_cases (c # cs) = do { x \<leftarrow> c; xs \<leftarrow> all_cases cs; Some (x # xs) }"

definition field_mutation_cases ::
  "crates \<Rightarrow> cbor \<Rightarrow> byte list \<Rightarrow> gen_claims \<Rightarrow> byte list \<Rightarrow> negative_case list option" where
  "field_mutation_cases K C identity_key claims signature =
     (let resign = (\<lambda>name class m. do {
            protected \<leftarrow> encode_claims C m;
            input \<leftarrow> signed_outer K C identity_key protected;
            Some (vector_case name ''field-mutation'' (Some protected) class input) });
          keep = (\<lambda>name class m. do {
            protected \<leftarrow> encode_claims C m;
            input \<leftarrow> gen_encode_outer C protected signature;
            Some (vector_case name ''field-mutation'' (Some protected) class input) })
      in all_cases
        [resign ''field-version'' ''Semantic'' (claims \<lparr> gc_version := 2 \<rparr>),
         resign ''field-identity-id'' ''IdentityMismatch'' (claims \<lparr> gc_identity_id := replicate 16 0 \<rparr>),
         resign ''field-identity-key'' ''IdentityMismatch''
           (claims \<lparr> gc_identity_public_key := ed_verifying_key K (replicate 32 0x24) \<rparr>),
         keep ''field-repository-key'' ''Signature''
           (claims \<lparr> gc_repository_public_key := ed_verifying_key K (replicate 32 0x25) \<rparr>),
         keep ''field-epoch'' ''Signature'' (claims \<lparr> gc_epoch := 2 \<rparr>),
         resign ''field-purpose'' ''Semantic'' (claims \<lparr> gc_purpose := ''ordinary-git-signing'' \<rparr>),
         resign ''field-suite'' ''Semantic'' (claims \<lparr> gc_suite := 1 \<rparr>)])"

definition drop_last :: "'a list \<Rightarrow> 'a list option" where
  "drop_last xs = (if xs = [] then None else Some (take (length xs - 1) xs))"

definition from_second :: "'a list \<Rightarrow> 'a list option" where
  "from_second xs = (if xs = [] then None else Some (drop 1 xs))"

definition malformed_cases ::
  "crates \<Rightarrow> cbor \<Rightarrow> byte list \<Rightarrow> gen_claims \<Rightarrow> byte list \<Rightarrow> byte list \<Rightarrow> negative_case list option" where
  "malformed_cases K C identity_key claims canonical protected =
     (let short = (\<lambda>name encoded. do {
            parts \<leftarrow> encoded;
            input \<leftarrow> signed_outer K C identity_key parts;
            Some (vector_case name ''malformed-length'' (Some parts) ''Format'' input) })
      in all_cases
        [map_option (vector_case ''truncated-outer'' ''malformed'' (Some protected) ''Format'') (drop_last canonical),
         Some (vector_case ''wrong-outer-arity'' ''malformed'' None ''Format'' [0xa1, 0x00, 0x40]),
         Some (vector_case ''wrong-outer-type'' ''malformed'' None ''Format'' [0x82, 0x40, 0x40]),
         Some (vector_case ''trailing-byte'' ''malformed'' (Some protected) ''Format'' (canonical @ [0])),
         map_option (vector_case ''short-signature'' ''malformed-length'' (Some protected) ''Format'')
           (gen_encode_outer C protected (replicate 63 0)),
         map_option (vector_case ''long-signature'' ''malformed-length'' (Some protected) ''Format'')
           (gen_encode_outer C protected (replicate 65 0)),
         short ''short-identity-id'' (encode_claim_parts C claims (Some (replicate 15 0)) None None),
         short ''short-identity-key'' (encode_claim_parts C claims None (Some (replicate 31 0)) None),
         short ''short-repository-key'' (encode_claim_parts C claims None None (Some (replicate 31 0)))])"

definition outer_cases ::
  "cbor \<Rightarrow> byte list \<Rightarrow> byte list \<Rightarrow> byte list \<Rightarrow> negative_case list option" where
  "outer_cases C canonical protected signature = all_cases
     [map_option (vector_case ''unknown-outer-key'' ''map-keys'' (Some protected) ''Format'')
        (outer_with_keys C 2 1 protected signature),
      map_option (vector_case ''duplicate-outer-key'' ''map-keys'' (Some protected) ''Format'')
        (outer_with_keys C 0 0 protected signature),
      map_option (vector_case ''reordered-outer-keys'' ''map-keys'' (Some protected) ''Format'')
        (outer_with_keys C 1 0 protected signature),
      map_option (\<lambda>r. vector_case ''non-shortest-outer-map'' ''non-canonical-cbor'' (Some protected) ''Canonical''
        ([0xb8, 0x02] @ r)) (from_second canonical),
      map_option (\<lambda>r. vector_case ''indefinite-outer-map'' ''non-canonical-cbor'' (Some protected) ''Canonical''
        ([0xbf] @ r @ [0xff])) (from_second canonical),
      Some (vector_case ''tagged-outer'' ''non-canonical-cbor'' (Some protected) ''Format'' ([0xc0] @ canonical)),
      Some (vector_case ''floating-point-outer'' ''non-canonical-cbor'' None ''Format'' [0xf9, 0, 0])]"

definition protected_cases ::
  "crates \<Rightarrow> cbor \<Rightarrow> byte list \<Rightarrow> gen_claims \<Rightarrow> byte list \<Rightarrow> negative_case list option" where
  "protected_cases K C identity_key claims protected =
     (let signed = (\<lambda>name category class m. do {
            p \<leftarrow> m; add_signed_protected K C identity_key name category p class });
          set_key = (\<lambda>k. if length protected < 2 then None else Some (protected[length protected - 2 := k]))
      in all_cases
        [signed ''non-shortest-protected-map'' ''non-canonical-cbor'' ''Canonical''
           (map_option (\<lambda>r. [0xb8, 0x07] @ r) (from_second protected)),
         signed ''indefinite-protected-map'' ''non-canonical-cbor'' ''Canonical''
           (map_option (\<lambda>r. [0xbf] @ r @ [0xff]) (from_second protected)),
         signed ''indefinite-byte-string'' ''malformed'' ''Format'' (Some [0x5f, 0xff]),
         signed ''truncated-protected'' ''malformed'' ''Format'' (drop_last protected),
         signed ''wrong-protected-arity'' ''malformed'' ''Format'' (Some [0xa6]),
         signed ''wrong-protected-type'' ''malformed'' ''Format'' (Some [0x87]),
         signed ''tagged-protected'' ''malformed'' ''Format'' (Some ([0xc0] @ protected)),
         signed ''floating-point-protected'' ''malformed'' ''Format'' (Some [0xf9, 0, 0]),
         signed ''unknown-protected-key'' ''map-keys'' ''Format'' (set_key 7),
         signed ''duplicate-protected-key'' ''map-keys'' ''Format'' (set_key 5),
         signed ''reordered-protected-keys'' ''map-keys'' ''Format'' (reordered_claims C claims)])"

definition protected_size_case :: "cbor \<Rightarrow> byte list \<Rightarrow> nat \<Rightarrow> negative_case option" where
  "protected_size_case C signature n =
     (let boundary = (replicate n 0)[0 := 0xa0];
          class = (if 256 < n then ''TooLarge'' else ''Format'')
      in map_option (vector_case (''protected-size-'' @ show_nat n) ''protected-size-boundary'' (Some boundary) class)
           (gen_encode_outer C boundary signature))"

definition outer_size_case :: "nat \<Rightarrow> negative_case option" where
  "outer_size_case n =
     (let boundary = (replicate n 0)[0 := 0xa0];
          class = (if 384 < n then ''TooLarge'' else ''Format'')
      in Some (vector_case (''outer-size-'' @ show_nat n) ''outer-size-boundary'' None class boundary))"

text \<open>\<^verbatim>\<open>chunk_long_hex\<close> and the JSON entry of a call.\<close>

datatype hex_json = HexString string | HexArray "string list"

fun chunks :: "nat \<Rightarrow> nat \<Rightarrow> 'a list \<Rightarrow> 'a list list" where
  "chunks 0 n xs = []"
| "chunks (Suc k) n xs = (if xs = [] then [] else take n xs # chunks k n (drop n xs))"

definition chunk_long_hex :: "string \<Rightarrow> hex_json" where
  "chunk_long_hex hex = (if length hex \<le> 600 then HexString hex else HexArray (chunks (length hex) 64 hex))"

record vector_entry =
  v_name :: string
  v_category :: string
  v_protected_hex :: "string option"
  v_input_hex :: hex_json
  v_expected_error_class :: string

definition add_vector :: "crates \<Rightarrow> negative_case \<Rightarrow> vector_entry" where
  "add_vector K c =
     \<lparr> v_name = nc_name c, v_category = nc_category c,
       v_protected_hex = map_option (hex_encode K) (nc_protected c),
       v_input_hex = chunk_long_hex (hex_encode K (nc_input c)),
       v_expected_error_class = nc_class c \<rparr>"

definition generate_vectors :: "crates \<Rightarrow> cbor \<Rightarrow> (binding_error + vector_entry list) option" where
  "generate_vectors K C = do {
     let deriver = KeyDeriver_new K (replicate 32 0x42);
     identity_key \<leftarrow> signing_seed K deriver;
     let identity_public_key = ed_verifying_key K identity_key;
     let identity_id = IdentityId_from_public_key K identity_public_key;
     repository_key \<leftarrow> derive_repository_signing_key K deriver 1;
     let repository_public_key = ed_verifying_key K repository_key;
     (case binding_issue K C identity_key repository_public_key 1 of
        Inl e \<Rightarrow> Some (Inl e)
      | Inr binding \<Rightarrow>
          (case binding_canonical_bytes C binding of
             Inl e \<Rightarrow> Some (Inl e)
           | Inr canonical \<Rightarrow> do {
               let protected = rsb_protected binding;
               let signature = rsb_signature binding;
               let claims = \<lparr> gc_version = 1, gc_identity_id = as_bytes identity_id,
                 gc_identity_public_key = identity_public_key,
                 gc_repository_public_key = repository_public_key, gc_epoch = 1,
                 gc_purpose = GEN_PURPOSE, gc_suite = 0 \<rparr>;
               fields \<leftarrow> field_mutation_cases K C identity_key claims signature;
               malformed \<leftarrow> malformed_cases K C identity_key claims canonical protected;
               outers \<leftarrow> outer_cases C canonical protected signature;
               protecteds \<leftarrow> protected_cases K C identity_key claims protected;
               sizes \<leftarrow> all_cases (map (protected_size_case C signature) [255, 256, 257]);
               outer_sizes \<leftarrow> all_cases (map outer_size_case [383, 384, 385]);
               Some (Inr (map (add_vector K)
                 (fields @ malformed @ outers @ protecteds @ sizes @ outer_sizes)))
             }))
   }"

subsection \<open>Reading malformed input\<close>

text \<open>
  The decoders \<^verbatim>\<open>map\<close>, \<^verbatim>\<open>u8\<close> and \<^verbatim>\<open>bytes\<close> look at the head of the next item only (RFC 8949): its
  major type and argument decide, whether or not the argument is in its shortest form.
\<close>

locale cbor_reader = cbor_crate C for C :: cbor +
  assumes dec_map_head: "dec_map C bs =
      (case read_head bs of Some (m, n, r) \<Rightarrow> if m = 5 then Some (n, r) else None | None \<Rightarrow> None)"
    and dec_u8_head: "dec_u8 C bs = map_option (map_prod of_nat id) (read_uint (2 ^ 8) bs)"
    and dec_bytes_head: "dec_bytes C bs = read_blob 2 bs"

interpretation ref_reader: cbor_reader ref_cbor
  by unfold_locales (simp_all add: ref_cbor_def)

subsection \<open>The claims, written out\<close>

definition claims_body :: "gen_claims \<Rightarrow> byte list" where
  "claims_body c = concat
     [cbor_head 0 0, cbor_head 0 (unat (gc_version c)),
      cbor_head 0 1, cbor_head 2 (length (gc_identity_id c)) @ gc_identity_id c,
      cbor_head 0 2, cbor_head 2 (length (gc_identity_public_key c)) @ gc_identity_public_key c,
      cbor_head 0 3, cbor_head 2 (length (gc_repository_public_key c)) @ gc_repository_public_key c,
      cbor_head 0 4, cbor_head 0 (unat (gc_epoch c)),
      cbor_head 0 5, cbor_head 3 (length (gc_purpose c)) @ str_bytes (gc_purpose c),
      cbor_head 0 6, cbor_head 0 (unat (gc_suite c))]"

definition small_claims :: "gen_claims \<Rightarrow> bool" where
  "small_claims c \<longleftrightarrow> length (gc_identity_id c) < 2 ^ 64 \<and> length (gc_identity_public_key c) < 2 ^ 64
     \<and> length (gc_repository_public_key c) < 2 ^ 64 \<and> length (gc_purpose c) < 2 ^ 64 \<and> utf8_valid (gc_purpose c)"

text \<open>What decoding answers on claims.\<close>

definition claims_decoded :: "gen_claims \<Rightarrow> binding_error + binding_claims" where
  "claims_decoded c =
     (if gc_version c \<noteq> 1 then Inl RSB_Semantic
      else if length (gc_identity_id c) \<noteq> 16 then Inl RSB_Format
      else if length (gc_identity_public_key c) \<noteq> 32 then Inl RSB_Format
      else if length (gc_repository_public_key c) \<noteq> 32 then Inl RSB_Format
      else if gc_purpose c \<noteq> PURPOSE then Inl RSB_Semantic
      else if gc_suite c \<noteq> 0 then Inl RSB_Semantic
      else Inr \<lparr> cl_identity_id = IdentityId (gc_identity_id c),
        cl_identity_public_key = gc_identity_public_key c,
        cl_repository_public_key = gc_repository_public_key c, cl_epoch = gc_epoch c \<rparr>)"

context cbor_crate
begin

lemma encode_seq_Some: "encode_seq (map Some bs) = Some (concat bs)"
  by (rule encode_seq_all)

lemma encode_claim_parts_eq:
  assumes "small_claims (c \<lparr> gc_identity_id := unwrap_or (gc_identity_id c) i,
      gc_identity_public_key := unwrap_or (gc_identity_public_key c) ik,
      gc_repository_public_key := unwrap_or (gc_repository_public_key c) rk \<rparr>)"
  shows "encode_claim_parts C c i ik rk = Some (cbor_head 5 7 @ claims_body
    (c \<lparr> gc_identity_id := unwrap_or (gc_identity_id c) i,
      gc_identity_public_key := unwrap_or (gc_identity_public_key c) ik,
      gc_repository_public_key := unwrap_or (gc_repository_public_key c) rk \<rparr>))"
proof -
  let ?c = "c \<lparr> gc_identity_id := unwrap_or (gc_identity_id c) i,
      gc_identity_public_key := unwrap_or (gc_identity_public_key c) ik,
      gc_repository_public_key := unwrap_or (gc_repository_public_key c) rk \<rparr>"
  have "encode_claim_parts C c i ik rk = encode_seq (map Some
     [cbor_head 5 7, cbor_head 0 0, cbor_head 0 (unat (gc_version ?c)),
      cbor_head 0 1, cbor_head 2 (length (gc_identity_id ?c)) @ gc_identity_id ?c,
      cbor_head 0 2, cbor_head 2 (length (gc_identity_public_key ?c)) @ gc_identity_public_key ?c,
      cbor_head 0 3, cbor_head 2 (length (gc_repository_public_key ?c)) @ gc_repository_public_key ?c,
      cbor_head 0 4, cbor_head 0 (unat (gc_epoch ?c)),
      cbor_head 0 5, cbor_head 3 (length (gc_purpose ?c)) @ str_bytes (gc_purpose ?c),
      cbor_head 0 6, cbor_head 0 (unat (gc_suite ?c))])"
    using assms by (simp add: encode_claim_parts_def enc_eqs small_claims_def)
  then show ?thesis unfolding encode_seq_Some by (simp add: claims_body_def)
qed

lemma decode_protected_body:
  assumes "small_claims c" and "require_map C 7 bytes = Inr (claims_body c @ [])"
  shows "decode_protected C bytes = claims_decoded c"
  using assms read_u8 [of "unat (gc_suite c)" "[]"] unat_bounds(1) [of "gc_suite c"] unat_bounds(2) [of "gc_version c"]
  by (simp add: decode_protected_def claims_body_def claims_decoded_def read_key read_bytes read_u16
      read_str dec_u32_eq dec_u16_eq small_claims_def PROFILE_VERSION_def IdentityId_from_bytes_def
      try_into_array_def)

end

subsection \<open>Refusal\<close>

fun class_text :: "binding_error_class \<Rightarrow> string" where
  "class_text Class_Format = ''Format''"
| "class_text Class_TooLarge = ''TooLarge''"
| "class_text Class_Canonical = ''Canonical''"
| "class_text Class_Semantic = ''Semantic''"
| "class_text Class_IdentityMismatch = ''IdentityMismatch''"
| "class_text Class_Signature = ''Signature''"

definition refused :: "crates \<Rightarrow> cbor \<Rightarrow> negative_case \<Rightarrow> bool" where
  "refused K C c \<longleftrightarrow> (case verify_repository_signer_binding K C (nc_input c) of
     Inl e \<Rightarrow> class_text (binding_error_class_of e) = nc_class c | Inr _ \<Rightarrow> False)"

definition refused_case :: "crates \<Rightarrow> cbor \<Rightarrow> negative_case option \<Rightarrow> bool" where
  "refused_case K C co \<longleftrightarrow> (case co of Some c \<Rightarrow> refused K C c | None \<Rightarrow> False)"

lemma all_cases_refused:
  "list_all (refused_case K C) cs \<Longrightarrow> length cs = n \<Longrightarrow>
     \<exists>xs. all_cases cs = Some xs \<and> length xs = n \<and> (\<forall>x \<in> set xs. refused K C x)"
proof (induction cs arbitrary: n)
  case (Cons c cs)
  then obtain xs where "all_cases cs = Some xs" "length xs = length cs" "\<forall>x \<in> set xs. refused K C x" by auto
  with Cons.prems show ?case by (auto simp: refused_case_def split: option.splits)
qed simp

lemma refused_vector [simp]:
  "refused_case K C (Some (vector_case name category protected class input)) \<longleftrightarrow>
     (\<exists>e. verify_repository_signer_binding K C input = Inl e
        \<and> class_text (binding_error_class_of e) = class)"
  by (auto simp: refused_case_def refused_def vector_case_def split: sum.splits)

text \<open>A binding map with any two keys.\<close>

definition outer_bytes :: "8 word \<Rightarrow> 8 word \<Rightarrow> byte list \<Rightarrow> byte list \<Rightarrow> byte list" where
  "outer_bytes k1 k2 p s = concat
     [cbor_head 5 2, cbor_head 0 (unat k1), cbor_head 2 (length p) @ p,
      cbor_head 0 (unat k2), cbor_head 2 (length s) @ s]"

lemma outer_layout_bytes: "length s = 64 \<Longrightarrow> outer_layout p s = outer_bytes 0 1 p s"
  by (simp add: outer_layout_def outer_bytes_def)

lemma gen_frame:
  "length p \<le> 256 \<Longrightarrow> binding_frame p = Inr (gen_signing_frame p)"
  by (simp add: binding_frame_def gen_signing_frame_def u16_try_from_def u32_try_from_def
      SIGNING_DOMAIN_def GEN_SIGNING_DOMAIN_def PROFILE_VERSION_def)

context cbor_crate
begin

lemma outer_with_keys_eq:
  assumes "length p < 2 ^ 64" "length s < 2 ^ 64"
  shows "outer_with_keys C k1 k2 p s = Some (outer_bytes k1 k2 p s)"
proof -
  have "outer_with_keys C k1 k2 p s = encode_seq (map Some
      [cbor_head 5 2, cbor_head 0 (unat k1), cbor_head 2 (length p) @ p,
       cbor_head 0 (unat k2), cbor_head 2 (length s) @ s])"
    using assms by (simp add: outer_with_keys_def enc_eqs)
  then show ?thesis unfolding encode_seq_all outer_bytes_def .
qed

lemma read_key_word:
  "require_key C k (cbor_head 0 (unat x) @ r) = (if k = x then Inr r else Inl RSB_Format)"
  by (auto simp: require_key_def dec_u8_eq)

lemma decode_outer_map:
  assumes "length p < 2 ^ 64" "length s < 2 ^ 64"
    and "require_map C 2 bytes = Inr (drop 1 (outer_bytes k1 k2 p s) @ r)"
  shows "decode_outer C bytes =
    (if k1 = 0 \<and> k2 = 1 \<and> length s = 64 \<and> r = [] then Inr (p, s) else Inl RSB_Format)"
proof -
  have "require_key C 1 (cbor_head 0 (Suc 0) @ d) = Inr d" for d
    using read_key [of 1 1 d] by simp
  then show ?thesis
    using assms read_bytes [of s "length s" r] read_bytes [of s 64 "[]"]
    by (simp add: decode_outer_def outer_bytes_def read_key_word read_bytes cbor_head_def [of 5]
        try_into_array_def)
qed

lemma map_outer_bytes: "require_map C 2 (outer_bytes k1 k2 p s @ r) = Inr (drop 1 (outer_bytes k1 k2 p s) @ r)"
proof -
  have "outer_bytes k1 k2 p s @ r = cbor_head 5 2 @ drop 1 (outer_bytes k1 k2 p s) @ r"
    by (simp add: outer_bytes_def cbor_head_def [of 5])
  then show ?thesis by (rule ssubst) (rule read_map, simp)
qed

lemmas decode_outer_bytes = decode_outer_map [OF _ _ map_outer_bytes]

lemma length_outer_bytes:
  "length p \<le> 257 \<Longrightarrow> length s \<le> 65 \<Longrightarrow> length (outer_bytes k1 k2 p s @ r) \<le> 335 + length r"
  by (simp add: outer_bytes_def cbor_head_len_def)
    (use unat_bounds(1) [of k1] unat_bounds(1) [of k2] in auto)

lemma verify_outer_keys:
  assumes "length p \<le> 257" "length s \<le> 65" "\<not> (k1 = 0 \<and> k2 = 1 \<and> length s = 64 \<and> r = [])"
    and "length r \<le> 1"
  shows "verify_repository_signer_binding K C (outer_bytes k1 k2 p s @ r) = Inl RSB_Format"
  using assms decode_outer_bytes [of p s k1 k2 r] length_outer_bytes [of p s k1 k2 r]
  by (auto simp: verify_repository_signer_binding_def MAX_BINDING_BYTES_def)

lemma verify_protected_large:
  assumes "length p = 257" "length s = 64"
  shows "verify_repository_signer_binding K C (outer_bytes 0 1 p s) = Inl RSB_TooLarge"
  using assms decode_outer_bytes [of p s 0 1 "[]"] length_outer_bytes [of p s 0 1 "[]"]
  by (simp add: verify_repository_signer_binding_def MAX_BINDING_BYTES_def MAX_PROTECTED_BYTES_def)

lemma verify_protected_error:
  assumes "length p \<le> 256" "length s = 64" "decode_protected C p = Inl e"
  shows "verify_repository_signer_binding K C (outer_bytes 0 1 p s) = Inl e"
  using assms decode_outer_bytes [of p s 0 1 "[]"] length_outer_bytes [of p s 0 1 "[]"]
  by (simp add: verify_repository_signer_binding_def MAX_BINDING_BYTES_def MAX_PROTECTED_BYTES_def)

text \<open>Acceptable claims in an encoding that is not the canonical one.\<close>

lemma verify_noncanonical:
  assumes "length p \<le> 256" "length s = 64" "length bytes \<le> 384"
    and "decode_outer C bytes = Inr (p, s)"
    and "decode_protected C p = Inr \<lparr> cl_identity_id = i, cl_identity_public_key = ipk,
        cl_repository_public_key = rpk, cl_epoch = e \<rparr>"
    and "sized_claims i ipk rpk" "validate_public_key K ipk = Inr ()" "validate_public_key K rpk = Inr ()"
    and "matches_public_key K i ipk"
    and "p \<noteq> protected_layout i ipk rpk e \<or> bytes \<noteq> outer_layout p s"
  shows "verify_repository_signer_binding K C bytes = Inl RSB_Canonical"
  using assms encode_protected_layout [OF assms(6), of e] protected_bounds [OF assms(6), of e]
    encode_outer_layout [OF _ _ assms(2), of p]
  by (auto simp: verify_repository_signer_binding_def MAX_BINDING_BYTES_def MAX_PROTECTED_BYTES_def)

end

text \<open>The claims in a map of the shortest form.\<close>

definition claims_layout :: "gen_claims \<Rightarrow> byte list" where
  "claims_layout c = cbor_head 5 7 @ claims_body c"

definition fitting_claims :: "gen_claims \<Rightarrow> bool" where
  "fitting_claims c \<longleftrightarrow> length (gc_identity_id c) \<le> 16 \<and> length (gc_identity_public_key c) \<le> 32
     \<and> length (gc_repository_public_key c) \<le> 32 \<and> length (gc_purpose c) \<le> 29 \<and> utf8_valid (gc_purpose c)"

lemma small_fitting: "fitting_claims c \<Longrightarrow> small_claims c"
  by (simp add: fitting_claims_def small_claims_def)

lemma length_claims_layout: "fitting_claims c \<Longrightarrow> length (claims_layout c) \<le> 150"
  using unat_bounds(1) [of "gc_suite c"] unat_bounds(2) [of "gc_version c"] unat_bounds(3) [of "gc_epoch c"]
  by (simp add: claims_layout_def claims_body_def fitting_claims_def cbor_head_len_def)

lemma protected_layout_claims:
  assumes "length (gc_identity_id c) = 16" "length (gc_identity_public_key c) = 32"
    "length (gc_repository_public_key c) = 32" "gc_version c = 1" "gc_purpose c = PURPOSE" "gc_suite c = 0"
  shows "protected_layout (IdentityId (gc_identity_id c)) (gc_identity_public_key c)
      (gc_repository_public_key c) (gc_epoch c) = claims_layout c"
  using assms by (simp add: protected_layout_def claims_layout_def claims_body_def length_PURPOSE)

context cbor_crate
begin

lemma encode_claims_eq: "small_claims c \<Longrightarrow> encode_claims C c = Some (claims_layout c)"
  using encode_claim_parts_eq [of c None None None]
  by (simp add: encode_claims_def claims_layout_def unwrap_or_def)

lemma decode_claims: "small_claims c \<Longrightarrow> decode_protected C (claims_layout c) = claims_decoded c"
  by (rule decode_protected_body) (simp_all add: claims_layout_def read_map)

lemma verify_claims_error:
  assumes "fitting_claims c" "length s = 64" "claims_decoded c = Inl e"
  shows "verify_repository_signer_binding K C (outer_bytes 0 1 (claims_layout c) s) = Inl e"
  using assms length_claims_layout [OF assms(1)] decode_claims [OF small_fitting [OF assms(1)]]
  by (intro verify_protected_error) simp_all

end

text \<open>Everything before the last two bytes of the claims, the key and value of the suite.\<close>

definition claims_front :: "gen_claims \<Rightarrow> byte list" where
  "claims_front c = concat
     [cbor_head 0 0, cbor_head 0 (unat (gc_version c)),
      cbor_head 0 1, cbor_head 2 (length (gc_identity_id c)) @ gc_identity_id c,
      cbor_head 0 2, cbor_head 2 (length (gc_identity_public_key c)) @ gc_identity_public_key c,
      cbor_head 0 3, cbor_head 2 (length (gc_repository_public_key c)) @ gc_repository_public_key c,
      cbor_head 0 4, cbor_head 0 (unat (gc_epoch c)),
      cbor_head 0 5, cbor_head 3 (length (gc_purpose c)) @ str_bytes (gc_purpose c)]"

definition standard_claims :: "gen_claims \<Rightarrow> bool" where
  "standard_claims c \<longleftrightarrow> length (gc_identity_id c) = 16 \<and> length (gc_identity_public_key c) = 32
     \<and> length (gc_repository_public_key c) = 32 \<and> gc_version c = 1 \<and> gc_purpose c = PURPOSE \<and> gc_suite c = 0"

lemma standard_fitting: "standard_claims c \<Longrightarrow> fitting_claims c"
  by (simp add: standard_claims_def fitting_claims_def length_PURPOSE utf8_PURPOSE)

lemma claims_layout_split: "standard_claims c \<Longrightarrow> claims_layout c = 0xa7 # claims_front c @ [6, 0]"
  by (simp add: claims_layout_def claims_body_def claims_front_def standard_claims_def cbor_head_def [of 5]
      cbor_head_def [of 0 6] cbor_head_def [of 0 0] del: concat.simps) simp

context cbor_crate
begin

lemma decode_front:
  assumes "standard_claims c" and "require_map C 7 bytes = Inr (claims_front c @ r)"
  shows "decode_protected C bytes =
     bind_res (require_key C 6 r) (\<lambda>d.
     bind_res (ok_or RSB_Format (dec_u8 C d)) (\<lambda>(flags, d).
     if flags \<noteq> 0 then Inl RSB_Semantic
     else if d \<noteq> [] then Inl RSB_Format
     else Inr \<lparr>cl_identity_id = IdentityId (gc_identity_id c),
       cl_identity_public_key = gc_identity_public_key c,
       cl_repository_public_key = gc_repository_public_key c, cl_epoch = gc_epoch c\<rparr>))"
proof -
  have "IdentityId_from_bytes = IdentityId" by (rule ext) (simp add: IdentityId_from_bytes_def)
  from assms show ?thesis
    unfolding decode_protected_def \<open>IdentityId_from_bytes = IdentityId\<close>
    by (simp add: claims_front_def standard_claims_def read_key read_bytes read_u16 read_str
        dec_u32_eq PROFILE_VERSION_def length_PURPOSE utf8_PURPOSE)
qed

lemma reordered_claims_eq:
  assumes "small_claims c"
  shows "\<exists>r. reordered_claims C c = Some (cbor_head 5 7 @ cbor_head 0 1 @ r)
     \<and> length (cbor_head 5 7 @ cbor_head 0 1 @ r) = length (claims_layout c)"
proof -
  let ?calls = "[cbor_head 5 7,
      cbor_head 0 1, cbor_head 2 (length (gc_identity_id c)) @ gc_identity_id c,
      cbor_head 0 0, cbor_head 0 (unat (gc_version c)),
      cbor_head 0 2, cbor_head 2 (length (gc_identity_public_key c)) @ gc_identity_public_key c,
      cbor_head 0 3, cbor_head 2 (length (gc_repository_public_key c)) @ gc_repository_public_key c,
      cbor_head 0 4, cbor_head 0 (unat (gc_epoch c)),
      cbor_head 0 5, cbor_head 3 (length (gc_purpose c)) @ str_bytes (gc_purpose c),
      cbor_head 0 6, cbor_head 0 (unat (gc_suite c))]"
  have "reordered_claims C c = encode_seq (map Some ?calls)"
    using assms by (simp add: reordered_claims_def enc_eqs small_claims_def)
  then have "reordered_claims C c = Some (concat ?calls)" unfolding encode_seq_all .
  moreover have "concat ?calls = cbor_head 5 7 @ cbor_head 0 1 @ concat (drop 2 ?calls)" by simp
  moreover have "length (concat ?calls) = length (claims_layout c)"
    by (simp add: claims_layout_def claims_body_def)
  ultimately show ?thesis by metis
qed

lemma decode_wrong_first_key: "decode_protected C (cbor_head 5 7 @ cbor_head 0 1 @ r) = Inl RSB_Format"
  using read_map [of 7 "cbor_head 0 1 @ r"] read_key [of 1 0 r]
  by (simp add: decode_protected_def)

end

context cbor_reader
begin

lemma require_map_head: "require_map C n bs =
    (case read_head bs of
       Some (m, a, r) \<Rightarrow> if m = 5 then (case a of Some k \<Rightarrow> if k = n then Inr r else Inl RSB_Format
           | None \<Rightarrow> Inl RSB_Canonical) else Inl RSB_Format
     | None \<Rightarrow> Inl RSB_Format)"
  by (auto simp: require_map_def dec_map_head split: option.splits)

lemma decode_truncated_outer:
  assumes "length p < 2 ^ 64" "length s = 64"
  shows "decode_outer C (butlast (outer_bytes 0 1 p s)) = Inl RSB_Format"
proof -
  have "s \<noteq> []" using assms(2) by auto
  moreover have "dec_bytes C (cbor_head 2 64 @ butlast s) = None"
    using assms(2) by (simp add: dec_bytes_head read_blob_def read_head_cbor_head)
  ultimately show ?thesis
    using assms by (simp add: decode_outer_def outer_bytes_def butlast_append read_map read_key
        read_bytes)
qed

end

subsection \<open>The corpus\<close>

definition corpus_root :: "byte list" where
  "corpus_root = replicate 32 0x42"

definition corpus_seed :: "crates \<Rightarrow> byte list" where
  "corpus_seed K = identity_seed K corpus_root"

definition corpus_repository_key :: "crates \<Rightarrow> byte list" where
  "corpus_repository_key K = ed_verifying_key K (path_key K corpus_root (request_path (RepositoryKey 1)))"

definition corpus_claims :: "crates \<Rightarrow> gen_claims" where
  "corpus_claims K =
     (let ipk = ed_verifying_key K (corpus_seed K) in
      \<lparr> gc_version = 1, gc_identity_id = as_bytes (IdentityId_from_public_key K ipk),
        gc_identity_public_key = ipk, gc_repository_public_key = corpus_repository_key K,
        gc_epoch = 1, gc_purpose = GEN_PURPOSE, gc_suite = 0 \<rparr>)"

definition corpus_signature :: "crates \<Rightarrow> byte list" where
  "corpus_signature K = ed_sign K (corpus_seed K) (gen_signing_frame (claims_layout (corpus_claims K)))"

text \<open>
  What the corpus takes from the hash and the signature scheme, at its fixed seeds: the identifier
  is not sixteen zero bytes nor that of the other test key, and the canonical signature is not
  valid for the two frames it was not made for.
\<close>

definition corpus_separates :: "crates \<Rightarrow> bool" where
  "corpus_separates K \<longleftrightarrow>
     (let c = corpus_claims K in
      gc_identity_id c \<noteq> replicate 16 0
      \<and> gc_identity_id c \<noteq> as_bytes (IdentityId_from_public_key K (ed_verifying_key K (replicate 32 0x24)))
      \<and> \<not> ed_verify_strict K (gc_identity_public_key c) (gen_signing_frame (claims_layout
            (c \<lparr> gc_repository_public_key := ed_verifying_key K (replicate 32 0x25) \<rparr>))) (corpus_signature K)
      \<and> \<not> ed_verify_strict K (gc_identity_public_key c) (gen_signing_frame (claims_layout
            (c \<lparr> gc_epoch := 2 \<rparr>))) (corpus_signature K))"

lemma GEN_PURPOSE_eq: "GEN_PURPOSE = PURPOSE"
  by (simp add: GEN_PURPOSE_def PURPOSE_def)

locale corpus_crates = binding_crates K C + cbor_reader C for K :: crates and C :: cbor
begin

lemma length_corpus_seed [simp]: "length (corpus_seed K) = 32"
  by (simp add: corpus_seed_def)

lemma length_corpus_signature [simp]: "length (corpus_signature K) = 64"
  by (simp add: corpus_signature_def)

lemma standard_corpus: "standard_claims (corpus_claims K)"
  by (simp add: standard_claims_def corpus_claims_def corpus_repository_key_def Let_def
      IdentityId_from_public_key_def GEN_PURPOSE_eq)

lemma signed_outer_eq:
  assumes "length p \<le> 257"
  shows "signed_outer K C (corpus_seed K) p =
    Some (outer_bytes 0 1 p (ed_sign K (corpus_seed K) (gen_signing_frame p)))"
  using assms by (simp add: signed_outer_def gen_encode_outer_def outer_with_keys_eq)

lemma verify_standard:
  assumes "standard_claims c" "length s = 64"
  shows "verify_repository_signer_binding K C (outer_bytes 0 1 (claims_layout c) s) =
    claims_verdict K (IdentityId (gc_identity_id c)) (gc_identity_public_key c)
      (gc_repository_public_key c) (gc_epoch c) s"
proof -
  have "sized_claims (IdentityId (gc_identity_id c)) (gc_identity_public_key c) (gc_repository_public_key c)"
    using assms(1) by (simp add: sized_claims_def standard_claims_def wf_identity_id_def)
  from verify_layout [OF cbor_crate_axioms ct_crate_axioms this assms(2), of "gc_epoch c"] show ?thesis
    using assms by (simp add: protected_layout_claims standard_claims_def outer_layout_bytes)
qed

lemma claims_frame:
  assumes "standard_claims c"
  shows "projr (binding_frame (protected_layout (IdentityId (gc_identity_id c)) (gc_identity_public_key c)
      (gc_repository_public_key c) (gc_epoch c))) = gen_signing_frame (claims_layout c)"
  using assms length_claims_layout [OF standard_fitting [OF assms]]
  by (simp add: protected_layout_claims standard_claims_def gen_frame)

text \<open>Claims that only fail on the identifier or the signature.\<close>

lemma verify_wrong_id:
  assumes "standard_claims c" "length s = 64"
    and "\<forall>k \<in> {gc_identity_public_key c, gc_repository_public_key c}. ed_parse_key K k \<and> \<not> ed_is_weak K k"
    and "IdentityId (gc_identity_id c) \<noteq> IdentityId_from_public_key K (gc_identity_public_key c)"
  shows "verify_repository_signer_binding K C (outer_bytes 0 1 (claims_layout c) s) = Inl RSB_IdentityMismatch"
  using assms by (simp add: verify_standard claims_verdict_def Let_def)

lemma verify_wrong_signature:
  assumes "standard_claims c" "length s = 64"
    and "\<forall>k \<in> {gc_identity_public_key c, gc_repository_public_key c}. ed_parse_key K k \<and> \<not> ed_is_weak K k"
    and "IdentityId (gc_identity_id c) = IdentityId_from_public_key K (gc_identity_public_key c)"
    and "\<not> ed_verify_strict K (gc_identity_public_key c) (gen_signing_frame (claims_layout c)) s"
  shows "verify_repository_signer_binding K C (outer_bytes 0 1 (claims_layout c) s) = Inl RSB_Signature"
  using assms claims_frame [OF assms(1)] by (simp add: verify_standard claims_verdict_def Let_def)

lemma corpus_binding:
  "binding_issue K C (corpus_seed K) (corpus_repository_key K) 1
     = Inr \<lparr> rsb_protected = claims_layout (corpus_claims K), rsb_signature = corpus_signature K \<rparr>"
proof -
  let ?c = "corpus_claims K"
  have id: "IdentityId_from_public_key K (ed_verifying_key K (corpus_seed K)) = IdentityId (gc_identity_id ?c)"
    by (simp add: corpus_claims_def Let_def)
  have keys: "gc_identity_public_key ?c = ed_verifying_key K (corpus_seed K)"
    "gc_repository_public_key ?c = corpus_repository_key K" "gc_epoch ?c = 1"
    by (simp_all add: corpus_claims_def Let_def)
  have rpk: "length (corpus_repository_key K) = 32" "ed_parse_key K (corpus_repository_key K)"
    "\<not> ed_is_weak K (corpus_repository_key K)"
    by (simp_all add: corpus_repository_key_def)
  show ?thesis
    using rpk claims_frame [OF standard_corpus] standard_corpus
      protected_layout_claims [of ?c]
    by (simp add: issue_eq Let_def id keys corpus_signature_def standard_claims_def)
qed

lemma resign_refused:
  assumes "fitting_claims m"
    and "\<And>s. length s = 64 \<Longrightarrow> verify_repository_signer_binding K C (outer_bytes 0 1 (claims_layout m) s) = Inl e"
    and "class_text (binding_error_class_of e) = class"
  shows "refused_case K C (do {
     protected \<leftarrow> encode_claims C m;
     input \<leftarrow> signed_outer K C (corpus_seed K) protected;
     Some (vector_case name category (Some protected) class input) })"
  using assms length_claims_layout [OF assms(1)]
  by (simp add: encode_claims_eq small_fitting signed_outer_eq)

lemma keep_refused:
  assumes "fitting_claims m" "length s = 64"
    and "verify_repository_signer_binding K C (outer_bytes 0 1 (claims_layout m) s) = Inl e"
    and "class_text (binding_error_class_of e) = class"
  shows "refused_case K C (do {
     protected \<leftarrow> encode_claims C m;
     input \<leftarrow> gen_encode_outer C protected s;
     Some (vector_case name category (Some protected) class input) })"
  using assms length_claims_layout [OF assms(1)]
  by (simp add: encode_claims_eq small_fitting gen_encode_outer_def outer_with_keys_eq)

lemma corpus_fields:
  "gc_version (corpus_claims K) = 1" "length (gc_identity_id (corpus_claims K)) = 16"
  "gc_identity_public_key (corpus_claims K) = ed_verifying_key K (corpus_seed K)"
  "gc_repository_public_key (corpus_claims K) = corpus_repository_key K"
  "gc_epoch (corpus_claims K) = 1" "gc_purpose (corpus_claims K) = PURPOSE" "gc_suite (corpus_claims K) = 0"
  "IdentityId_from_public_key K (ed_verifying_key K (corpus_seed K)) = IdentityId (gc_identity_id (corpus_claims K))"
  "length (corpus_repository_key K) = 32" "ed_parse_key K (corpus_repository_key K)"
  "\<not> ed_is_weak K (corpus_repository_key K)"
  by (simp_all add: corpus_claims_def Let_def GEN_PURPOSE_eq IdentityId_from_public_key_def corpus_repository_key_def)

lemma IdentityId_eq: "IdentityId b = i \<longleftrightarrow> b = as_bytes i"
  by (cases i) simp

lemma field_mutations_refused:
  assumes "corpus_separates K"
  shows "\<exists>xs. field_mutation_cases K C (corpus_seed K) (corpus_claims K) (corpus_signature K) = Some xs
     \<and> length xs = 7 \<and> (\<forall>x \<in> set xs. refused K C x)"
proof -
  let ?c = "corpus_claims K"
  note fields = corpus_fields utf8_PURPOSE length_PURPOSE
  have purpose: "utf8_valid ''ordinary-git-signing''" "''ordinary-git-signing'' \<noteq> PURPOSE"
    by code_simp+
  have mutate: "fitting_claims (?c \<lparr> gc_version := 2 \<rparr>)" "fitting_claims (?c \<lparr> gc_suite := 1 \<rparr>)"
    "fitting_claims (?c \<lparr> gc_purpose := ''ordinary-git-signing'' \<rparr>)"
    using purpose by (simp_all add: fitting_claims_def fields)
  have standard: "standard_claims (?c \<lparr> gc_identity_id := replicate 16 0 \<rparr>)"
    "standard_claims (?c \<lparr> gc_identity_public_key := ed_verifying_key K (replicate 32 0x24) \<rparr>)"
    "standard_claims (?c \<lparr> gc_repository_public_key := ed_verifying_key K (replicate 32 0x25) \<rparr>)"
    "standard_claims (?c \<lparr> gc_epoch := 2 \<rparr>)"
    by (simp_all add: standard_claims_def fields)
  have semantic: "verify_repository_signer_binding K C (outer_bytes 0 1 (claims_layout m) s) = Inl RSB_Semantic"
    if "length s = 64" "m \<in> {?c \<lparr> gc_version := 2 \<rparr>, ?c \<lparr> gc_suite := 1 \<rparr>, ?c \<lparr> gc_purpose := ''ordinary-git-signing'' \<rparr>}"
    for m s
    using that mutate purpose by (auto intro!: verify_claims_error simp: claims_decoded_def fields)
  have mismatch: "verify_repository_signer_binding K C (outer_bytes 0 1 (claims_layout m) s) = Inl RSB_IdentityMismatch"
    if "length s = 64" "m \<in> {?c \<lparr> gc_identity_id := replicate 16 0 \<rparr>,
        ?c \<lparr> gc_identity_public_key := ed_verifying_key K (replicate 32 0x24) \<rparr>}" for m s
    using that assms standard
    by (auto intro!: verify_wrong_id simp: fields corpus_separates_def Let_def IdentityId_eq)
  have signature: "verify_repository_signer_binding K C (outer_bytes 0 1 (claims_layout m) (corpus_signature K)) = Inl RSB_Signature"
    if "m \<in> {?c \<lparr> gc_repository_public_key := ed_verifying_key K (replicate 32 0x25) \<rparr>, ?c \<lparr> gc_epoch := 2 \<rparr>}" for m
    using that assms standard
    by (auto intro!: verify_wrong_signature simp: fields corpus_separates_def Let_def)
  show ?thesis
    unfolding field_mutation_cases_def Let_def
    by (rule all_cases_refused, unfold list.pred_inject)
      ((intro conjI TrueI resign_refused [OF mutate(1) semantic] resign_refused [OF mutate(2) semantic]
        resign_refused [OF mutate(3) semantic]
        resign_refused [OF standard_fitting [OF standard(1)] mismatch]
        resign_refused [OF standard_fitting [OF standard(2)] mismatch]
        keep_refused [OF standard_fitting [OF standard(3)] _ signature]
        keep_refused [OF standard_fitting [OF standard(4)] _ signature]; simp)+, simp)
qed

lemma verify_bad_map:
  assumes "length bs \<le> 384" "require_map C 2 bs = Inl e"
  shows "verify_repository_signer_binding K C bs = Inl e"
  using assms by (simp add: verify_repository_signer_binding_def MAX_BINDING_BYTES_def decode_outer_def)

lemma corpus_length: "length (claims_layout (corpus_claims K)) \<le> 150"
  by (rule length_claims_layout [OF standard_fitting [OF standard_corpus]])

lemma short_claims_refused:
  assumes "i \<noteq> None \<or> ik \<noteq> None \<or> rk \<noteq> None"
    and "i \<in> {None, Some (replicate 15 0)}" "ik \<in> {None, Some (replicate 31 0)}"
      "rk \<in> {None, Some (replicate 31 0)}"
  shows "refused_case K C (do {
     parts \<leftarrow> encode_claim_parts C (corpus_claims K) i ik rk;
     input \<leftarrow> signed_outer K C (corpus_seed K) parts;
     Some (vector_case name category (Some parts) ''Format'' input) })"
proof -
  let ?c = "corpus_claims K"
  let ?m = "?c \<lparr> gc_identity_id := unwrap_or (gc_identity_id ?c) i,
      gc_identity_public_key := unwrap_or (gc_identity_public_key ?c) ik,
      gc_repository_public_key := unwrap_or (gc_repository_public_key ?c) rk \<rparr>"
  have fit: "fitting_claims ?m" and bad: "claims_decoded ?m = Inl RSB_Format"
    using assms by (auto simp: fitting_claims_def claims_decoded_def corpus_fields utf8_PURPOSE
        length_PURPOSE unwrap_or_def)
  have "encode_claim_parts C ?c i ik rk = Some (claims_layout ?m)"
    using encode_claim_parts_eq [OF small_fitting [OF fit]] by (simp add: claims_layout_def)
  with verify_claims_error [OF fit _ bad] length_claims_layout [OF fit] show ?thesis
    by (simp add: signed_outer_eq)
qed

lemma malformed_refused:
  defines "p \<equiv> claims_layout (corpus_claims K)"
  shows "\<exists>xs. malformed_cases K C (corpus_seed K) (corpus_claims K)
       (outer_bytes 0 1 p (corpus_signature K)) p = Some xs
     \<and> length xs = 9 \<and> (\<forall>x \<in> set xs. refused K C x)"
proof -
  let ?s = "corpus_signature K" and ?v = "verify_repository_signer_binding K C"
  have len: "length p \<le> 150" unfolding p_def by (rule corpus_length)
  have bytes: "length (outer_bytes 0 1 p ?s) \<le> 335"
    using length_outer_bytes [of p ?s 0 1 "[]"] len by simp
  have trunc: "drop_last (outer_bytes 0 1 p ?s) = Some (butlast (outer_bytes 0 1 p ?s))"
    by (simp add: drop_last_def butlast_conv_take) (simp add: outer_bytes_def cbor_head_def [of 5])
  have "?v (butlast (outer_bytes 0 1 p ?s)) = Inl RSB_Format"
    using decode_truncated_outer [of p ?s] len bytes
    by (simp add: verify_repository_signer_binding_def MAX_BINDING_BYTES_def)
  moreover have "?v [0xa1, 0x00, 0x40] = Inl RSB_Format" "?v [0x82, 0x40, 0x40] = Inl RSB_Format"
    by (simp_all add: verify_bad_map require_map_head read_head_def)
  moreover have "?v (outer_bytes 0 1 p ?s @ [0]) = Inl RSB_Format"
    using len by (simp add: verify_outer_keys)
  moreover have "?v (outer_bytes 0 1 p (replicate n 0)) = Inl RSB_Format" if "n \<in> {63, 65}" for n
    using len that verify_outer_keys [of p "replicate n 0" 0 1 "[]"] by auto
  ultimately show ?thesis
    using len unfolding malformed_cases_def Let_def
    by (intro all_cases_refused, unfold list.pred_inject)
      ((intro conjI TrueI short_claims_refused; simp add: trunc gen_encode_outer_def outer_with_keys_eq)+, simp)
qed

text \<open>The canonical claims pass every check before the comparison with the canonical encoding.\<close>

lemma noncanonical_refused:
  assumes "length p \<le> 256" "length s = 64" "length bytes \<le> 384"
    and "decode_outer C bytes = Inr (p, s)"
    and "decode_protected C p = decode_protected C (claims_layout (corpus_claims K))"
    and "p \<noteq> claims_layout (corpus_claims K) \<or> bytes \<noteq> outer_bytes 0 1 p s"
  shows "verify_repository_signer_binding K C bytes = Inl RSB_Canonical"
proof -
  let ?c = "corpus_claims K"
  have "decode_protected C p = Inr \<lparr> cl_identity_id = IdentityId (gc_identity_id ?c),
      cl_identity_public_key = gc_identity_public_key ?c,
      cl_repository_public_key = gc_repository_public_key ?c, cl_epoch = gc_epoch ?c \<rparr>"
    using assms(5) decode_claims [OF small_fitting [OF standard_fitting [OF standard_corpus]]]
    by (simp add: claims_decoded_def corpus_fields)
  from verify_noncanonical [OF assms(1-4) this] show ?thesis
    using assms(2,6) protected_layout_claims [of ?c]
    by (simp add: corpus_fields sized_claims_def wf_identity_id_def validate_public_key_cases
        matches_public_key_iff ct_crate_axioms outer_layout_bytes)
qed

lemma outer_refused:
  defines "p \<equiv> claims_layout (corpus_claims K)"
  shows "\<exists>xs. outer_cases C (outer_bytes 0 1 p (corpus_signature K)) p (corpus_signature K) = Some xs
     \<and> length xs = 7 \<and> (\<forall>x \<in> set xs. refused K C x)"
proof -
  let ?s = "corpus_signature K" and ?v = "verify_repository_signer_binding K C"
  let ?o = "outer_bytes 0 1 p ?s"
  have len: "length p \<le> 150" unfolding p_def by (rule corpus_length)
  have bytes: "length ?o \<le> 335"
    using length_outer_bytes [of p ?s 0 1 "[]"] len by simp
  have head: "hd ?o = 0xa2" "?o \<noteq> []" by (simp_all add: outer_bytes_def cbor_head_def [of 5])
  have second: "from_second ?o = Some (drop 1 ?o)" using head(2) by (simp add: from_second_def)
  have "?v (outer_bytes k1 k2 p ?s) = Inl RSB_Format" if "k1 \<noteq> 0 \<or> k2 \<noteq> 1" for k1 k2
    using len that verify_outer_keys [of p ?s k1 k2 "[]"] by auto
  moreover have "?v ([0xb8, 0x02] @ drop 1 ?o) = Inl RSB_Canonical"
  proof (rule noncanonical_refused)
    have "require_map C 2 ([0xb8, 0x02] @ drop 1 ?o) = Inr (drop 1 ?o @ [])"
      by (simp add: require_map_head read_head_def read_arg_def be_val_def)
    from decode_outer_map [OF _ _ this] show "decode_outer C ([0xb8, 0x02] @ drop 1 ?o) = Inr (p, ?s)"
      using len by simp
    show "p \<noteq> claims_layout (corpus_claims K) \<or> [0xb8, 0x02] @ drop 1 ?o \<noteq> ?o"
      using head(1) by (auto dest: arg_cong [of _ _ hd])
  qed (use len bytes in \<open>simp_all add: p_def\<close>)
  moreover have "?v ([0xbf] @ drop 1 ?o @ [0xff]) = Inl RSB_Canonical"
    "?v ([0xc0] @ ?o) = Inl RSB_Format" "?v [0xf9, 0, 0] = Inl RSB_Format"
    using bytes by (simp_all add: verify_bad_map require_map_head read_head_def read_arg_def)
  ultimately show ?thesis
    using len unfolding outer_cases_def Let_def
    by (intro all_cases_refused, unfold list.pred_inject)
      ((intro conjI TrueI; simp add: second outer_with_keys_eq)+, simp)
qed

lemma signed_protected_refused:
  assumes "length q \<le> 256"
    and "\<And>s. length s = 64 \<Longrightarrow> verify_repository_signer_binding K C (outer_bytes 0 1 q s) = Inl e"
    and "class_text (binding_error_class_of e) = class"
  shows "refused_case K C (add_signed_protected K C (corpus_seed K) name category q class)"
  using assms by (simp add: add_signed_protected_def signed_outer_eq)

lemma bad_protected_refused:
  assumes "length q \<le> 256" "decode_protected C q = Inl e" "class_text (binding_error_class_of e) = class"
  shows "refused_case K C (add_signed_protected K C (corpus_seed K) name category q class)"
  using assms by (intro signed_protected_refused) (simp_all add: verify_protected_error)

lemma decode_bad_map: "require_map C 7 q = Inl e \<Longrightarrow> decode_protected C q = Inl e"
  by (simp add: decode_protected_def)

lemma read_map7: "require_map C 7 (0xa7 # r) = Inr r"
  by (simp add: require_map_head read_head_def)

text \<open>The suite's key and value, cut or replaced.\<close>

lemma decode_suite:
  assumes "standard_claims c"
  shows "decode_protected C (0xa7 # claims_front c @ [6]) = Inl RSB_Format"
    and "k \<noteq> 6 \<Longrightarrow> unat k < 24 \<Longrightarrow> decode_protected C (0xa7 # claims_front c @ [k, 0]) = Inl RSB_Format"
proof -
  have key: "require_key C 6 (k # r) = (if k = 6 then Inr r else Inl RSB_Format)" if "unat k < 24" for k r
    using that by (simp add: require_key_def dec_u8_head read_uint_def read_head_def)
  show "decode_protected C (0xa7 # claims_front c @ [6]) = Inl RSB_Format"
    using decode_front [OF assms, of _ "[6]"] key [of 6]
    by (simp add: read_map7 dec_u8_head read_uint_def read_head_def)
  show "decode_protected C (0xa7 # claims_front c @ [k, 0]) = Inl RSB_Format" if "k \<noteq> 6" "unat k < 24"
    using decode_front [OF assms, of _ "[k, 0]"] key [of k "[0]"] that by (simp add: read_map7)
qed

lemma nonshortest_protected:
  assumes "length s = 64"
  shows "verify_repository_signer_binding K C
    (outer_bytes 0 1 ([0xb8, 0x07] @ drop 1 (claims_layout (corpus_claims K))) s) = Inl RSB_Canonical"
proof (rule noncanonical_refused)
  let ?c = "corpus_claims K" and ?q = "[0xb8, 0x07] @ drop 1 (claims_layout (corpus_claims K))"
  note split = claims_layout_split [OF standard_corpus]
  show len: "length ?q \<le> 256" using corpus_length by simp
  show "decode_outer C (outer_bytes 0 1 ?q s) = Inr (?q, s)"
    using decode_outer_bytes [of ?q s 0 1 "[]"] len assms by simp
  show "length (outer_bytes 0 1 ?q s) \<le> 384"
    using length_outer_bytes [of ?q s 0 1 "[]"] len assms by simp
  have "require_map C 7 ?q = Inr (claims_front ?c @ [6, 0])"
    by (simp add: require_map_head read_head_def read_arg_def be_val_def split)
  then show "decode_protected C ?q = decode_protected C (claims_layout ?c)"
    using decode_front [OF standard_corpus, of _ "[6, 0]"] by (simp add: read_map7 split)
  show "?q \<noteq> claims_layout ?c \<or> outer_bytes 0 1 ?q s \<noteq> outer_bytes 0 1 ?q s"
    by (simp add: split)
qed (rule assms)

lemma protected_refused:
  defines "p \<equiv> claims_layout (corpus_claims K)"
  shows "\<exists>xs. protected_cases K C (corpus_seed K) (corpus_claims K) p = Some xs
     \<and> length xs = 11 \<and> (\<forall>x \<in> set xs. refused K C x)"
proof -
  let ?f = "claims_front (corpus_claims K)"
  have split: "p = 0xa7 # ?f @ [6, 0]"
    unfolding p_def by (rule claims_layout_split [OF standard_corpus])
  have len: "length p \<le> 150" unfolding p_def by (rule corpus_length)
  obtain q where q: "reordered_claims C (corpus_claims K) = Some q" "length q = length p"
    "decode_protected C q = Inl RSB_Format"
    using reordered_claims_eq [OF small_fitting [OF standard_fitting [OF standard_corpus]]]
      decode_wrong_first_key by (auto simp: p_def)
  have parts: "from_second p = Some (?f @ [6, 0])" "drop_last p = Some (0xa7 # ?f @ [6])"
    "p[length p - 2 := k] = 0xa7 # ?f @ [k, 0]" "\<not> length p < 2" for k
    by (simp_all add: split from_second_def drop_last_def list_update_append)
  have bad: "decode_protected C [0x5f, 0xff] = Inl RSB_Format" "decode_protected C [0xa6] = Inl RSB_Format"
    "decode_protected C [0x87] = Inl RSB_Format" "decode_protected C (0xc0 # p) = Inl RSB_Format"
    "decode_protected C [0xf9, 0, 0] = Inl RSB_Format"
    by (simp_all add: decode_bad_map require_map_head read_head_def read_arg_def)
  have format: "refused_case K C (add_signed_protected K C (corpus_seed K) name category q ''Format'')"
    if "length q \<le> 151" "decode_protected C q = Inl RSB_Format" for name category q
    by (rule bad_protected_refused [where e = RSB_Format]) (use that in simp_all)
  have canonical: "refused_case K C (add_signed_protected K C (corpus_seed K) name category q ''Canonical'')"
    if "q \<in> {0xb8 # 0x07 # ?f @ [6, 0], 0xbf # ?f @ [6, 0, 0xff]}" for name category q
    using that len nonshortest_protected claims_layout_split [OF standard_corpus]
      verify_protected_error [OF _ _ decode_bad_map [of "0xbf # ?f @ [6, 0, 0xff]" RSB_Canonical]]
    by (intro signed_protected_refused [where e = RSB_Canonical])
      (auto simp: split require_map_head read_head_def)
  have front: "length ?f + 3 \<le> 150" using len by (simp add: split)
  show ?thesis
    unfolding protected_cases_def Let_def
    by (rule all_cases_refused, unfold list.pred_inject, intro conjI TrueI)
      (use len front in \<open>simp_all add: parts q bad format canonical decode_suite [OF standard_corpus]\<close>)
qed

lemma zeros_boundary: "0 < n \<Longrightarrow> (replicate n 0)[0 := 0xa0] = 0xa0 # replicate (n - 1) (0 :: byte)"
  by (cases n) simp_all

lemma sizes_refused:
  assumes "length s = 64"
  shows "\<exists>xs. all_cases (map (protected_size_case C s) [255, 256, 257]) = Some xs
     \<and> length xs = 3 \<and> (\<forall>x \<in> set xs. refused K C x)"
proof -
  have "refused_case K C (protected_size_case C s n)" if "n \<in> {255, 256, 257}" for n
  proof -
    let ?q = "0xa0 # replicate (n - 1) (0 :: byte)"
    have head: "decode_protected C ?q = Inl RSB_Format"
      by (rule decode_bad_map) (simp add: require_map_head read_head_def)
    have "verify_repository_signer_binding K C (outer_bytes 0 1 ?q s)
        = Inl (if 256 < n then RSB_TooLarge else RSB_Format)"
      using that assms verify_protected_large [of ?q s] verify_protected_error [OF _ _ head, of s] by auto
    moreover have "gen_encode_outer C ?q s = Some (outer_bytes 0 1 ?q s)"
      unfolding gen_encode_outer_def by (rule outer_with_keys_eq) (use that assms in auto)
    moreover have "(replicate n 0)[0 := 0xa0] = ?q" using that by (intro zeros_boundary) auto
    ultimately show ?thesis by (simp add: protected_size_case_def Let_def)
  qed
  then show ?thesis by (intro all_cases_refused) simp_all
qed

lemma outer_sizes_refused:
  "\<exists>xs. all_cases (map outer_size_case [383, 384, 385]) = Some xs
     \<and> length xs = 3 \<and> (\<forall>x \<in> set xs. refused K C x)"
proof -
  have "refused_case K C (outer_size_case n)" if "n \<in> {383, 384, 385}" for n
  proof -
    have "verify_repository_signer_binding K C (0xa0 # replicate (n - 1) 0)
        = Inl (if 384 < n then RSB_TooLarge else RSB_Format)"
      using that verify_bad_map [of "0xa0 # replicate (n - 1) 0" RSB_Format]
      by (auto simp: require_map_head read_head_def)
        (simp add: verify_repository_signer_binding_def MAX_BINDING_BYTES_def)
    moreover have "(replicate n 0)[0 := 0xa0] = 0xa0 # replicate (n - 1) (0 :: byte)"
      using that by (intro zeros_boundary) auto
    ultimately show ?thesis by (simp add: outer_size_case_def Let_def)
  qed
  then show ?thesis by (intro all_cases_refused) simp_all
qed

lemma corpus_length_min: "127 \<le> length (claims_layout (corpus_claims K))"
  and corpus_length_max: "length (claims_layout (corpus_claims K)) \<le> 131"
proof -
  let ?c = "corpus_claims K"
  have "sized_claims (IdentityId (gc_identity_id ?c)) (gc_identity_public_key ?c) (gc_repository_public_key ?c)"
    by (simp add: sized_claims_def wf_identity_id_def corpus_fields)
  from protected_bounds [OF this, of "gc_epoch ?c"]
  show "127 \<le> length (claims_layout ?c)" and "length (claims_layout ?c) \<le> 131"
    using standard_corpus by (simp_all add: protected_layout_claims standard_claims_def)
qed

lemma generate_vectors_eq:
  assumes "corpus_separates K"
  shows "\<exists>cs. generate_vectors K C = Some (Inr (map (add_vector K) cs)) \<and> length cs = 40
     \<and> (\<forall>c \<in> set cs. refused K C c)"
proof -
  let ?c = "corpus_claims K" and ?s = "corpus_signature K"
  let ?p = "claims_layout ?c" and ?o = "outer_bytes 0 1 (claims_layout ?c) ?s"
  have seed: "signing_seed K (KeyDeriver_new K (replicate 32 0x42)) = Some (corpus_seed K)"
    by (simp add: signing_seed_def derive_path corpus_seed_def identity_seed_def corpus_root_def)
  have repo: "derive_repository_signing_key K (KeyDeriver_new K (replicate 32 0x42)) 1
      = Some (path_key K corpus_root (request_path (RepositoryKey 1)))"
    by (simp add: derive_repository_path corpus_root_def del: request_path.simps)
  have bytes: "binding_canonical_bytes C \<lparr> rsb_protected = ?p, rsb_signature = ?s \<rparr> = Inr ?o"
    using encode_outer_layout [of ?p ?s] corpus_length_min corpus_length_max
    by (simp add: binding_canonical_bytes_def outer_layout_bytes)
  obtain a where a: "field_mutation_cases K C (corpus_seed K) ?c ?s = Some a" "length a = 7" "\<forall>x \<in> set a. refused K C x"
    using field_mutations_refused [OF assms] by blast
  obtain b where b: "malformed_cases K C (corpus_seed K) ?c ?o ?p = Some b" "length b = 9" "\<forall>x \<in> set b. refused K C x"
    using malformed_refused by blast
  obtain d where d: "outer_cases C ?o ?p ?s = Some d" "length d = 7" "\<forall>x \<in> set d. refused K C x"
    using outer_refused by blast
  obtain e where e: "protected_cases K C (corpus_seed K) ?c ?p = Some e" "length e = 11" "\<forall>x \<in> set e. refused K C x"
    using protected_refused by blast
  obtain f where f: "all_cases (map (protected_size_case C ?s) [255, 256, 257]) = Some f" "length f = 3" "\<forall>x \<in> set f. refused K C x"
    using sizes_refused [OF length_corpus_signature] by blast
  obtain g where g: "all_cases (map outer_size_case [383, 384, 385]) = Some g" "length g = 3" "\<forall>x \<in> set g. refused K C x"
    using outer_sizes_refused by blast
  have claims: "\<lparr> gc_version = 1, gc_identity_id = as_bytes (IdentityId_from_public_key K (ed_verifying_key K (corpus_seed K))),
      gc_identity_public_key = ed_verifying_key K (corpus_seed K),
      gc_repository_public_key = corpus_repository_key K, gc_epoch = 1, gc_purpose = GEN_PURPOSE, gc_suite = 0 \<rparr> = ?c"
    by (simp add: corpus_claims_def Let_def)
  have "generate_vectors K C = Some (Inr (map (add_vector K) (a @ b @ d @ e @ f @ g)))"
    unfolding generate_vectors_def seed repo Let_def bind.simps corpus_repository_key_def [symmetric]
      corpus_binding sum.case bytes repository_signer_binding.select_convs claims a(1) b(1) d(1) e(1) f(1) g(1)
    by (rule refl)
  with a b d e f g show ?thesis by (intro exI [of _ "a @ b @ d @ e @ f @ g"]) auto
qed

end

interpretation ref_corpus: corpus_crates ref_crates ref_cbor
  by unfold_locales

subsection \<open>Hexadecimal text in chunks\<close>

fun hex_text :: "hex_json \<Rightarrow> string" where
  "hex_text (HexString s) = s"
| "hex_text (HexArray ss) = concat ss"

lemma concat_chunks: "length xs \<le> k \<Longrightarrow> 0 < n \<Longrightarrow> concat (chunks k n xs) = xs"
  by (induction k n xs rule: chunks.induct) auto

lemma hex_text_chunks: "hex_text (chunk_long_hex h) = h"
  by (simp add: chunk_long_hex_def concat_chunks)

subsection \<open>Properties\<close>

text \<open>
  Crates for the witness: a hash that keeps the first 32 bytes, a constant key derivation and a
  signature that carries the key and the sum of the message's bytes.
\<close>

definition sum_sign :: "byte list \<Rightarrow> byte list \<Rightarrow> byte list" where
  "sum_sign seed m = ed_key_ref seed @ be_bytes 32 (sum_list (map unat m))"

definition sum_verify :: "byte list \<Rightarrow> byte list \<Rightarrow> byte list \<Rightarrow> bool" where
  "sum_verify pk m s \<longleftrightarrow> s = pk @ be_bytes 32 (sum_list (map unat m))"

definition sum_crates :: crates where
  "sum_crates = ref_crates \<lparr>
     sha256_digest := (\<lambda>m. take 32 (m @ replicate 32 0)),
     hkdf_extract := (\<lambda>salt ikm. replicate 32 0),
     hkdf_expand := (\<lambda>prk info n. if 255 * 32 < n then None else Some (replicate n 0)),
     ed_sign := sum_sign, ed_verify := sum_verify, ed_verify_strict := sum_verify \<rparr>"

interpretation sum_corpus: corpus_crates sum_crates ref_cbor
  by unfold_locales
    (auto simp: sum_crates_def ref_crates_def ed_key_ref_def sum_sign_def sum_verify_def hex_roundtrip_ref
      length_hex_encode_ref hex_encode_ref_lower hex_decode_ref_lower length_hex_decode_ref)

definition byte_sum :: "byte list \<Rightarrow> nat" where
  "byte_sum m = sum_list (map unat m)"

lemma byte_sum_simps [simp]:
  "byte_sum [] = 0" "byte_sum (b # m) = unat b + byte_sum m" "byte_sum (m @ n) = byte_sum m + byte_sum n"
  "byte_sum (replicate k b) = k * unat b"
  by (simp_all add: byte_sum_def sum_list_replicate)

lemma byte_sum_bound: "byte_sum m \<le> 255 * length m"
proof (induction m)
  case (Cons b m)
  then show ?case using unat_bounds(1) [of b] by simp
qed simp

lemma sum_verify_iff:
  assumes "length m < 2 ^ 64" "length n < 2 ^ 64"
  shows "sum_verify (ed_key_ref seed) m (sum_sign seed n) \<longleftrightarrow> byte_sum m = byte_sum n"
proof -
  have "byte_sum m < 256 ^ 32" "byte_sum n < 256 ^ 32"
    using byte_sum_bound [of m] byte_sum_bound [of n] assms by simp_all
  then show ?thesis by (auto simp: be_bytes_inject sum_verify_def sum_sign_def simp flip: byte_sum_def)
qed

lemma sum_separates: "corpus_separates sum_crates"
proof -
  have key: "path_key sum_crates root p = replicate 32 0" for root p
    by (simp add: path_key_def expand_call_def sum_crates_def split: prod.splits)
  have claims: "corpus_claims sum_crates = \<lparr> gc_version = 1, gc_identity_id = replicate 16 1,
      gc_identity_public_key = replicate 32 1, gc_repository_public_key = replicate 32 1,
      gc_epoch = 1, gc_purpose = GEN_PURPOSE, gc_suite = 0 \<rparr>"
    by (simp add: corpus_claims_def Let_def corpus_seed_def identity_seed_def corpus_repository_key_def key
        IdentityId_from_public_key_def) (simp add: sum_crates_def ref_crates_def ed_key_ref_def)
  have layout: "byte_sum (claims_layout (corpus_claims sum_crates \<lparr> gc_epoch := 2 \<rparr>))
      = byte_sum (claims_layout (corpus_claims sum_crates)) + 1"
    "byte_sum (claims_layout (corpus_claims sum_crates \<lparr> gc_repository_public_key := replicate 32 0x25 \<rparr>))
      = byte_sum (claims_layout (corpus_claims sum_crates)) + 32 * 0x24"
    by (simp_all add: claims claims_layout_def claims_body_def cbor_head_def)
  have lengths: "length (claims_layout (corpus_claims sum_crates \<lparr> gc_epoch := 2 \<rparr>)) = length (claims_layout (corpus_claims sum_crates))"
    "length (claims_layout (corpus_claims sum_crates \<lparr> gc_repository_public_key := replicate 32 0x25 \<rparr>))
      = length (claims_layout (corpus_claims sum_crates))"
    "length (claims_layout (corpus_claims sum_crates)) < 1000"
    using sum_corpus.corpus_length_max
    by (simp_all add: claims claims_layout_def claims_body_def cbor_head_len_def)
  have frame: "byte_sum (gen_signing_frame p) = byte_sum (gen_signing_frame q) \<longleftrightarrow> byte_sum p = byte_sum q"
    if "length p = length q" for p q
    using that by (simp add: gen_signing_frame_def)
  have verify: "ed_verify_strict sum_crates (replicate 32 1) (gen_signing_frame p)
      (ed_sign sum_crates (replicate 32 0) (gen_signing_frame q)) \<longleftrightarrow> byte_sum p = byte_sum q"
    if "length p = length q" "length q < 1000" for p q
  proof -
    have "length (gen_signing_frame r) < 2 ^ 64" if "length r < 1000" for r
      using that by (simp add: gen_signing_frame_def GEN_SIGNING_DOMAIN_def)
    with that have "length (gen_signing_frame p) < 2 ^ 64" "length (gen_signing_frame q) < 2 ^ 64" by simp_all
    from sum_verify_iff [OF this, of "replicate 32 0"] show ?thesis
      by (simp add: frame [OF that(1)] sum_crates_def ed_key_ref_def)
  qed
  have keys: "corpus_seed sum_crates = replicate 32 0" "ed_verifying_key sum_crates (replicate 32 b) =
      (if b = 0 then replicate 32 1 else replicate 32 b)"
    "gc_identity_public_key (corpus_claims sum_crates) = replicate 32 1"
    "gc_identity_id (corpus_claims sum_crates) = replicate 16 1" for b
    by (simp_all add: corpus_seed_def identity_seed_def key claims)
      (simp add: sum_crates_def ref_crates_def ed_key_ref_def)
  have other: "as_bytes (IdentityId_from_public_key sum_crates (replicate 32 0x24)) = replicate 16 0x24"
    by (simp add: IdentityId_from_public_key_def sum_crates_def)
  show ?thesis
    using lengths
    by (simp add: corpus_separates_def Let_def corpus_signature_def keys other verify layout)
qed

text \<open>
  The negative corpus is right: for crates that separate its fixed keys, the generator answers
  40 vectors, and verification refuses the bytes of every one of them, decoded from the hexadecimal
  text of its entry, with exactly the class of error the entry names.
\<close>

theorem negative_corpus_is_refused:
  assumes "corpus_crates K C" and "corpus_separates K"
  shows "\<exists>vs. generate_vectors K C = Some (Inr vs) \<and> length vs = 40
     \<and> (\<forall>v \<in> set vs. \<exists>input e. hex_decode K (hex_text (v_input_hex v)) = Inr input
          \<and> verify_repository_signer_binding K C input = Inl e
          \<and> class_text (binding_error_class_of e) = v_expected_error_class v)"
proof -
  have hex: "hex_crate K"
    using assms(1) by (simp add: corpus_crates_def binding_crates_def identity_crates_def)
  have "\<exists>input e. hex_decode K (hex_text (v_input_hex (add_vector K c))) = Inr input
      \<and> verify_repository_signer_binding K C input = Inl e
      \<and> class_text (binding_error_class_of e) = v_expected_error_class (add_vector K c)"
    if "refused K C c" for c
    using that hex_crate.hex_decode_encode [OF hex]
    by (auto simp: add_vector_def hex_text_chunks refused_def split: sum.splits)
  with corpus_crates.generate_vectors_eq [OF assms] show ?thesis by fastforce
qed

theorem negative_corpus_is_refused_witness:
  "\<exists>vs. generate_vectors sum_crates ref_cbor = Some (Inr vs) \<and> length vs = 40"
  using negative_corpus_is_refused [OF sum_corpus.corpus_crates_axioms sum_separates] by blast

end
