(* ===== verification/PublishedVectors.thy ===== *)
theory PublishedVectors
  imports NegativeVectors Discover
begin

text \<open>
  The generators of the published test vectors, \<^verbatim>\<open>examples/generate_derivation_vectors.rs\<close> and
  \<^verbatim>\<open>examples/generate_repository_signing_vectors.rs\<close>, and the guards of all three generators on the
  path they write to.  A JSON object built by insertion is a map; \<^theory_text>\<open>Generators\<close> prints and writes
  the documents.
\<close>

subsection \<open>Derivation vectors\<close>

record flat_entry =
  fe_info :: string
  fe_seed_hex :: string
  fe_pubkey :: "(string \<times> string) option"  \<comment> \<open>\<^verbatim>\<open>pubkey_hex\<close> and \<^verbatim>\<open>curve\<close>\<close>

text \<open>The derived \<^verbatim>\<open>Debug\<close> prints the name of the variant.\<close>

fun purpose_debug :: "key_purpose \<Rightarrow> string" where
  "purpose_debug Signing = ''Signing''"
| "purpose_debug RnsEncryption = ''RnsEncryption''"
| "purpose_debug Age = ''Age''"
| "purpose_debug WireGuard = ''WireGuard''"
| "purpose_debug SshHost = ''SshHost''"
| "purpose_debug Yggdrasil = ''Yggdrasil''"
| "purpose_debug I2pSigning = ''I2pSigning''"
| "purpose_debug I2pEncryption = ''I2pEncryption''"
| "purpose_debug Tor = ''Tor''"
| "purpose_debug RnsSigning = ''RnsSigning''"
| "purpose_debug GitSigning = ''GitSigning''"

definition flat_pubkey :: "crates \<Rightarrow> key_purpose \<Rightarrow> byte list \<Rightarrow> (string \<times> string) option" where
  "flat_pubkey K purpose seed =
     (if purpose \<in> {Signing, SshHost, Yggdrasil, I2pSigning, Tor}
      then Some (hex_encode K (ed25519_verifying_key K seed), ''ed25519'')
      else if purpose \<in> {RnsEncryption, Age, I2pEncryption, WireGuard}
      then Some (hex_encode K (x25519_public_key K seed), ''x25519'')
      else None)"

definition flat_entry_of :: "crates \<Rightarrow> key_deriver \<Rightarrow> key_purpose \<Rightarrow> flat_entry option" where
  "flat_entry_of K d purpose = do {
     seed \<leftarrow> derive K d purpose;
     Some \<lparr> fe_info = map (\<lambda>b. char_of (unat b)) (purpose_info purpose),
       fe_seed_hex = hex_encode K seed, fe_pubkey = flat_pubkey K purpose seed \<rparr>
   }"

fun insert_flat ::
  "crates \<Rightarrow> key_deriver \<Rightarrow> key_purpose list \<Rightarrow> (string \<rightharpoonup> flat_entry) \<Rightarrow> (string \<rightharpoonup> flat_entry) option" where
  "insert_flat K d [] flat = Some flat"
| "insert_flat K d (p # ps) flat = do {
     entry \<leftarrow> flat_entry_of K d p;
     insert_flat K d ps (flat(purpose_debug p \<mapsto> entry))
   }"

fun insert_labels ::
  "crates \<Rightarrow> key_deriver \<Rightarrow> string list \<Rightarrow> (string \<rightharpoonup> string) \<Rightarrow> (derive_error + (string \<rightharpoonup> string)) option" where
  "insert_labels K d [] m = Some (Inr m)"
| "insert_labels K d (label # labels) m =
     try_opt (derive_ssh_user_key K d label) (\<lambda>user.
     try_opt (derive_agent_key K d label) (\<lambda>agent.
     insert_labels K d labels
       (m(''ssh_user/'' @ label \<mapsto> hex_encode K user, ''agent/'' @ label \<mapsto> hex_encode K agent))))"

fun insert_services ::
  "crates \<Rightarrow> key_deriver \<Rightarrow> string list \<Rightarrow> (string \<rightharpoonup> string) \<Rightarrow> (derive_error + (string \<rightharpoonup> string)) option" where
  "insert_services K d [] m = Some (Inr m)"
| "insert_services K d (sv # svs) m =
     try_opt (derive_i2p_service K d sv) (\<lambda>(signing, encryption).
     try_opt (derive_onion_service K d sv) (\<lambda>onion.
     insert_services K d svs
       (m(''i2p/'' @ sv @ ''/signing'' \<mapsto> hex_encode K signing,
          ''i2p/'' @ sv @ ''/encryption'' \<mapsto> hex_encode K encryption,
          ''onion/'' @ sv \<mapsto> hex_encode K onion))))"

record derivation_document =
  dv_root_secret_hex :: string
  dv_hkdf_salt :: string
  dv_flat_purposes :: "string \<rightharpoonup> flat_entry"
  dv_identity_hash :: string
  dv_parameterized :: "string \<rightharpoonup> string"

definition vector_labels :: "string list" where
  "vector_labels = [''github'', ''work'', ''forge'', ''wiki'', ''omegon-primary'', ''auspex-deploy'']"

definition vector_services :: "string list" where
  "vector_services = [''forge'', ''wiki'', ''chat'']"

definition derivation_vectors :: "crates \<Rightarrow> (derive_error + derivation_document) option" where
  "derivation_vectors K = do {
     let root = replicate 32 0x42;
     let deriver = KeyDeriver_new K root;
     flat \<leftarrow> insert_flat K deriver purpose_all Map.empty;
     signing \<leftarrow> signing_seed K deriver;
     let identity_digest = sha256_digest K (ed25519_verifying_key K signing);
     try_opt (insert_labels K deriver vector_labels Map.empty) (\<lambda>labels.
     try_opt (insert_services K deriver vector_services labels) (\<lambda>parameterized.
     Some (Inr \<lparr> dv_root_secret_hex = hex_encode K root, dv_hkdf_salt = ''styrene-identity-v1'',
       dv_flat_purposes = flat, dv_identity_hash = hex_encode K (take 16 identity_digest),
       dv_parameterized = parameterized \<rparr>)))
   }"

subsection \<open>Binding vectors\<close>

record binding_vector =
  bv_name :: string
  bv_repository_key_source :: string
  bv_root_secret_hex :: string
  bv_identity_seed_hex :: string
  bv_identity_public_key_hex :: string
  bv_identity_id_hex :: string
  bv_repository_seed_hex :: "string option"
  bv_repository_public_key_hex :: string
  bv_epoch :: "32 word"
  bv_protected_hex :: string
  bv_signing_frame_hex :: string
  bv_signature_hex :: string
  bv_binding_hex :: string
  bv_binding_digest_hex :: string

definition binding_vector_of ::
  "crates \<Rightarrow> cbor \<Rightarrow> string \<Rightarrow> string \<Rightarrow> 32 word \<Rightarrow> byte list option \<Rightarrow> byte list
     \<Rightarrow> repository_signer_binding \<Rightarrow> byte list \<Rightarrow> byte list \<Rightarrow> byte list \<Rightarrow> identity_id
     \<Rightarrow> binding_error + binding_vector" where
  "binding_vector_of K C name source epoch repository_seed repository_public_key binding
       root id_seed identity_public_key identity_id =
     bind_res (binding_signing_frame binding) (\<lambda>frame.
     bind_res (binding_canonical_bytes C binding) (\<lambda>bytes.
     bind_res (binding_digest K C binding) (\<lambda>digest.
     Inr \<lparr> bv_name = name, bv_repository_key_source = source,
       bv_root_secret_hex = hex_encode K root,
       bv_identity_seed_hex = hex_encode K id_seed,
       bv_identity_public_key_hex = hex_encode K identity_public_key,
       bv_identity_id_hex = IdentityId_to_string K identity_id,
       bv_repository_seed_hex = map_option (hex_encode K) repository_seed,
       bv_repository_public_key_hex = hex_encode K repository_public_key,
       bv_epoch = epoch,
       bv_protected_hex = hex_encode K (rsb_protected binding),
       bv_signing_frame_hex = hex_encode K frame,
       bv_signature_hex = hex_encode K (rsb_signature binding),
       bv_binding_hex = hex_encode K bytes,
       bv_binding_digest_hex = hex_encode K digest \<rparr>)))"

fun derived_vectors ::
  "crates \<Rightarrow> cbor \<Rightarrow> byte list \<Rightarrow> byte list \<Rightarrow> 32 word list \<Rightarrow> (binding_error + binding_vector list) option" where
  "derived_vectors K C root id_seed [] = Some (Inr [])"
| "derived_vectors K C root id_seed (epoch # epochs) = do {
     repository_seed \<leftarrow> derive_repository_signing_key K (KeyDeriver_new K root) epoch;
     let repository_public_key = ed_verifying_key K repository_seed;
     let identity_public_key = ed_verifying_key K id_seed;
     (case bind_res (binding_issue K C id_seed repository_public_key epoch) (\<lambda>binding.
        binding_vector_of K C (''derived-epoch-'' @ show_nat (unat epoch)) ''derived'' epoch
          (Some repository_seed) repository_public_key binding root id_seed identity_public_key
          (IdentityId_from_public_key K identity_public_key)) of
        Inl e \<Rightarrow> Some (Inl e)
      | Inr v \<Rightarrow> map_option (map_sum id ((#) v)) (derived_vectors K C root id_seed epochs))
   }"

definition binding_vectors :: "crates \<Rightarrow> cbor \<Rightarrow> (binding_error + binding_vector list) option" where
  "binding_vectors K C = do {
     let root = replicate 32 0x42;
     id_seed \<leftarrow> signing_seed K (KeyDeriver_new K root);
     let identity_public_key = ed_verifying_key K id_seed;
     vectors \<leftarrow> derived_vectors K C root id_seed [0, 1, 0xFFFFFFFF];
     Some (bind_res vectors (\<lambda>vectors.
       let external_seed = replicate 32 0xa5;
           external_public_key = ed_verifying_key K external_seed
       in bind_res (binding_issue K C id_seed external_public_key 7) (\<lambda>external.
          bind_res (binding_vector_of K C ''external-repository-key'' ''externally-supplied'' 7
            (Some external_seed) external_public_key external root id_seed identity_public_key
            (IdentityId_from_public_key K identity_public_key)) (\<lambda>v.
          Inr (vectors @ [v])))))
   }"


subsection \<open>Where the documents go\<close>

text \<open>
  Each generator reads its arguments with its own usage text.  \<^verbatim>\<open>Path::starts_with\<close> compares whole
  components; \<^verbatim>\<open>Path::join\<close> with an absolute path is that path.
\<close>

definition output_path :: "string \<Rightarrow> string list \<Rightarrow> string + path" where
  "output_path usage args =
     (case drop 1 args of
        [] \<Rightarrow> Inl usage
      | flag # rest \<Rightarrow>
          if flag \<noteq> ''--output'' then Inl usage
          else (case rest of
              [] \<Rightarrow> Inl ''missing candidate output path''
            | [output] \<Rightarrow> Inr (path_of output)
            | _ \<Rightarrow> Inl ''unexpected generator argument''))"

definition derivation_output_path :: "string list \<Rightarrow> string + path" where
  "derivation_output_path args =
     output_path ''usage: generate_derivation_vectors --output <candidate-file>'' args"

definition binding_output_path :: "string list \<Rightarrow> string + path" where
  "binding_output_path args =
     output_path ''usage: generate_repository_signing_vectors --output <candidate-file>'' args"

definition negative_output_path :: "string list \<Rightarrow> string + path" where
  "negative_output_path args =
     output_path ''usage: generate_repository_signing_negative_vectors --output <candidate-file>'' args"

definition path_starts_with :: "path \<Rightarrow> path \<Rightarrow> bool" where
  "path_starts_with p base \<longleftrightarrow>
     absolute p = absolute base \<and> take (length (comps base)) (comps p) = comps base"

definition join_path :: "path \<Rightarrow> path \<Rightarrow> path" where
  "join_path base p =
     (if absolute p then p else base \<lparr> comps := comps base @ filter (\<lambda>c. c \<noteq> ''.'') (comps p) \<rparr>)"

definition refusal_text :: string where
  "refusal_text = ''generator refuses to write into the committed tests directory''"

text \<open>The check of the two positive generators.\<close>

definition derivation_guard :: "path \<Rightarrow> path \<Rightarrow> string + path" where
  "derivation_guard manifest_dir output =
     (let committed_tests = path_join manifest_dir ''tests'' in
      if path_starts_with output committed_tests then Inl refusal_text else Inr output)"

definition binding_guard :: "path \<Rightarrow> path \<Rightarrow> string + path" where
  "binding_guard manifest_dir output =
     (let committed_tests = path_join manifest_dir ''tests'' in
      if path_starts_with output committed_tests then Inl refusal_text else Inr output)"

text \<open>The operating system's answers that the negative generator asks for.\<close>

record directory_view =
  current_dir :: "string + path"
  canonicalize :: "path \<Rightarrow> string + path"
  is_symlink :: "path \<Rightarrow> bool"          \<comment> \<open>false when \<^verbatim>\<open>symlink_metadata\<close> fails\<close>

definition guarded_output_path :: "directory_view \<Rightarrow> path \<Rightarrow> path \<Rightarrow> string + path" where
  "guarded_output_path V manifest_dir output =
     bind_res (if absolute output then Inr output
       else bind_res (current_dir V) (\<lambda>d. Inr (join_path d output))) (\<lambda>abs_path.
     bind_res (ok_or ''output path must name a file'' (path_file_name abs_path)) (\<lambda>file_name.
     bind_res (ok_or ''output path must have a parent directory'' (path_parent abs_path)) (\<lambda>parent.
     bind_res (map_err (\<lambda>e. ''output parent must already exist so it can be checked safely: '' @ e)
       (canonicalize V parent)) (\<lambda>canonical_parent.
     let guarded_path = path_join canonical_parent file_name in
     bind_res (canonicalize V (path_join manifest_dir ''tests'')) (\<lambda>committed_tests.
     if path_starts_with guarded_path committed_tests then Inl refusal_text
     else if is_symlink V guarded_path
     then Inl ''generator refuses to write through a symbolic link''
     else Inr guarded_path)))))"

subsection \<open>The derivation document\<close>

text \<open>
  What a purpose's entry shows: its info text, its key and, for the keys of a curve, the public key
  and the name of the curve: signing keys are Ed25519, agreement keys X25519.  The deprecated names
  have no entry of their own.
\<close>

datatype curve = Ed25519 | X25519

fun purpose_curve :: "key_purpose \<Rightarrow> curve option" where
  "purpose_curve Signing = Some Ed25519"
| "purpose_curve SshHost = Some Ed25519"
| "purpose_curve Yggdrasil = Some Ed25519"
| "purpose_curve I2pSigning = Some Ed25519"
| "purpose_curve Tor = Some Ed25519"
| "purpose_curve RnsEncryption = Some X25519"
| "purpose_curve Age = Some X25519"
| "purpose_curve WireGuard = Some X25519"
| "purpose_curve I2pEncryption = Some X25519"
| "purpose_curve RnsSigning = None"
| "purpose_curve GitSigning = None"

definition expected_pubkey :: "crates \<Rightarrow> key_purpose \<Rightarrow> byte list \<Rightarrow> (string \<times> string) option" where
  "expected_pubkey K p seed =
     (case purpose_curve p of
        Some Ed25519 \<Rightarrow> Some (hex_encode K (ed_verifying_key K seed), ''ed25519'')
      | Some X25519 \<Rightarrow> Some (hex_encode K (x25519_public_key K seed), ''x25519'')
      | None \<Rightarrow> None)"

definition expected_entry :: "crates \<Rightarrow> byte list \<Rightarrow> key_purpose \<Rightarrow> flat_entry" where
  "expected_entry K root p =
     (let seed = path_key K root (request_path (PurposeKey p)) in
      \<lparr> fe_info = map (\<lambda>b. char_of (unat b)) (purpose_info p), fe_seed_hex = hex_encode K seed,
        fe_pubkey = expected_pubkey K p seed \<rparr>)"

lemma flat_pubkey_expected: "flat_pubkey K p seed = expected_pubkey K p seed"
  by (cases p) (simp_all add: flat_pubkey_def expected_pubkey_def ed25519_verifying_key_def)

definition key_hex :: "crates \<Rightarrow> byte list \<Rightarrow> key_request \<Rightarrow> string" where
  "key_hex K root r = hex_encode K (path_key K root (request_path r))"

context kdf_crate
begin

lemma insert_flat_eq:
  "insert_flat K (KeyDeriver_new K root) ps m =
     Some (m ++ map_of (rev (map (\<lambda>p. (purpose_debug p, expected_entry K root p)) ps)))"
  by (induction ps arbitrary: m)
    (simp_all add: flat_entry_of_def derive_path expected_entry_def flat_pubkey_expected Let_def map_add_def fun_eq_iff
      split: option.splits)

lemma insert_labels_eq:
  "list_all (\<lambda>l. l \<noteq> []) ls \<Longrightarrow> insert_labels K (KeyDeriver_new K root) ls m =
     Some (Inr (foldl (\<lambda>m l. m(''ssh_user/'' @ l \<mapsto> key_hex K root (SshUserKey l),
       ''agent/'' @ l \<mapsto> key_hex K root (AgentKey l))) m ls))"
  by (induction ls arbitrary: m)
    (simp_all add: derive_ssh_user_key_def derive_agent_key_def derive_parameterized_path key_hex_def)

lemma insert_services_eq:
  "list_all (\<lambda>l. l \<noteq> []) ls \<Longrightarrow> insert_services K (KeyDeriver_new K root) ls m =
     Some (Inr (foldl (\<lambda>m l. m(''i2p/'' @ l @ ''/signing'' \<mapsto> key_hex K root (I2pSigningKey l),
       ''i2p/'' @ l @ ''/encryption'' \<mapsto> key_hex K root (I2pEncryptionKey l),
       ''onion/'' @ l \<mapsto> key_hex K root (OnionKey l))) m ls))"
  by (induction ls arbitrary: m)
    (simp_all add: derive_i2p_service_def derive_onion_service_def derive_parameterized_path key_hex_def)

lemma derivation_vectors_eq:
  defines "root \<equiv> replicate 32 0x42"
  shows "derivation_vectors K = Some (Inr \<lparr> dv_root_secret_hex = hex_encode K root,
     dv_hkdf_salt = ''styrene-identity-v1'',
     dv_flat_purposes = map_of (rev (map (\<lambda>p. (purpose_debug p, expected_entry K root p)) purpose_all)),
     dv_identity_hash = the (identity_hash K root),
     dv_parameterized =
       foldl (\<lambda>m l. m(''i2p/'' @ l @ ''/signing'' \<mapsto> key_hex K root (I2pSigningKey l),
           ''i2p/'' @ l @ ''/encryption'' \<mapsto> key_hex K root (I2pEncryptionKey l),
           ''onion/'' @ l \<mapsto> key_hex K root (OnionKey l)))
         (foldl (\<lambda>m l. m(''ssh_user/'' @ l \<mapsto> key_hex K root (SshUserKey l),
             ''agent/'' @ l \<mapsto> key_hex K root (AgentKey l))) Map.empty vector_labels)
         vector_services \<rparr>)"
proof -
  have names: "list_all (\<lambda>l. l \<noteq> []) vector_labels" "list_all (\<lambda>l. l \<noteq> []) vector_services"
    by (simp_all add: vector_labels_def vector_services_def)
  have "identity_hash K root = Some (hex_encode K (take 16 (sha256_digest K
      (ed25519_verifying_key K (path_key K root (Flat (purpose_info Signing)))))))"
    by (simp add: identity_hash_def identity_pubkey_def derive_path IdentityId_to_string_def
        IdentityId_from_public_key_def del: purpose_info.simps)
  then show ?thesis
    by (simp add: derivation_vectors_def Let_def insert_flat_eq insert_labels_eq [OF names(1)]
        insert_services_eq [OF names(2)] signing_seed_def derive_path flip: root_def
        del: purpose_info.simps request_path.simps)
qed

end

subsection \<open>The binding document\<close>

text \<open>
  A published vector stands on its own: its bytes verify to the identity, keys, epoch and digest it
  shows, its signature is strictly valid for its frame, and its seed is the one of its key.
\<close>

definition vector_verifies :: "crates \<Rightarrow> cbor \<Rightarrow> binding_vector \<Rightarrow> bool" where
  "vector_verifies K C v \<longleftrightarrow>
     (\<exists>bytes w frame sig seed_hex seed.
        hex_decode K (bv_binding_hex v) = Inr bytes
      \<and> verify_repository_signer_binding K C bytes = Inr w
      \<and> bv_identity_id_hex v = IdentityId_to_string K (vb_identity_id w)
      \<and> bv_identity_public_key_hex v = hex_encode K (vb_identity_public_key w)
      \<and> bv_repository_public_key_hex v = hex_encode K (vb_repository_public_key w)
      \<and> bv_epoch v = vb_epoch w
      \<and> bv_binding_digest_hex v = hex_encode K (vb_digest w)
      \<and> hex_decode K (bv_signing_frame_hex v) = Inr frame
      \<and> hex_decode K (bv_signature_hex v) = Inr sig
      \<and> ed_verify_strict K (vb_identity_public_key w) frame sig
      \<and> bv_repository_seed_hex v = Some seed_hex
      \<and> hex_decode K seed_hex = Inr seed
      \<and> vb_repository_public_key w = ed_verifying_key K seed)"

context binding_crates
begin

lemma issue_vector:
  assumes "length seed = 32" "length repo = 32"
  shows "\<exists>b v. binding_issue K C seed (ed_verifying_key K repo) e = Inr b
     \<and> binding_vector_of K C name source e (Some repo) (ed_verifying_key K repo) b root seed
         (ed_verifying_key K seed) (IdentityId_from_public_key K (ed_verifying_key K seed)) = Inr v
     \<and> vector_verifies K C v \<and> bv_epoch v = e \<and> bv_root_secret_hex v = hex_encode K root"
proof -
  let ?rpk = "ed_verifying_key K repo" and ?ipk = "ed_verifying_key K seed"
  let ?p = "protected_layout (IdentityId_from_public_key K ?ipk) ?ipk ?rpk e"
  obtain b where b: "binding_issue K C seed ?rpk e = Inr b"
    using issue_eq [of seed ?rpk e] assms by (auto simp: Let_def)
  then have layout: "rsb_protected b = ?p" "rsb_signature b = ed_sign K seed (projr (binding_frame ?p))"
    using issue_eq [of seed ?rpk e] assms by (auto simp: Let_def)
  have "sized_claims (IdentityId_from_public_key K ?ipk) ?ipk ?rpk"
    using assms by (simp add: sized_claims_def)
  then obtain f where f: "binding_frame ?p = Inr f"
    using binding_frame_ok protected_bounds by blast
  obtain bytes where bytes: "binding_canonical_bytes C b = Inr bytes"
    "verify_repository_signer_binding K C bytes = Inr
       \<lparr>vb_identity_id = IdentityId_from_public_key K ?ipk, vb_identity_public_key = ?ipk,
        vb_repository_public_key = ?rpk, vb_epoch = e, vb_digest = projr (binding_digest K C b)\<rparr>"
    using issue_verifies [OF assms(1) _ b] assms by auto
  obtain d where digest: "binding_digest K C b = Inr d"
    using bytes(1) by (simp add: binding_digest_def)
  have frame: "binding_signing_frame b = Inr f" "ed_verify_strict K ?ipk f (rsb_signature b)"
    using assms f by (simp_all add: binding_signing_frame_def layout)
  show ?thesis
    using b bytes digest frame
    by (auto simp: binding_vector_of_def vector_verifies_def)
qed

lemma derived_vectors_ok:
  assumes "length seed = 32"
  shows "\<exists>vs. derived_vectors K C root seed epochs = Some (Inr vs) \<and> map bv_epoch vs = epochs
     \<and> (\<forall>v \<in> set vs. vector_verifies K C v \<and> bv_root_secret_hex v = hex_encode K root)"
proof (induction epochs)
  case (Cons e epochs)
  have "derive_repository_signing_key K (KeyDeriver_new K root) e
      = Some (path_key K root (request_path (RepositoryKey e)))"
    by (rule derive_repository_path)
  moreover obtain b v where "binding_issue K C seed (ed_verifying_key K (path_key K root (request_path (RepositoryKey e)))) e = Inr b"
    "binding_vector_of K C (''derived-epoch-'' @ show_nat (unat e)) ''derived'' e
       (Some (path_key K root (request_path (RepositoryKey e)))) (ed_verifying_key K (path_key K root (request_path (RepositoryKey e)))) b
       root seed (ed_verifying_key K seed) (IdentityId_from_public_key K (ed_verifying_key K seed)) = Inr v"
    "vector_verifies K C v" "bv_epoch v = e" "bv_root_secret_hex v = hex_encode K root"
    using issue_vector [OF assms] length_path_key by blast
  ultimately show ?case
    using Cons by (auto simp: Let_def simp del: request_path.simps)
qed simp

end

subsection \<open>The guards\<close>

lemma output_path_iff:
  "output_path usage args = Inr p \<longleftrightarrow> (\<exists>prog t. args = [prog, ''--output'', t] \<and> p = path_of t)"
proof
  assume run: "output_path usage args = Inr p"
  then show "\<exists>prog t. args = [prog, ''--output'', t] \<and> p = path_of t"
    by (cases args) (auto simp: output_path_def split: list.splits if_splits)
qed (auto simp: output_path_def)

lemma lexical_guard_relative:
  "absolute m \<Longrightarrow> \<not> absolute p \<Longrightarrow> derivation_guard m p = Inr p \<and> binding_guard m p = Inr p"
  by (simp add: derivation_guard_def binding_guard_def path_starts_with_def path_join_def Let_def)

lemma guarded_output_path_Inr:
  assumes "guarded_output_path V m p = Inr g"
  shows "\<exists>t. canonicalize V (path_join m ''tests'') = Inr t \<and> \<not> path_starts_with g t \<and> \<not> is_symlink V g"
  using assms by (auto simp: guarded_output_path_def Let_def bind_res_Inr_iff split: if_splits)

lemma guarded_output_path_tests:
  assumes "current_dir V = Inr m" "canonicalize V (path_join m ''tests'') = Inr t" "name \<notin> {''.'', ''..''}"
  shows "guarded_output_path V m \<lparr> absolute = False, comps = [''tests'', name] \<rparr> = Inl refusal_text"
proof -
  have "path_parent (join_path m \<lparr> absolute = False, comps = [''tests'', name] \<rparr>) = Some (path_join m ''tests'')"
    using assms(3) by (simp add: path_parent_def join_path_def path_join_def butlast_append)
  moreover have "path_file_name (join_path m \<lparr> absolute = False, comps = [''tests'', name] \<rparr>) = Some name"
    using assms(3) by (simp add: path_file_name_def join_path_def)
  ultimately show ?thesis
    using assms by (simp add: guarded_output_path_def path_starts_with_def path_join_def [of t])
qed

subsection \<open>Properties\<close>

text \<open>
  C17: The derivation document is the key tree: the generator neither panics nor fails, names every
  purpose once and the deprecated ones not at all, and gives for each its info text, its key and
  the public key on its curve; the identity hash is the one of the identity module; the
  parameterised part holds exactly two keys per label and three per service, each the one of its
  branch.
\<close>

theorem derivation_vectors_follow_tree:
  assumes "kdf_crate K"
  shows "let root = replicate 32 0x42 in
     \<exists>doc. derivation_vectors K = Some (Inr doc)
       \<and> Some (dv_identity_hash doc) = identity_hash K root
       \<and> (\<forall>p. dv_flat_purposes doc (purpose_debug p) =
            (if p \<in> set purpose_all then Some (expected_entry K root p) else None))
       \<and> dom (dv_flat_purposes doc) = purpose_debug ` set purpose_all
       \<and> (\<forall>l \<in> set vector_labels.
            dv_parameterized doc (''ssh_user/'' @ l) = Some (key_hex K root (SshUserKey l))
            \<and> dv_parameterized doc (''agent/'' @ l) = Some (key_hex K root (AgentKey l)))
       \<and> (\<forall>l \<in> set vector_services.
            dv_parameterized doc (''i2p/'' @ l @ ''/signing'') = Some (key_hex K root (I2pSigningKey l))
            \<and> dv_parameterized doc (''i2p/'' @ l @ ''/encryption'') = Some (key_hex K root (I2pEncryptionKey l))
            \<and> dv_parameterized doc (''onion/'' @ l) = Some (key_hex K root (OnionKey l)))
       \<and> card (dom (dv_parameterized doc)) = 21"
proof -
  note eq = kdf_crate.derivation_vectors_eq [OF assms]
  let ?root = "replicate 32 0x42 :: byte list"
  have hash: "\<exists>h. identity_hash K ?root = Some h"
    by (simp add: identity_hash_def identity_pubkey_def kdf_crate.derive_path [OF assms])
  show ?thesis
    unfolding Let_def
  proof (intro exI conjI)
    show "Some (dv_identity_hash (projr (the (derivation_vectors K)))) = identity_hash K ?root"
      using hash by (auto simp: eq)
    show "\<forall>p. dv_flat_purposes (projr (the (derivation_vectors K))) (purpose_debug p) =
        (if p \<in> set purpose_all then Some (expected_entry K ?root p) else None)"
      by (rule allI, case_tac p) (simp_all add: eq purpose_all_def)
    show "dom (dv_flat_purposes (projr (the (derivation_vectors K)))) = purpose_debug ` set purpose_all"
      by (simp add: eq purpose_all_def insert_commute)
  qed (simp_all add: eq vector_labels_def vector_services_def)
qed

theorem derivation_vectors_follow_tree_witness:
  "\<exists>doc. derivation_vectors ref_crates = Some (Inr doc)
     \<and> dv_parameterized doc ''agent/github'' = Some (key_hex ref_crates (replicate 32 0x42) (AgentKey ''github''))"
  using derivation_vectors_follow_tree [OF ref_kdf.kdf_crate_axioms]
  by (auto simp: Let_def vector_labels_def)

text \<open>
  The published binding vectors are right: the generator neither panics nor fails and answers
  four vectors, for the epochs 0, 1 and the largest, and 7 with the external key, each of which
  stands on its own when only its texts are read.
\<close>

theorem binding_vectors_stand_alone:
  assumes "binding_crates K C"
  shows "\<exists>vs. binding_vectors K C = Some (Inr vs)
     \<and> map bv_epoch vs = [0, 1, 0xFFFFFFFF, 7]
     \<and> (\<forall>v \<in> set vs. vector_verifies K C v \<and> bv_root_secret_hex v = hex_encode K (replicate 32 0x42))"
proof -
  let ?root = "replicate 32 0x42 :: byte list"
  have kdf: "kdf_crate K" using assms by (simp add: binding_crates_def identity_crates_def)
  have seed: "signing_seed K (KeyDeriver_new K ?root) = Some (identity_seed K ?root)"
    by (simp add: signing_seed_def kdf_crate.derive_path [OF kdf] identity_seed_def)
  have len: "length (identity_seed K ?root) = 32"
    by (simp add: identity_seed_def kdf_crate.length_path_key [OF kdf])
  obtain vs where vs: "derived_vectors K C ?root (identity_seed K ?root) [0, 1, 0xFFFFFFFF] = Some (Inr vs)"
    "map bv_epoch vs = [0, 1, 0xFFFFFFFF]"
    "\<forall>v \<in> set vs. vector_verifies K C v \<and> bv_root_secret_hex v = hex_encode K ?root"
    using binding_crates.derived_vectors_ok [OF assms len] by blast
  obtain b v where "binding_issue K C (identity_seed K ?root) (ed_verifying_key K (replicate 32 0xa5)) 7 = Inr b"
    "binding_vector_of K C ''external-repository-key'' ''externally-supplied'' 7 (Some (replicate 32 0xa5))
       (ed_verifying_key K (replicate 32 0xa5)) b ?root (identity_seed K ?root)
       (ed_verifying_key K (identity_seed K ?root))
       (IdentityId_from_public_key K (ed_verifying_key K (identity_seed K ?root))) = Inr v"
    "vector_verifies K C v" "bv_epoch v = 7" "bv_root_secret_hex v = hex_encode K ?root"
    using binding_crates.issue_vector [OF assms len, of "replicate 32 0xa5"] by fastforce
  with vs seed have "binding_vectors K C = Some (Inr (vs @ [v]))"
    by (simp add: binding_vectors_def Let_def del: derived_vectors.simps)
  with vs \<open>vector_verifies K C v\<close> \<open>bv_epoch v = 7\<close> \<open>bv_root_secret_hex v = _\<close> show ?thesis
    by (intro exI [of _ "vs @ [v]"]) auto
qed

theorem binding_vectors_stand_alone_witness:
  "\<exists>vs. binding_vectors ref_crates ref_cbor = Some (Inr vs) \<and> length vs = 4"
  using binding_vectors_stand_alone [OF ref_binding.binding_crates_axioms]
  by (auto dest: arg_cong [of "map _ _" _ length])

text \<open>
  The guard on the committed tests directory: every generator takes exactly one output path
  after its flag.  The generator of the negative corpus never answers a path inside the resolved
  directory or one that is a symbolic link, and started in the repository it refuses
  \<^verbatim>\<open>tests/name\<close>.  The two positive generators compare the path as it was typed, so their
  check lets every relative path through, this one included.
\<close>

theorem lexical_guard_misses_relative_paths:
  assumes "absolute m"
  shows "(\<forall>args p. derivation_output_path args = Inr p
          \<longleftrightarrow> (\<exists>prog t. args = [prog, ''--output'', t] \<and> p = path_of t))
     \<and> (\<forall>V p g. guarded_output_path V m p = Inr g \<longrightarrow>
          (\<exists>t. canonicalize V (path_join m ''tests'') = Inr t \<and> \<not> path_starts_with g t \<and> \<not> is_symlink V g))
     \<and> (\<forall>V t name. current_dir V = Inr m \<and> canonicalize V (path_join m ''tests'') = Inr t
          \<and> name \<notin> {''.'', ''..''} \<longrightarrow>
          guarded_output_path V m \<lparr> absolute = False, comps = [''tests'', name] \<rparr> = Inl refusal_text)
     \<and> (\<forall>p. \<not> absolute p \<longrightarrow> derivation_guard m p = Inr p \<and> binding_guard m p = Inr p)"
  using output_path_iff guarded_output_path_Inr guarded_output_path_tests lexical_guard_relative [OF assms]
  by (auto simp: derivation_output_path_def)

theorem lexical_guard_misses_relative_paths_witness:
  "derivation_guard \<lparr> absolute = True, comps = [''repo''] \<rparr> (path_of ''tests/test-vectors.json'')
     = Inr (path_of ''tests/test-vectors.json'')"
proof -
  have "\<not> absolute (path_of ''tests/test-vectors.json'')" by (simp add: path_of_def Let_def)
  then show ?thesis
    using lexical_guard_misses_relative_paths [of "\<lparr> absolute = True, comps = [''repo''] \<rparr>"] by simp
qed

end
