(* ===== verification/KnownAnswers.thy ===== *)
theory KnownAnswers
  imports PublishedVectors
begin

unbundle bit_operations_syntax

text \<open>
  A known answer: the reference crates compute the signing seed of the committed test vectors,
  \<^verbatim>\<open>tests/test-vectors.json\<close>.  SHA-256 is evaluated in the kernel over natural numbers, one lemma per
  block of 64 bytes, and the result carried over to the words of \<^theory_text>\<open>RefCrates\<close>.
\<close>

subsection \<open>Words as numbers\<close>

definition nrotr :: "nat \<Rightarrow> nat \<Rightarrow> nat" where
  "nrotr n x = drop_bit n x OR push_bit (32 - n) (take_bit n x)"

lemma bit_unat32: "bit (unat (x :: 32 word)) j \<longleftrightarrow> j < 32 \<and> bit x j"
  using bit_imp_le_length [of x j] by (auto simp: bit_unsigned_iff)

lemma unat_rotr: "n < 32 \<Longrightarrow> unat (word_rotr n (x :: 32 word)) = nrotr n (unat x)"
proof (rule bit_eqI)
  fix i assume n: "n < 32"
  show "bit (unat (word_rotr n x)) i = bit (nrotr n (unat x)) i"
  proof (cases "i + n < 32")
    case True
    then show ?thesis using n by (auto simp: nrotr_def bit_unat32 bit_word_rotr_iff bit_simps ac_simps)
  next
    case False
    then obtain j where j: "i + n = 32 + j" using le_Suc_ex [of 32 "i + n"] by auto
    with n have "i - (32 - n) = j" "32 - n \<le> i" "i < 32 \<longleftrightarrow> j < n" "j < n \<Longrightarrow> (i + n) mod 32 = j" by auto
    moreover have "\<not> bit x (32 + j)" using bit_imp_le_length [of x "32 + j"] by auto
    ultimately show ?thesis
      using n j by (auto simp: nrotr_def bit_unat32 bit_word_rotr_iff bit_simps add.commute [of n i])
  qed
qed

lemma unat_sum: "unat (x + y :: 32 word) = take_bit 32 (unat x + unat y)"
  by (simp add: unat_word_ariths take_bit_eq_mod)

lemma unat_xor: "unat (x XOR y :: 32 word) = unat x XOR unat y"
  by (rule bit_eqI) (auto simp: bit_unat32 bit_xor_iff)
lemma unat_and: "unat (x AND y :: 32 word) = unat x AND unat y"
  by (rule bit_eqI) (auto simp: bit_unat32 bit_and_iff)
lemma unat_drop: "unat (drop_bit n (x :: 32 word)) = drop_bit n (unat x)"
  by (rule bit_eqI) (auto simp: bit_unat32 bit_drop_bit_eq dest: bit_imp_le_length)

definition ns0 :: "nat \<Rightarrow> nat" where "ns0 x = nrotr 7 x XOR nrotr 18 x XOR drop_bit 3 x"
definition ns1 :: "nat \<Rightarrow> nat" where "ns1 x = nrotr 17 x XOR nrotr 19 x XOR drop_bit 10 x"
definition nb0 :: "nat \<Rightarrow> nat" where "nb0 x = nrotr 2 x XOR nrotr 13 x XOR nrotr 22 x"
definition nb1 :: "nat \<Rightarrow> nat" where "nb1 x = nrotr 6 x XOR nrotr 11 x XOR nrotr 25 x"
definition nch :: "nat \<Rightarrow> nat \<Rightarrow> nat \<Rightarrow> nat" where "nch x y z = (x AND y) XOR (z XOR (x AND z))"
definition nmaj :: "nat \<Rightarrow> nat \<Rightarrow> nat \<Rightarrow> nat" where "nmaj x y z = (x AND y) XOR (x AND z) XOR (y AND z)"

lemma not_and_xor: "NOT x AND z = z XOR (x AND z)" for x z :: "32 word"
  by (rule bit_word_eqI) (auto simp: bit_simps)

lemma unat_parts:
  "unat (sha_small0 x) = ns0 (unat x)" "unat (sha_small1 x) = ns1 (unat x)"
  "unat (sha_big0 x) = nb0 (unat x)" "unat (sha_big1 x) = nb1 (unat x)"
  "unat (sha_ch x y z) = nch (unat x) (unat y) (unat z)"
  "unat (sha_maj x y z) = nmaj (unat x) (unat y) (unat z)"
  by (simp_all add: sha_small0_def sha_small1_def sha_big0_def sha_big1_def sha_ch_def sha_maj_def not_and_xor
      ns0_def ns1_def nb0_def nb1_def nch_def nmaj_def unat_xor unat_and unat_drop unat_rotr)

type_synonym nat_state = "nat \<times> nat \<times> nat \<times> nat \<times> nat \<times> nat \<times> nat \<times> nat"

fun nats :: "sha_state \<Rightarrow> nat_state" where
  "nats (a, b, c, d, e, f, g, h) = (unat a, unat b, unat c, unat d, unat e, unat f, unat g, unat h)"

fun nmix :: "nat \<Rightarrow> nat \<Rightarrow> nat_state \<Rightarrow> nat_state" where
  "nmix t1 t2 (a, b, c, d, e, f, g, h) = (take_bit 32 (t1 + t2), a, b, c, take_bit 32 (d + t1), e, f, g)"

fun nround :: "nat \<Rightarrow> nat \<Rightarrow> nat_state \<Rightarrow> nat_state" where
  "nround k w (a, b, c, d, e, f, g, h) =
     nmix (take_bit 32 (h + nb1 e + nch e f g + k + w)) (nb0 a + nmaj a b c) (a, b, c, d, e, f, g, h)"

fun nrounds :: "nat list \<Rightarrow> nat list \<Rightarrow> nat_state \<Rightarrow> nat_state" where
  "nrounds (k # ks) (w # ws) s = nrounds ks ws (nround k w s)"
| "nrounds _ _ s = s"

lemma nround_eq:
  "nround (unat k) (unat w) (nats (a, b, c, d, e, f, g, h)) = nats
     (let t1 = h + sha_big1 e + sha_ch e f g + k + w; t2 = sha_big0 a + sha_maj a b c
      in (t1 + t2, a, b, c, d + t1, e, f, g))"
proof -
  have t1: "unat (h + sha_big1 e + sha_ch e f g + k + w)
      = take_bit 32 (unat h + nb1 (unat e) + nch (unat e) (unat f) (unat g) + unat k + unat w)"
    by (simp add: unat_sum unat_parts take_bit_eq_mod mod_simps)
  have "unat (t + (sha_big0 a + sha_maj a b c)) = take_bit 32 (unat t + (nb0 (unat a) + nmaj (unat a) (unat b) (unat c)))"
    for t by (simp add: unat_sum unat_parts take_bit_eq_mod mod_simps)
  from this [of "h + sha_big1 e + sha_ch e f g + k + w"] show ?thesis
    by (simp only: Let_def nats.simps nround.simps nmix.simps t1 unat_sum [of d])
qed

lemma nrounds_eq: "nrounds (map unat ks) (map unat ws) (nats s) = nats (sha_rounds ks ws s)"
proof (induction ks ws s rule: sha_rounds.induct)
  case (1 k ks w ws a b c d e f g h)
  have "nrounds (map unat (k # ks)) (map unat (w # ws)) (nats (a, b, c, d, e, f, g, h))
      = nrounds (map unat ks) (map unat ws) (nround (unat k) (unat w) (nats (a, b, c, d, e, f, g, h)))"
    by simp
  also have "\<dots> = nats (sha_rounds (k # ks) (w # ws) (a, b, c, d, e, f, g, h))"
    using "1.IH" [OF refl refl] unfolding nround_eq Let_def sha_rounds.simps .
  finally show ?case .
qed simp_all

definition nnext :: "nat list \<Rightarrow> nat list" where
  "nnext w = take_bit 32 (ns1 (w ! 1) + w ! 6 + ns0 (w ! 14) + w ! 15) # w"

fun nsched :: "nat \<Rightarrow> nat list \<Rightarrow> nat list" where
  "nsched 0 w = w"
| "nsched (Suc n) w = nsched n (nnext w)"

lemma nsched_numeral: "nsched (numeral n) w = nsched (pred_numeral n) (nnext w)"
  by (simp add: numeral_eq_Suc)

lemma nnext_eq:
  assumes "16 \<le> length w"
  shows "nnext (rev (map unat w)) = rev (map unat (w @ [sha_small1 (w ! (length w - 2)) + w ! (length w - 7)
             + sha_small0 (w ! (length w - 15)) + w ! (length w - 16)]))"
  using assms by (simp add: nnext_def rev_nth unat_sum unat_parts take_bit_eq_mod mod_simps numeral_2_eq_2)

lemma nsched_eq: "16 \<le> length w \<Longrightarrow> nsched n (rev (map unat w)) = rev (map unat (sha_schedule n w))"
  by (induction n arbitrary: w) (simp_all add: nnext_eq del: rev.simps map_append rev_append)


subsection \<open>The constants of the standard\<close>

lemma root_bits_step:
  assumes "r ^ e \<le> x" "x < Suc r ^ e" "r0 \<le> r" "r < r0 + 2 ^ n"
  shows "foldl (\<lambda>r i. if (r + 2 ^ i) ^ e \<le> x then r + 2 ^ i else r) r0 (rev [0..<n]) = r"
  using assms(3,4)
proof (induction n arbitrary: r0)
  case (Suc n)
  show ?case
  proof (cases "(r0 + 2 ^ n) ^ e \<le> x")
    case True
    then have "(r0 + 2 ^ n) ^ e < Suc r ^ e" using assms(2) by simp
    then have "r0 + 2 ^ n \<le> r" by (simp add: power_less_imp_less_base less_Suc_eq_le [symmetric])
    with True Suc show ?thesis by simp
  next
    case False
    then have "r ^ e < (r0 + 2 ^ n) ^ e" using assms(1) by simp
    then have "r < r0 + 2 ^ n" by (rule power_less_imp_less_base) simp
    with False Suc show ?thesis by simp
  qed
qed simp

lemma root_bits_eq: "r < 2 ^ 38 \<Longrightarrow> r ^ e \<le> x \<Longrightarrow> x < Suc r ^ e \<Longrightarrow> root_bits e x = r"
  unfolding root_bits_def by (rule root_bits_step) simp_all

definition cube_roots :: "nat list" where
  "cube_roots = [5411319704, 6194414737, 7344290767, 8215976869, 9551921755, 10098905585, 11043570340, 11460697813, 12214315672, 13195500289, 13492127166, 14311783875, 14809980276, 15046980094, 15499789991, 16133124468, 16720292289, 16907126662, 17444216262, 17784676812, 17950125167, 18429019306, 18734950876, 19175934170, 19734090066, 20001703533, 20132865992, 20390182855, 20516441075, 20764397895, 21588763473, 21813078375, 22141143685, 22248366392, 22769593852, 22871018771, 23170020180, 23461497531, 23651862830, 23931792517, 24205322401, 24295138891, 24734567280, 24820601251, 24990902297, 25075189284, 25569408389, 26045227120, 26200031510, 26276752392, 26428864332, 26653801653, 26727943347, 27092625994, 27306805839, 27517677555, 27725365998, 27793908591, 27997534228, 28131656200, 28198240250, 28526537963, 28973835255, 29099129074]"

definition round_constants :: "nat list" where
  "round_constants = [1116352408, 1899447441, 3049323471, 3921009573, 961987163, 1508970993, 2453635748, 2870763221, 3624381080, 310598401, 607225278, 1426881987, 1925078388, 2162078206, 2614888103, 3248222580, 3835390401, 4022224774, 264347078, 604807628, 770255983, 1249150122, 1555081692, 1996064986, 2554220882, 2821834349, 2952996808, 3210313671, 3336571891, 3584528711, 113926993, 338241895, 666307205, 773529912, 1294757372, 1396182291, 1695183700, 1986661051, 2177026350, 2456956037, 2730485921, 2820302411, 3259730800, 3345764771, 3516065817, 3600352804, 4094571909, 275423344, 430227734, 506948616, 659060556, 883997877, 958139571, 1322822218, 1537002063, 1747873779, 1955562222, 2024104815, 2227730452, 2361852424, 2428436474, 2756734187, 3204031479, 3329325298]"

lemma cube_roots_eq: "map (\<lambda>p. root_bits 3 (p * 2 ^ 96)) small_primes = cube_roots"
  by (simp add: small_primes_def cube_roots_def root_bits_eq)


lemma length_sha_chunks: "length (sha_chunks w n b) = n"
  by (induction n arbitrary: b) simp_all

lemma sha_chunks_bound: "c \<in> set (sha_chunks w n b) \<Longrightarrow> length c \<le> w"
  by (induction n arbitrary: b) auto

definition square_roots :: "nat list" where
  "square_roots = [6074000999, 7439101573, 9603838834, 11363415354, 14244795007, 15485724812, 17708603819, 18721328409]"

lemma square_roots_eq: "map (\<lambda>p. root_bits 2 (p * 2 ^ 64)) (take 8 small_primes) = square_roots"
  by (simp add: small_primes_def square_roots_def root_bits_eq)

definition initial_nats :: nat_state where
  "initial_nats = (1779033703, 3144134277, 1013904242, 2773480762, 1359893119, 2600822924, 528734635, 1541459225)"

lemma unat_of_nat32: "unat (of_nat n :: 32 word) = take_bit 32 n"
  by (simp add: unat_of_nat take_bit_eq_mod)

lemma sha_k_nats: "map unat sha_k = round_constants"
proof -
  have "map unat sha_k = map (take_bit 32) (map (\<lambda>p. root_bits 3 (p * 2 ^ 96)) small_primes)"
    by (simp add: sha_k_def unat_of_nat32)
  then show ?thesis
    unfolding cube_roots_eq by (simp add: cube_roots_def round_constants_def mask_numeral)
qed

lemma sha_init_nats: "nats sha_init = initial_nats"
proof -
  have "map (\<lambda>p. of_nat (root_bits 2 (p * 2 ^ 64)) :: 32 word) (take 8 small_primes) = map of_nat square_roots"
    unfolding square_roots_eq [symmetric] by simp
  then show ?thesis
    by (simp add: sha_init_def square_roots_def initial_nats_def unat_of_nat32)
qed

subsection \<open>A block, and two\<close>

fun nplus :: "nat_state \<Rightarrow> nat_state \<Rightarrow> nat_state" where
  "nplus (a, b, c, d, e, f, g, h) (a', b', c', d', e', f', g', h') =
     (take_bit 32 (a + a'), take_bit 32 (b + b'), take_bit 32 (c + c'), take_bit 32 (d + d'),
      take_bit 32 (e + e'), take_bit 32 (f + f'), take_bit 32 (g + g'), take_bit 32 (h + h'))"

lemma nplus_eq: "nplus (nats s) (nats r) = nats (sha_add s r)"
  by (cases s rule: nats.cases; cases r rule: nats.cases) (simp add: unat_sum)

definition block_words :: "byte list \<Rightarrow> nat list" where
  "block_words b = map be_val (sha_chunks 4 16 b)"

lemma sha_step_nats:
  assumes "length b = 64" "block_words b = w" "nsched 48 (rev w) = rw"
    and "nrounds round_constants (rev rw) a = r" "nplus a r = a'" "nats s = a"
  shows "nats (sha_step s b) = a'"
proof -
  have "be_val c < 2 ^ 32" if "c \<in> set (sha_chunks 4 16 b)" for c
  proof -
    have "(256 :: nat) ^ length c \<le> 256 ^ 4"
      by (rule power_increasing) (use sha_chunks_bound [OF that] in simp_all)
    with be_val_less [of c] show ?thesis by simp
  qed
  then have w: "map unat (sha_block b) = w"
    using assms(2) by (auto simp: sha_block_def block_words_def unat_of_nat32 take_bit_nat_eq_self)
  have "length (sha_block b) = 16" by (simp add: sha_block_def length_sha_chunks)
  then have "map unat (sha_schedule 48 (sha_block b)) = rev rw"
    using nsched_eq [of "sha_block b" 48] assms(3) w by simp
  then show ?thesis
    using assms(4,5,6) nrounds_eq [of sha_k "sha_schedule 48 (sha_block b)" s]
      nplus_eq [of s "sha_rounds sha_k (sha_schedule 48 (sha_block b)) s"]
    by (simp add: sha_step_def sha_k_nats)
qed

fun digest_bytes :: "nat_state \<Rightarrow> byte list" where
  "digest_bytes (a, b, c, d, e, f, g, h) = concat (map (be_bytes 4) [a, b, c, d, e, f, g, h])"

lemma sha_output_nats: "sha_output s = digest_bytes (nats s)"
  by (cases s rule: nats.cases) (simp add: u32_be_def)

lemma sha256_two_blocks:
  assumes "sha_pad m = b1 @ b2" "length b1 = 64" "length b2 = 64"
    and "nats (sha_step sha_init b1) = a1" "\<And>s. nats s = a1 \<Longrightarrow> nats (sha_step s b2) = a2"
  shows "sha256 m = digest_bytes a2"
proof -
  have "length (sha_pad m) div 64 = Suc (Suc 0)" using assms(1,2,3) by simp
  then have "sha_chunks 64 (length (sha_pad m) div 64) (sha_pad m) = [b1, b2]"
    using assms(2,3) unfolding assms(1) by (simp only:) simp
  then show ?thesis
    using assms(4,5) by (simp add: sha256_def Let_def sha_output_nats)
qed

subsection \<open>Evaluation\<close>

lemmas sha_eval = nrotr_def ns0_def ns1_def nb0_def nb1_def nch_def nmaj_def nnext_def nsched_numeral mask_numeral round_constants_def
lemma numeral_evals:
  "sha_chunks v (numeral n) bs = take v bs # sha_chunks v (pred_numeral n) (drop v bs)"
  "be_bytes (numeral n) k = be_bytes (pred_numeral n) (k div 256) @ [of_nat (k mod 256)]"
  "replicate (numeral n) x = x # replicate (pred_numeral n) x"
  by (simp_all only: numeral_eq_Suc [of n] sha_chunks.simps be_bytes.simps replicate.simps)

lemmas block_eval = block_words_def be_val_def numeral_evals(1)
lemmas pad_eval = sha_pad_def numeral_evals(2,3)
lemmas digest_eval = numeral_evals(2)
lemmas hmac_eval = hmac_sha256_def hmac_key_def numeral_evals(3)

lemma block1:
  "nats s = (1779033703, 3144134277, 1013904242, 2773480762, 1359893119, 2600822924, 528734635, 1541459225) \<Longrightarrow>
   nats (sha_step s [69, 66, 79, 68, 83, 88, 83, 27, 95, 82, 83, 88, 66, 95, 66, 79, 27, 64, 7, 54, 54, 54, 54, 54, 54, 54, 54, 54, 54, 54, 54, 54, 54, 54, 54, 54, 54, 54, 54, 54, 54, 54, 54, 54, 54, 54, 54, 54, 54, 54, 54, 54, 54, 54, 54, 54, 54, 54, 54, 54, 54, 54, 54, 54]) =
     (1985619939, 1928108513, 1127818764, 2065319120, 3797628329, 950319829, 2457042414, 2055897849)"
proof (rule sha_step_nats)
  show "length [69, 66, 79, 68, 83, 88, 83, 27, 95, 82, 83, 88, 66, 95, 66, 79, 27, 64, 7, 54, 54, 54, 54, 54, 54, 54, 54, 54, 54, 54, 54, 54, 54, 54, 54, 54, 54, 54, 54, 54, 54, 54, 54, 54, 54, 54, 54, 54, 54, 54, 54, 54, 54, 54, 54, 54, 54, 54, 54, 54, 54, 54, 54, 54] = 64" by simp
  show "block_words [69, 66, 79, 68, 83, 88, 83, 27, 95, 82, 83, 88, 66, 95, 66, 79, 27, 64, 7, 54, 54, 54, 54, 54, 54, 54, 54, 54, 54, 54, 54, 54, 54, 54, 54, 54, 54, 54, 54, 54, 54, 54, 54, 54, 54, 54, 54, 54, 54, 54, 54, 54, 54, 54, 54, 54, 54, 54, 54, 54, 54, 54, 54, 54] =
      [1161973572, 1398297371, 1599230808, 1113539151, 457180982, 909522486, 909522486, 909522486, 909522486, 909522486, 909522486, 909522486, 909522486, 909522486, 909522486, 909522486]" by (simp add: block_eval)
  show "nsched 48 (rev [1161973572, 1398297371, 1599230808, 1113539151, 457180982, 909522486, 909522486, 909522486, 909522486, 909522486, 909522486, 909522486, 909522486, 909522486, 909522486, 909522486]) =
      [4111594073, 3348969508, 1970829424, 2726157479, 3837753343, 2469407457, 1369164327, 678184138, 2883169307, 3299097731, 2063697968, 1350680125, 732380389, 155481591, 1532348763, 4236050922, 258760289, 4050174296, 3154191589, 2175980206, 4267439642, 3839962393, 10444403, 27767377, 1807203944, 2586786183, 1034128808, 731130619, 1388899990, 3432523823, 2238929027, 3248355793, 2436779417, 2687120686, 3620829822, 3610121744, 3472906351, 2454682875, 3503278861, 216240494, 3100450010, 2473213611, 1745522690, 2496633222, 3126337685, 2241475960, 2531381946, 2169783261, 909522486, 909522486, 909522486, 909522486, 909522486, 909522486, 909522486, 909522486, 909522486, 909522486, 909522486, 457180982, 1113539151, 1599230808, 1398297371, 1161973572]" by (simp add: sha_eval)
  show "nrounds round_constants (rev [4111594073, 3348969508, 1970829424, 2726157479, 3837753343, 2469407457, 1369164327, 678184138, 2883169307, 3299097731, 2063697968, 1350680125, 732380389, 155481591, 1532348763, 4236050922, 258760289, 4050174296, 3154191589, 2175980206, 4267439642, 3839962393, 10444403, 27767377, 1807203944, 2586786183, 1034128808, 731130619, 1388899990, 3432523823, 2238929027, 3248355793, 2436779417, 2687120686, 3620829822, 3610121744, 3472906351, 2454682875, 3503278861, 216240494, 3100450010, 2473213611, 1745522690, 2496633222, 3126337685, 2241475960, 2531381946, 2169783261, 909522486, 909522486, 909522486, 909522486, 909522486, 909522486, 909522486, 909522486, 909522486, 909522486, 909522486, 457180982, 1113539151, 1599230808, 1398297371, 1161973572]) (1779033703, 3144134277, 1013904242, 2773480762, 1359893119, 2600822924, 528734635, 1541459225) =
      (206586236, 3078941532, 113914522, 3586805654, 2437735210, 2644464201, 1928307779, 514438624)" by (simp add: sha_eval)
  show "nplus (1779033703, 3144134277, 1013904242, 2773480762, 1359893119, 2600822924, 528734635, 1541459225) (206586236, 3078941532, 113914522, 3586805654, 2437735210, 2644464201, 1928307779, 514438624) = (1985619939, 1928108513, 1127818764, 2065319120, 3797628329, 950319829, 2457042414, 2055897849)" by (simp add: mask_numeral)
qed

lemma block2:
  "nats s = (1985619939, 1928108513, 1127818764, 2065319120, 3797628329, 950319829, 2457042414, 2055897849) \<Longrightarrow>
   nats (sha_step s [66, 66, 66, 66, 66, 66, 66, 66, 66, 66, 66, 66, 66, 66, 66, 66, 66, 66, 66, 66, 66, 66, 66, 66, 66, 66, 66, 66, 66, 66, 66, 66, 128, 0, 0, 0, 0, 0, 0, 0, 0, 0, 0, 0, 0, 0, 0, 0, 0, 0, 0, 0, 0, 0, 0, 0, 0, 0, 0, 0, 0, 0, 3, 0]) =
     (2667144640, 2243042284, 282512883, 3810415598, 1649627496, 2087704810, 1013244466, 731436369)"
proof (rule sha_step_nats)
  show "length [66, 66, 66, 66, 66, 66, 66, 66, 66, 66, 66, 66, 66, 66, 66, 66, 66, 66, 66, 66, 66, 66, 66, 66, 66, 66, 66, 66, 66, 66, 66, 66, 128, 0, 0, 0, 0, 0, 0, 0, 0, 0, 0, 0, 0, 0, 0, 0, 0, 0, 0, 0, 0, 0, 0, 0, 0, 0, 0, 0, 0, 0, 3, 0] = 64" by simp
  show "block_words [66, 66, 66, 66, 66, 66, 66, 66, 66, 66, 66, 66, 66, 66, 66, 66, 66, 66, 66, 66, 66, 66, 66, 66, 66, 66, 66, 66, 66, 66, 66, 66, 128, 0, 0, 0, 0, 0, 0, 0, 0, 0, 0, 0, 0, 0, 0, 0, 0, 0, 0, 0, 0, 0, 0, 0, 0, 0, 0, 0, 0, 0, 3, 0] =
      [1111638594, 1111638594, 1111638594, 1111638594, 1111638594, 1111638594, 1111638594, 1111638594, 2147483648, 0, 0, 0, 0, 0, 0, 768]" by (simp add: block_eval)
  show "nsched 48 (rev [1111638594, 1111638594, 1111638594, 1111638594, 1111638594, 1111638594, 1111638594, 1111638594, 2147483648, 0, 0, 0, 0, 0, 0, 768]) =
      [33284097, 2732286430, 1062825320, 4242359099, 2653661026, 5274746, 113694157, 3602683028, 3678509958, 2388914707, 160466613, 4107589092, 682688785, 3908072136, 808991803, 3589190624, 406470385, 1330158086, 3850687350, 4227087776, 2803297854, 747553503, 332524890, 1376849875, 3266432618, 3345741408, 4104894119, 460509281, 2649020909, 3005498029, 1298082734, 3287400870, 2896950413, 4283230655, 414097165, 2401332639, 1258541396, 2466198177, 3826423970, 2139190111, 1663888170, 2249995000, 268511411, 730310439, 4213408309, 4213826009, 1618910878, 1587453598, 768, 0, 0, 0, 0, 0, 0, 2147483648, 1111638594, 1111638594, 1111638594, 1111638594, 1111638594, 1111638594, 1111638594, 1111638594]" by (simp add: sha_eval)
  show "nrounds round_constants (rev [33284097, 2732286430, 1062825320, 4242359099, 2653661026, 5274746, 113694157, 3602683028, 3678509958, 2388914707, 160466613, 4107589092, 682688785, 3908072136, 808991803, 3589190624, 406470385, 1330158086, 3850687350, 4227087776, 2803297854, 747553503, 332524890, 1376849875, 3266432618, 3345741408, 4104894119, 460509281, 2649020909, 3005498029, 1298082734, 3287400870, 2896950413, 4283230655, 414097165, 2401332639, 1258541396, 2466198177, 3826423970, 2139190111, 1663888170, 2249995000, 268511411, 730310439, 4213408309, 4213826009, 1618910878, 1587453598, 768, 0, 0, 0, 0, 0, 0, 2147483648, 1111638594, 1111638594, 1111638594, 1111638594, 1111638594, 1111638594, 1111638594, 1111638594]) (1985619939, 1928108513, 1127818764, 2065319120, 3797628329, 950319829, 2457042414, 2055897849) =
      (681524701, 314933771, 3449661415, 1745096478, 2146966463, 1137384981, 2851169348, 2970505816)" by (simp add: sha_eval)
  show "nplus (1985619939, 1928108513, 1127818764, 2065319120, 3797628329, 950319829, 2457042414, 2055897849) (681524701, 314933771, 3449661415, 1745096478, 2146966463, 1137384981, 2851169348, 2970505816) = (2667144640, 2243042284, 282512883, 3810415598, 1649627496, 2087704810, 1013244466, 731436369)" by (simp add: mask_numeral)
qed

lemma hash1: "sha256 [69, 66, 79, 68, 83, 88, 83, 27, 95, 82, 83, 88, 66, 95, 66, 79, 27, 64, 7, 54, 54, 54, 54, 54, 54, 54, 54, 54, 54, 54, 54, 54, 54, 54, 54, 54, 54, 54, 54, 54, 54, 54, 54, 54, 54, 54, 54, 54, 54, 54, 54, 54, 54, 54, 54, 54, 54, 54, 54, 54, 54, 54, 54, 54, 66, 66, 66, 66, 66, 66, 66, 66, 66, 66, 66, 66, 66, 66, 66, 66, 66, 66, 66, 66, 66, 66, 66, 66, 66, 66, 66, 66, 66, 66, 66, 66] = [158, 249, 101, 192, 133, 178, 27, 236, 16, 214, 205, 243, 227, 30, 83, 238, 98, 83, 81, 104, 124, 111, 216, 234, 60, 100, 226, 50, 43, 152, 213, 81]"
proof -
  have "sha_pad [69, 66, 79, 68, 83, 88, 83, 27, 95, 82, 83, 88, 66, 95, 66, 79, 27, 64, 7, 54, 54, 54, 54, 54, 54, 54, 54, 54, 54, 54, 54, 54, 54, 54, 54, 54, 54, 54, 54, 54, 54, 54, 54, 54, 54, 54, 54, 54, 54, 54, 54, 54, 54, 54, 54, 54, 54, 54, 54, 54, 54, 54, 54, 54, 66, 66, 66, 66, 66, 66, 66, 66, 66, 66, 66, 66, 66, 66, 66, 66, 66, 66, 66, 66, 66, 66, 66, 66, 66, 66, 66, 66, 66, 66, 66, 66] = [69, 66, 79, 68, 83, 88, 83, 27, 95, 82, 83, 88, 66, 95, 66, 79, 27, 64, 7, 54, 54, 54, 54, 54, 54, 54, 54, 54, 54, 54, 54, 54, 54, 54, 54, 54, 54, 54, 54, 54, 54, 54, 54, 54, 54, 54, 54, 54, 54, 54, 54, 54, 54, 54, 54, 54, 54, 54, 54, 54, 54, 54, 54, 54] @ [66, 66, 66, 66, 66, 66, 66, 66, 66, 66, 66, 66, 66, 66, 66, 66, 66, 66, 66, 66, 66, 66, 66, 66, 66, 66, 66, 66, 66, 66, 66, 66, 128, 0, 0, 0, 0, 0, 0, 0, 0, 0, 0, 0, 0, 0, 0, 0, 0, 0, 0, 0, 0, 0, 0, 0, 0, 0, 0, 0, 0, 0, 3, 0]" by (simp add: pad_eval)
  from sha256_two_blocks [OF this _ _ block1 [OF sha_init_nats [unfolded initial_nats_def]] block2]
  show ?thesis by (simp add: digest_eval)
qed

lemma block3:
  "nats s = (1779033703, 3144134277, 1013904242, 2773480762, 1359893119, 2600822924, 528734635, 1541459225) \<Longrightarrow>
   nats (sha_step s [47, 40, 37, 46, 57, 50, 57, 113, 53, 56, 57, 50, 40, 53, 40, 37, 113, 42, 109, 92, 92, 92, 92, 92, 92, 92, 92, 92, 92, 92, 92, 92, 92, 92, 92, 92, 92, 92, 92, 92, 92, 92, 92, 92, 92, 92, 92, 92, 92, 92, 92, 92, 92, 92, 92, 92, 92, 92, 92, 92, 92, 92, 92, 92]) =
     (2775939768, 2946569019, 3864073322, 588496030, 3841228051, 1380980490, 3242115126, 290257813)"
proof (rule sha_step_nats)
  show "length [47, 40, 37, 46, 57, 50, 57, 113, 53, 56, 57, 50, 40, 53, 40, 37, 113, 42, 109, 92, 92, 92, 92, 92, 92, 92, 92, 92, 92, 92, 92, 92, 92, 92, 92, 92, 92, 92, 92, 92, 92, 92, 92, 92, 92, 92, 92, 92, 92, 92, 92, 92, 92, 92, 92, 92, 92, 92, 92, 92, 92, 92, 92, 92] = 64" by simp
  show "block_words [47, 40, 37, 46, 57, 50, 57, 113, 53, 56, 57, 50, 40, 53, 40, 37, 113, 42, 109, 92, 92, 92, 92, 92, 92, 92, 92, 92, 92, 92, 92, 92, 92, 92, 92, 92, 92, 92, 92, 92, 92, 92, 92, 92, 92, 92, 92, 92, 92, 92, 92, 92, 92, 92, 92, 92, 92, 92, 92, 92, 92, 92, 92, 92] =
      [791160110, 959592817, 892877106, 674572325, 1898605916, 1549556828, 1549556828, 1549556828, 1549556828, 1549556828, 1549556828, 1549556828, 1549556828, 1549556828, 1549556828, 1549556828]" by (simp add: block_eval)
  show "nsched 48 (rev [791160110, 959592817, 892877106, 674572325, 1898605916, 1549556828, 1549556828, 1549556828, 1549556828, 1549556828, 1549556828, 1549556828, 1549556828, 1549556828, 1549556828, 1549556828]) =
      [1513606011, 3763803031, 360034814, 675772691, 3005126682, 1512413855, 124445816, 1226611889, 1474244820, 60301831, 1183315478, 1873868356, 2981388246, 4049717768, 3385961225, 1531480941, 2941305513, 3199676362, 694264738, 975058530, 3322631118, 2027266787, 4132438636, 2722745364, 2830489713, 1845120696, 4106763293, 1063135467, 990824737, 3744011990, 3823307383, 3248391193, 2627817141, 218983733, 3334547355, 2037300513, 2731500668, 706946992, 319682347, 642324996, 2204247168, 1739010100, 2177475589, 1557838690, 2069340549, 3147623767, 2814591641, 2621415756, 1549556828, 1549556828, 1549556828, 1549556828, 1549556828, 1549556828, 1549556828, 1549556828, 1549556828, 1549556828, 1549556828, 1898605916, 674572325, 892877106, 959592817, 791160110]" by (simp add: sha_eval)
  show "nrounds round_constants (rev [1513606011, 3763803031, 360034814, 675772691, 3005126682, 1512413855, 124445816, 1226611889, 1474244820, 60301831, 1183315478, 1873868356, 2981388246, 4049717768, 3385961225, 1531480941, 2941305513, 3199676362, 694264738, 975058530, 3322631118, 2027266787, 4132438636, 2722745364, 2830489713, 1845120696, 4106763293, 1063135467, 990824737, 3744011990, 3823307383, 3248391193, 2627817141, 218983733, 3334547355, 2037300513, 2731500668, 706946992, 319682347, 642324996, 2204247168, 1739010100, 2177475589, 1557838690, 2069340549, 3147623767, 2814591641, 2621415756, 1549556828, 1549556828, 1549556828, 1549556828, 1549556828, 1549556828, 1549556828, 1549556828, 1549556828, 1549556828, 1549556828, 1898605916, 674572325, 892877106, 959592817, 791160110]) (1779033703, 3144134277, 1013904242, 2773480762, 1359893119, 2600822924, 528734635, 1541459225) =
      (996906065, 4097402038, 2850169080, 2109982564, 2481334932, 3075124862, 2713380491, 3043765884)" by (simp add: sha_eval)
  show "nplus (1779033703, 3144134277, 1013904242, 2773480762, 1359893119, 2600822924, 528734635, 1541459225) (996906065, 4097402038, 2850169080, 2109982564, 2481334932, 3075124862, 2713380491, 3043765884) = (2775939768, 2946569019, 3864073322, 588496030, 3841228051, 1380980490, 3242115126, 290257813)" by (simp add: mask_numeral)
qed

lemma block4:
  "nats s = (2775939768, 2946569019, 3864073322, 588496030, 3841228051, 1380980490, 3242115126, 290257813) \<Longrightarrow>
   nats (sha_step s [158, 249, 101, 192, 133, 178, 27, 236, 16, 214, 205, 243, 227, 30, 83, 238, 98, 83, 81, 104, 124, 111, 216, 234, 60, 100, 226, 50, 43, 152, 213, 81, 128, 0, 0, 0, 0, 0, 0, 0, 0, 0, 0, 0, 0, 0, 0, 0, 0, 0, 0, 0, 0, 0, 0, 0, 0, 0, 0, 0, 0, 0, 3, 0]) =
     (1151587200, 3239095733, 3885383827, 1268051168, 927964670, 2784997329, 3338803338, 2750038946)"
proof (rule sha_step_nats)
  show "length [158, 249, 101, 192, 133, 178, 27, 236, 16, 214, 205, 243, 227, 30, 83, 238, 98, 83, 81, 104, 124, 111, 216, 234, 60, 100, 226, 50, 43, 152, 213, 81, 128, 0, 0, 0, 0, 0, 0, 0, 0, 0, 0, 0, 0, 0, 0, 0, 0, 0, 0, 0, 0, 0, 0, 0, 0, 0, 0, 0, 0, 0, 3, 0] = 64" by simp
  show "block_words [158, 249, 101, 192, 133, 178, 27, 236, 16, 214, 205, 243, 227, 30, 83, 238, 98, 83, 81, 104, 124, 111, 216, 234, 60, 100, 226, 50, 43, 152, 213, 81, 128, 0, 0, 0, 0, 0, 0, 0, 0, 0, 0, 0, 0, 0, 0, 0, 0, 0, 0, 0, 0, 0, 0, 0, 0, 0, 0, 0, 0, 0, 3, 0] =
      [2667144640, 2243042284, 282512883, 3810415598, 1649627496, 2087704810, 1013244466, 731436369, 2147483648, 0, 0, 0, 0, 0, 0, 768]" by (simp add: block_eval)
  show "nsched 48 (rev [2667144640, 2243042284, 282512883, 3810415598, 1649627496, 2087704810, 1013244466, 731436369, 2147483648, 0, 0, 0, 0, 0, 0, 768]) =
      [2731653728, 55456605, 1312649313, 3527764028, 2805100503, 855402983, 3397438271, 1496229515, 1319863675, 981578334, 2808840694, 760471817, 3874324505, 4127417644, 2890199147, 53112123, 1179007129, 3876794559, 3934197869, 1888861801, 1235882520, 124541350, 3354472278, 3202008412, 2057500657, 388975633, 1548872091, 494016912, 3931336381, 1944942091, 2222052234, 3412261236, 3384931203, 2705274288, 3488142438, 2330084259, 3005629168, 2066728144, 3494102203, 1314096163, 922232973, 3873328639, 1878346400, 405258264, 3366546126, 3202957586, 3738815484, 3997133798, 768, 0, 0, 0, 0, 0, 0, 2147483648, 731436369, 1013244466, 2087704810, 1649627496, 3810415598, 282512883, 2243042284, 2667144640]" by (simp add: sha_eval)
  show "nrounds round_constants (rev [2731653728, 55456605, 1312649313, 3527764028, 2805100503, 855402983, 3397438271, 1496229515, 1319863675, 981578334, 2808840694, 760471817, 3874324505, 4127417644, 2890199147, 53112123, 1179007129, 3876794559, 3934197869, 1888861801, 1235882520, 124541350, 3354472278, 3202008412, 2057500657, 388975633, 1548872091, 494016912, 3931336381, 1944942091, 2222052234, 3412261236, 3384931203, 2705274288, 3488142438, 2330084259, 3005629168, 2066728144, 3494102203, 1314096163, 922232973, 3873328639, 1878346400, 405258264, 3366546126, 3202957586, 3738815484, 3997133798, 768, 0, 0, 0, 0, 0, 0, 2147483648, 731436369, 1013244466, 2087704810, 1649627496, 3810415598, 282512883, 2243042284, 2667144640]) (2775939768, 2946569019, 3864073322, 588496030, 3841228051, 1380980490, 3242115126, 290257813) =
      (2670614728, 292526714, 21310505, 679555138, 1381703915, 1404016839, 96688212, 2459781133)" by (simp add: sha_eval)
  show "nplus (2775939768, 2946569019, 3864073322, 588496030, 3841228051, 1380980490, 3242115126, 290257813) (2670614728, 292526714, 21310505, 679555138, 1381703915, 1404016839, 96688212, 2459781133) = (1151587200, 3239095733, 3885383827, 1268051168, 927964670, 2784997329, 3338803338, 2750038946)" by (simp add: mask_numeral)
qed

lemma hash2: "sha256 [47, 40, 37, 46, 57, 50, 57, 113, 53, 56, 57, 50, 40, 53, 40, 37, 113, 42, 109, 92, 92, 92, 92, 92, 92, 92, 92, 92, 92, 92, 92, 92, 92, 92, 92, 92, 92, 92, 92, 92, 92, 92, 92, 92, 92, 92, 92, 92, 92, 92, 92, 92, 92, 92, 92, 92, 92, 92, 92, 92, 92, 92, 92, 92, 158, 249, 101, 192, 133, 178, 27, 236, 16, 214, 205, 243, 227, 30, 83, 238, 98, 83, 81, 104, 124, 111, 216, 234, 60, 100, 226, 50, 43, 152, 213, 81] = [68, 163, 211, 128, 193, 16, 173, 181, 231, 150, 64, 147, 75, 148, 236, 224, 55, 79, 157, 254, 165, 255, 175, 209, 199, 2, 24, 138, 163, 234, 67, 162]"
proof -
  have "sha_pad [47, 40, 37, 46, 57, 50, 57, 113, 53, 56, 57, 50, 40, 53, 40, 37, 113, 42, 109, 92, 92, 92, 92, 92, 92, 92, 92, 92, 92, 92, 92, 92, 92, 92, 92, 92, 92, 92, 92, 92, 92, 92, 92, 92, 92, 92, 92, 92, 92, 92, 92, 92, 92, 92, 92, 92, 92, 92, 92, 92, 92, 92, 92, 92, 158, 249, 101, 192, 133, 178, 27, 236, 16, 214, 205, 243, 227, 30, 83, 238, 98, 83, 81, 104, 124, 111, 216, 234, 60, 100, 226, 50, 43, 152, 213, 81] = [47, 40, 37, 46, 57, 50, 57, 113, 53, 56, 57, 50, 40, 53, 40, 37, 113, 42, 109, 92, 92, 92, 92, 92, 92, 92, 92, 92, 92, 92, 92, 92, 92, 92, 92, 92, 92, 92, 92, 92, 92, 92, 92, 92, 92, 92, 92, 92, 92, 92, 92, 92, 92, 92, 92, 92, 92, 92, 92, 92, 92, 92, 92, 92] @ [158, 249, 101, 192, 133, 178, 27, 236, 16, 214, 205, 243, 227, 30, 83, 238, 98, 83, 81, 104, 124, 111, 216, 234, 60, 100, 226, 50, 43, 152, 213, 81, 128, 0, 0, 0, 0, 0, 0, 0, 0, 0, 0, 0, 0, 0, 0, 0, 0, 0, 0, 0, 0, 0, 0, 0, 0, 0, 0, 0, 0, 0, 3, 0]" by (simp add: pad_eval)
  from sha256_two_blocks [OF this _ _ block3 [OF sha_init_nats [unfolded initial_nats_def]] block4]
  show ?thesis by (simp add: digest_eval)
qed

lemma hmac1: "hmac_sha256 [115, 116, 121, 114, 101, 110, 101, 45, 105, 100, 101, 110, 116, 105, 116, 121, 45, 118, 49] [66, 66, 66, 66, 66, 66, 66, 66, 66, 66, 66, 66, 66, 66, 66, 66, 66, 66, 66, 66, 66, 66, 66, 66, 66, 66, 66, 66, 66, 66, 66, 66] = [68, 163, 211, 128, 193, 16, 173, 181, 231, 150, 64, 147, 75, 148, 236, 224, 55, 79, 157, 254, 165, 255, 175, 209, 199, 2, 24, 138, 163, 234, 67, 162]"
  by (simp add: hmac_eval hash1 hash2)

lemma block5:
  "nats s = (1779033703, 3144134277, 1013904242, 2773480762, 1359893119, 2600822924, 528734635, 1541459225) \<Longrightarrow>
   nats (sha_step s [114, 149, 229, 182, 247, 38, 155, 131, 209, 160, 118, 165, 125, 162, 218, 214, 1, 121, 171, 200, 147, 201, 153, 231, 241, 52, 46, 188, 149, 220, 117, 148, 54, 54, 54, 54, 54, 54, 54, 54, 54, 54, 54, 54, 54, 54, 54, 54, 54, 54, 54, 54, 54, 54, 54, 54, 54, 54, 54, 54, 54, 54, 54, 54]) =
     (1129283323, 2469741462, 3079304168, 2024575997, 3871293835, 1694205098, 784548356, 2363119318)"
proof (rule sha_step_nats)
  show "length [114, 149, 229, 182, 247, 38, 155, 131, 209, 160, 118, 165, 125, 162, 218, 214, 1, 121, 171, 200, 147, 201, 153, 231, 241, 52, 46, 188, 149, 220, 117, 148, 54, 54, 54, 54, 54, 54, 54, 54, 54, 54, 54, 54, 54, 54, 54, 54, 54, 54, 54, 54, 54, 54, 54, 54, 54, 54, 54, 54, 54, 54, 54, 54] = 64" by simp
  show "block_words [114, 149, 229, 182, 247, 38, 155, 131, 209, 160, 118, 165, 125, 162, 218, 214, 1, 121, 171, 200, 147, 201, 153, 231, 241, 52, 46, 188, 149, 220, 117, 148, 54, 54, 54, 54, 54, 54, 54, 54, 54, 54, 54, 54, 54, 54, 54, 54, 54, 54, 54, 54, 54, 54, 54, 54, 54, 54, 54, 54, 54, 54, 54, 54] =
      [1922426294, 4146502531, 3516954277, 2107824854, 24751048, 2479462887, 4046728892, 2514253204, 909522486, 909522486, 909522486, 909522486, 909522486, 909522486, 909522486, 909522486]" by (simp add: block_eval)
  show "nsched 48 (rev [1922426294, 4146502531, 3516954277, 2107824854, 24751048, 2479462887, 4046728892, 2514253204, 909522486, 909522486, 909522486, 909522486, 909522486, 909522486, 909522486, 909522486]) =
      [1973605578, 3807186287, 1690489917, 2087758617, 2753521038, 3481447923, 1321207057, 125228005, 2715097639, 2350852001, 2966266541, 153065104, 4289689747, 2295858360, 3819618762, 4073962705, 3944752706, 1862559584, 2774371172, 150365861, 3323997729, 3414360687, 2431392282, 2332631690, 4244401001, 2427106450, 1414801280, 1561751052, 892884102, 4177292100, 1947505373, 297910465, 4210258536, 1615998182, 3050965282, 29420148, 133759422, 2759099250, 233693030, 1333099415, 3665813159, 4153634434, 308638083, 2520705061, 1953272587, 3688822914, 1466653786, 1183240138, 909522486, 909522486, 909522486, 909522486, 909522486, 909522486, 909522486, 909522486, 2514253204, 4046728892, 2479462887, 24751048, 2107824854, 3516954277, 4146502531, 1922426294]" by (simp add: sha_eval)
  show "nrounds round_constants (rev [1973605578, 3807186287, 1690489917, 2087758617, 2753521038, 3481447923, 1321207057, 125228005, 2715097639, 2350852001, 2966266541, 153065104, 4289689747, 2295858360, 3819618762, 4073962705, 3944752706, 1862559584, 2774371172, 150365861, 3323997729, 3414360687, 2431392282, 2332631690, 4244401001, 2427106450, 1414801280, 1561751052, 892884102, 4177292100, 1947505373, 297910465, 4210258536, 1615998182, 3050965282, 29420148, 133759422, 2759099250, 233693030, 1333099415, 3665813159, 4153634434, 308638083, 2520705061, 1953272587, 3688822914, 1466653786, 1183240138, 909522486, 909522486, 909522486, 909522486, 909522486, 909522486, 909522486, 909522486, 2514253204, 4046728892, 2479462887, 24751048, 2107824854, 3516954277, 4146502531, 1922426294]) (1779033703, 3144134277, 1013904242, 2773480762, 1359893119, 2600822924, 528734635, 1541459225) =
      (3645216916, 3620574481, 2065399926, 3546062531, 2511400716, 3388349470, 255813721, 821660093)" by (simp add: sha_eval)
  show "nplus (1779033703, 3144134277, 1013904242, 2773480762, 1359893119, 2600822924, 528734635, 1541459225) (3645216916, 3620574481, 2065399926, 3546062531, 2511400716, 3388349470, 255813721, 821660093) = (1129283323, 2469741462, 3079304168, 2024575997, 3871293835, 1694205098, 784548356, 2363119318)" by (simp add: mask_numeral)
qed

lemma block6:
  "nats s = (1129283323, 2469741462, 3079304168, 2024575997, 3871293835, 1694205098, 784548356, 2363119318) \<Longrightarrow>
   nats (sha_step s [115, 116, 121, 114, 101, 110, 101, 45, 114, 110, 115, 45, 115, 105, 103, 110, 105, 110, 103, 45, 118, 49, 1, 128, 0, 0, 0, 0, 0, 0, 0, 0, 0, 0, 0, 0, 0, 0, 0, 0, 0, 0, 0, 0, 0, 0, 0, 0, 0, 0, 0, 0, 0, 0, 0, 0, 0, 0, 0, 0, 0, 0, 2, 184]) =
     (3754440405, 2140181023, 399263333, 635648942, 415359707, 2536933810, 862280466, 4143206393)"
proof (rule sha_step_nats)
  show "length [115, 116, 121, 114, 101, 110, 101, 45, 114, 110, 115, 45, 115, 105, 103, 110, 105, 110, 103, 45, 118, 49, 1, 128, 0, 0, 0, 0, 0, 0, 0, 0, 0, 0, 0, 0, 0, 0, 0, 0, 0, 0, 0, 0, 0, 0, 0, 0, 0, 0, 0, 0, 0, 0, 0, 0, 0, 0, 0, 0, 0, 0, 2, 184] = 64" by simp
  show "block_words [115, 116, 121, 114, 101, 110, 101, 45, 114, 110, 115, 45, 115, 105, 103, 110, 105, 110, 103, 45, 118, 49, 1, 128, 0, 0, 0, 0, 0, 0, 0, 0, 0, 0, 0, 0, 0, 0, 0, 0, 0, 0, 0, 0, 0, 0, 0, 0, 0, 0, 0, 0, 0, 0, 0, 0, 0, 0, 0, 0, 0, 0, 2, 184] =
      [1937013106, 1701733677, 1919841069, 1936287598, 1768843053, 1982923136, 0, 0, 0, 0, 0, 0, 0, 0, 0, 696]" by (simp add: block_eval)
  show "nsched 48 (rev [1937013106, 1701733677, 1919841069, 1936287598, 1768843053, 1982923136, 0, 0, 0, 0, 0, 0, 0, 0, 0, 696]) =
      [2601570883, 3602424389, 1437849500, 4022389919, 1051058606, 774832171, 2700288882, 526182614, 2802974910, 35127597, 1033294170, 2844389464, 1952098668, 3976765350, 1769683299, 2205318472, 3427832132, 4219152190, 1532508154, 1609261549, 2514668451, 3906912677, 2363891809, 1519426735, 4266222241, 1797032797, 2872186198, 3031384848, 833561684, 2125762578, 380839849, 1714723254, 239329347, 2693827957, 3618411278, 3628289831, 2242027714, 466291427, 1761610719, 3187128843, 1637975337, 3545503809, 4095226569, 2165606176, 4049548856, 1993742170, 786150213, 1117831846, 696, 0, 0, 0, 0, 0, 0, 0, 0, 0, 1982923136, 1768843053, 1936287598, 1919841069, 1701733677, 1937013106]" by (simp add: sha_eval)
  show "nrounds round_constants (rev [2601570883, 3602424389, 1437849500, 4022389919, 1051058606, 774832171, 2700288882, 526182614, 2802974910, 35127597, 1033294170, 2844389464, 1952098668, 3976765350, 1769683299, 2205318472, 3427832132, 4219152190, 1532508154, 1609261549, 2514668451, 3906912677, 2363891809, 1519426735, 4266222241, 1797032797, 2872186198, 3031384848, 833561684, 2125762578, 380839849, 1714723254, 239329347, 2693827957, 3618411278, 3628289831, 2242027714, 466291427, 1761610719, 3187128843, 1637975337, 3545503809, 4095226569, 2165606176, 4049548856, 1993742170, 786150213, 1117831846, 696, 0, 0, 0, 0, 0, 0, 0, 0, 0, 1982923136, 1768843053, 1936287598, 1919841069, 1701733677, 1937013106]) (1129283323, 2469741462, 3079304168, 2024575997, 3871293835, 1694205098, 784548356, 2363119318) =
      (2625157082, 3965406857, 1614926461, 2906040241, 839033168, 842728712, 77732110, 1780087075)" by (simp add: sha_eval)
  show "nplus (1129283323, 2469741462, 3079304168, 2024575997, 3871293835, 1694205098, 784548356, 2363119318) (2625157082, 3965406857, 1614926461, 2906040241, 839033168, 842728712, 77732110, 1780087075) = (3754440405, 2140181023, 399263333, 635648942, 415359707, 2536933810, 862280466, 4143206393)" by (simp add: mask_numeral)
qed

lemma hash3: "sha256 [114, 149, 229, 182, 247, 38, 155, 131, 209, 160, 118, 165, 125, 162, 218, 214, 1, 121, 171, 200, 147, 201, 153, 231, 241, 52, 46, 188, 149, 220, 117, 148, 54, 54, 54, 54, 54, 54, 54, 54, 54, 54, 54, 54, 54, 54, 54, 54, 54, 54, 54, 54, 54, 54, 54, 54, 54, 54, 54, 54, 54, 54, 54, 54, 115, 116, 121, 114, 101, 110, 101, 45, 114, 110, 115, 45, 115, 105, 103, 110, 105, 110, 103, 45, 118, 49, 1] = [223, 200, 54, 213, 127, 144, 146, 31, 23, 204, 70, 101, 37, 227, 59, 174, 24, 193, 226, 219, 151, 54, 137, 178, 51, 101, 91, 18, 246, 244, 79, 249]"
proof -
  have "sha_pad [114, 149, 229, 182, 247, 38, 155, 131, 209, 160, 118, 165, 125, 162, 218, 214, 1, 121, 171, 200, 147, 201, 153, 231, 241, 52, 46, 188, 149, 220, 117, 148, 54, 54, 54, 54, 54, 54, 54, 54, 54, 54, 54, 54, 54, 54, 54, 54, 54, 54, 54, 54, 54, 54, 54, 54, 54, 54, 54, 54, 54, 54, 54, 54, 115, 116, 121, 114, 101, 110, 101, 45, 114, 110, 115, 45, 115, 105, 103, 110, 105, 110, 103, 45, 118, 49, 1] = [114, 149, 229, 182, 247, 38, 155, 131, 209, 160, 118, 165, 125, 162, 218, 214, 1, 121, 171, 200, 147, 201, 153, 231, 241, 52, 46, 188, 149, 220, 117, 148, 54, 54, 54, 54, 54, 54, 54, 54, 54, 54, 54, 54, 54, 54, 54, 54, 54, 54, 54, 54, 54, 54, 54, 54, 54, 54, 54, 54, 54, 54, 54, 54] @ [115, 116, 121, 114, 101, 110, 101, 45, 114, 110, 115, 45, 115, 105, 103, 110, 105, 110, 103, 45, 118, 49, 1, 128, 0, 0, 0, 0, 0, 0, 0, 0, 0, 0, 0, 0, 0, 0, 0, 0, 0, 0, 0, 0, 0, 0, 0, 0, 0, 0, 0, 0, 0, 0, 0, 0, 0, 0, 0, 0, 0, 0, 2, 184]" by (simp add: pad_eval)
  from sha256_two_blocks [OF this _ _ block5 [OF sha_init_nats [unfolded initial_nats_def]] block6]
  show ?thesis by (simp add: digest_eval)
qed

lemma block7:
  "nats s = (1779033703, 3144134277, 1013904242, 2773480762, 1359893119, 2600822924, 528734635, 1541459225) \<Longrightarrow>
   nats (sha_step s [24, 255, 143, 220, 157, 76, 241, 233, 187, 202, 28, 207, 23, 200, 176, 188, 107, 19, 193, 162, 249, 163, 243, 141, 155, 94, 68, 214, 255, 182, 31, 254, 92, 92, 92, 92, 92, 92, 92, 92, 92, 92, 92, 92, 92, 92, 92, 92, 92, 92, 92, 92, 92, 92, 92, 92, 92, 92, 92, 92, 92, 92, 92, 92]) =
     (2238937410, 1351384398, 49607765, 3484034808, 1627337880, 3235722519, 353589480, 2822869480)"
proof (rule sha_step_nats)
  show "length [24, 255, 143, 220, 157, 76, 241, 233, 187, 202, 28, 207, 23, 200, 176, 188, 107, 19, 193, 162, 249, 163, 243, 141, 155, 94, 68, 214, 255, 182, 31, 254, 92, 92, 92, 92, 92, 92, 92, 92, 92, 92, 92, 92, 92, 92, 92, 92, 92, 92, 92, 92, 92, 92, 92, 92, 92, 92, 92, 92, 92, 92, 92, 92] = 64" by simp
  show "block_words [24, 255, 143, 220, 157, 76, 241, 233, 187, 202, 28, 207, 23, 200, 176, 188, 107, 19, 193, 162, 249, 163, 243, 141, 155, 94, 68, 214, 255, 182, 31, 254, 92, 92, 92, 92, 92, 92, 92, 92, 92, 92, 92, 92, 92, 92, 92, 92, 92, 92, 92, 92, 92, 92, 92, 92, 92, 92, 92, 92, 92, 92, 92, 92] =
      [419401692, 2639065577, 3150585039, 399028412, 1796456866, 4188271501, 2606646486, 4290125822, 1549556828, 1549556828, 1549556828, 1549556828, 1549556828, 1549556828, 1549556828, 1549556828]" by (simp add: block_eval)
  show "nsched 48 (rev [419401692, 2639065577, 3150585039, 399028412, 1796456866, 4188271501, 2606646486, 4290125822, 1549556828, 1549556828, 1549556828, 1549556828, 1549556828, 1549556828, 1549556828, 1549556828]) =
      [2017313733, 1615898435, 2143294606, 719057427, 2812744594, 1204676356, 4262164481, 3605543376, 557335873, 2763997013, 2578368716, 748538934, 1303105165, 3932630537, 3433900699, 347944275, 2929881065, 1516484782, 3046817626, 900399342, 2363771340, 1128524349, 1631692043, 506025587, 2663095222, 4269684431, 2470831456, 1508747121, 1736499003, 3549059328, 2175830736, 1957020050, 770981901, 3411688028, 3669284774, 3071343717, 1780793802, 2951764299, 976886072, 3447321227, 1766199431, 3782043072, 2397642197, 435072110, 3897038684, 1869648041, 2929277513, 402128759, 1549556828, 1549556828, 1549556828, 1549556828, 1549556828, 1549556828, 1549556828, 1549556828, 4290125822, 2606646486, 4188271501, 1796456866, 399028412, 3150585039, 2639065577, 419401692]" by (simp add: sha_eval)
  show "nrounds round_constants (rev [2017313733, 1615898435, 2143294606, 719057427, 2812744594, 1204676356, 4262164481, 3605543376, 557335873, 2763997013, 2578368716, 748538934, 1303105165, 3932630537, 3433900699, 347944275, 2929881065, 1516484782, 3046817626, 900399342, 2363771340, 1128524349, 1631692043, 506025587, 2663095222, 4269684431, 2470831456, 1508747121, 1736499003, 3549059328, 2175830736, 1957020050, 770981901, 3411688028, 3669284774, 3071343717, 1780793802, 2951764299, 976886072, 3447321227, 1766199431, 3782043072, 2397642197, 435072110, 3897038684, 1869648041, 2929277513, 402128759, 1549556828, 1549556828, 1549556828, 1549556828, 1549556828, 1549556828, 1549556828, 1549556828, 4290125822, 2606646486, 4188271501, 1796456866, 399028412, 3150585039, 2639065577, 419401692]) (1779033703, 3144134277, 1013904242, 2773480762, 1359893119, 2600822924, 528734635, 1541459225) =
      (459903707, 2502217417, 3330670819, 710554046, 267444761, 634899595, 4119822141, 1281410255)" by (simp add: sha_eval)
  show "nplus (1779033703, 3144134277, 1013904242, 2773480762, 1359893119, 2600822924, 528734635, 1541459225) (459903707, 2502217417, 3330670819, 710554046, 267444761, 634899595, 4119822141, 1281410255) = (2238937410, 1351384398, 49607765, 3484034808, 1627337880, 3235722519, 353589480, 2822869480)" by (simp add: mask_numeral)
qed

lemma block8:
  "nats s = (2238937410, 1351384398, 49607765, 3484034808, 1627337880, 3235722519, 353589480, 2822869480) \<Longrightarrow>
   nats (sha_step s [223, 200, 54, 213, 127, 144, 146, 31, 23, 204, 70, 101, 37, 227, 59, 174, 24, 193, 226, 219, 151, 54, 137, 178, 51, 101, 91, 18, 246, 244, 79, 249, 128, 0, 0, 0, 0, 0, 0, 0, 0, 0, 0, 0, 0, 0, 0, 0, 0, 0, 0, 0, 0, 0, 0, 0, 0, 0, 0, 0, 0, 0, 3, 0]) =
     (3433341627, 2952347977, 2855968335, 1452320208, 2845235762, 2121512423, 3176727159, 113144685)"
proof (rule sha_step_nats)
  show "length [223, 200, 54, 213, 127, 144, 146, 31, 23, 204, 70, 101, 37, 227, 59, 174, 24, 193, 226, 219, 151, 54, 137, 178, 51, 101, 91, 18, 246, 244, 79, 249, 128, 0, 0, 0, 0, 0, 0, 0, 0, 0, 0, 0, 0, 0, 0, 0, 0, 0, 0, 0, 0, 0, 0, 0, 0, 0, 0, 0, 0, 0, 3, 0] = 64" by simp
  show "block_words [223, 200, 54, 213, 127, 144, 146, 31, 23, 204, 70, 101, 37, 227, 59, 174, 24, 193, 226, 219, 151, 54, 137, 178, 51, 101, 91, 18, 246, 244, 79, 249, 128, 0, 0, 0, 0, 0, 0, 0, 0, 0, 0, 0, 0, 0, 0, 0, 0, 0, 0, 0, 0, 0, 0, 0, 0, 0, 0, 0, 0, 0, 3, 0] =
      [3754440405, 2140181023, 399263333, 635648942, 415359707, 2536933810, 862280466, 4143206393, 2147483648, 0, 0, 0, 0, 0, 0, 768]" by (simp add: block_eval)
  show "nsched 48 (rev [3754440405, 2140181023, 399263333, 635648942, 415359707, 2536933810, 862280466, 4143206393, 2147483648, 0, 0, 0, 0, 0, 0, 768]) =
      [1928213870, 2682750467, 2729569287, 470944098, 3669144534, 3844507647, 1926513363, 3332406573, 1296110079, 213773059, 3260765641, 2524990198, 2344932133, 3586652227, 2983764711, 96561292, 2651947036, 3256022644, 972135099, 2929348069, 1292628031, 2636777114, 1258256304, 398397165, 1806598033, 2456119167, 1471960815, 2542708471, 1136918481, 2589551885, 3511110070, 4011171570, 3905799785, 665606500, 1184713455, 2386517206, 4099047071, 871508388, 4229229003, 1962596129, 3776593903, 3590077107, 1012201929, 175045101, 42499917, 2749538218, 1522526162, 4115866456, 768, 0, 0, 0, 0, 0, 0, 2147483648, 4143206393, 862280466, 2536933810, 415359707, 635648942, 399263333, 2140181023, 3754440405]" by (simp add: sha_eval)
  show "nrounds round_constants (rev [1928213870, 2682750467, 2729569287, 470944098, 3669144534, 3844507647, 1926513363, 3332406573, 1296110079, 213773059, 3260765641, 2524990198, 2344932133, 3586652227, 2983764711, 96561292, 2651947036, 3256022644, 972135099, 2929348069, 1292628031, 2636777114, 1258256304, 398397165, 1806598033, 2456119167, 1471960815, 2542708471, 1136918481, 2589551885, 3511110070, 4011171570, 3905799785, 665606500, 1184713455, 2386517206, 4099047071, 871508388, 4229229003, 1962596129, 3776593903, 3590077107, 1012201929, 175045101, 42499917, 2749538218, 1522526162, 4115866456, 768, 0, 0, 0, 0, 0, 0, 2147483648, 4143206393, 862280466, 2536933810, 415359707, 635648942, 399263333, 2140181023, 3754440405]) (2238937410, 1351384398, 49607765, 3484034808, 1627337880, 3235722519, 353589480, 2822869480) =
      (1194404217, 1600963579, 2806360570, 2263252696, 1217897882, 3180757200, 2823137679, 1585242501)" by (simp add: sha_eval)
  show "nplus (2238937410, 1351384398, 49607765, 3484034808, 1627337880, 3235722519, 353589480, 2822869480) (1194404217, 1600963579, 2806360570, 2263252696, 1217897882, 3180757200, 2823137679, 1585242501) = (3433341627, 2952347977, 2855968335, 1452320208, 2845235762, 2121512423, 3176727159, 113144685)" by (simp add: mask_numeral)
qed

lemma hash4: "sha256 [24, 255, 143, 220, 157, 76, 241, 233, 187, 202, 28, 207, 23, 200, 176, 188, 107, 19, 193, 162, 249, 163, 243, 141, 155, 94, 68, 214, 255, 182, 31, 254, 92, 92, 92, 92, 92, 92, 92, 92, 92, 92, 92, 92, 92, 92, 92, 92, 92, 92, 92, 92, 92, 92, 92, 92, 92, 92, 92, 92, 92, 92, 92, 92, 223, 200, 54, 213, 127, 144, 146, 31, 23, 204, 70, 101, 37, 227, 59, 174, 24, 193, 226, 219, 151, 54, 137, 178, 51, 101, 91, 18, 246, 244, 79, 249] = [204, 164, 162, 187, 175, 249, 65, 73, 170, 58, 158, 79, 86, 144, 165, 208, 169, 150, 218, 50, 126, 115, 181, 231, 189, 89, 2, 119, 6, 190, 115, 109]"
proof -
  have "sha_pad [24, 255, 143, 220, 157, 76, 241, 233, 187, 202, 28, 207, 23, 200, 176, 188, 107, 19, 193, 162, 249, 163, 243, 141, 155, 94, 68, 214, 255, 182, 31, 254, 92, 92, 92, 92, 92, 92, 92, 92, 92, 92, 92, 92, 92, 92, 92, 92, 92, 92, 92, 92, 92, 92, 92, 92, 92, 92, 92, 92, 92, 92, 92, 92, 223, 200, 54, 213, 127, 144, 146, 31, 23, 204, 70, 101, 37, 227, 59, 174, 24, 193, 226, 219, 151, 54, 137, 178, 51, 101, 91, 18, 246, 244, 79, 249] = [24, 255, 143, 220, 157, 76, 241, 233, 187, 202, 28, 207, 23, 200, 176, 188, 107, 19, 193, 162, 249, 163, 243, 141, 155, 94, 68, 214, 255, 182, 31, 254, 92, 92, 92, 92, 92, 92, 92, 92, 92, 92, 92, 92, 92, 92, 92, 92, 92, 92, 92, 92, 92, 92, 92, 92, 92, 92, 92, 92, 92, 92, 92, 92] @ [223, 200, 54, 213, 127, 144, 146, 31, 23, 204, 70, 101, 37, 227, 59, 174, 24, 193, 226, 219, 151, 54, 137, 178, 51, 101, 91, 18, 246, 244, 79, 249, 128, 0, 0, 0, 0, 0, 0, 0, 0, 0, 0, 0, 0, 0, 0, 0, 0, 0, 0, 0, 0, 0, 0, 0, 0, 0, 0, 0, 0, 0, 3, 0]" by (simp add: pad_eval)
  from sha256_two_blocks [OF this _ _ block7 [OF sha_init_nats [unfolded initial_nats_def]] block8]
  show ?thesis by (simp add: digest_eval)
qed

lemma hmac2: "hmac_sha256 [68, 163, 211, 128, 193, 16, 173, 181, 231, 150, 64, 147, 75, 148, 236, 224, 55, 79, 157, 254, 165, 255, 175, 209, 199, 2, 24, 138, 163, 234, 67, 162] [115, 116, 121, 114, 101, 110, 101, 45, 114, 110, 115, 45, 115, 105, 103, 110, 105, 110, 103, 45, 118, 49, 1] = [204, 164, 162, 187, 175, 249, 65, 73, 170, 58, 158, 79, 86, 144, 165, 208, 169, 150, 218, 50, 126, 115, 181, 231, 189, 89, 2, 119, 6, 190, 115, 109]"
  by (simp add: hmac_eval hash3 hash4)

subsection \<open>The signing seed\<close>

lemma salt_bytes: "HKDF_SALT = [115, 116, 121, 114, 101, 110, 101, 45, 105, 100, 101, 110, 116, 105, 116, 121, 45, 118, 49]"
  by (simp add: HKDF_SALT_def str_bytes_def)

lemma info_bytes: "str_bytes ''styrene-rns-signing-v1'' = [115, 116, 121, 114, 101, 110, 101, 45, 114, 110, 115, 45, 115, 105, 103, 110, 105, 110, 103, 45, 118, 49]"
  by (simp add: str_bytes_def)

lemma root_bytes: "replicate 32 (0x42 :: byte) = [66, 66, 66, 66, 66, 66, 66, 66, 66, 66, 66, 66, 66, 66, 66, 66, 66, 66, 66, 66, 66, 66, 66, 66, 66, 66, 66, 66, 66, 66, 66, 66]"
  by (simp add: numeral_evals(3))

lemma signing_seed_bytes:
  "path_key ref_crates (replicate 32 0x42) (Flat (str_bytes ''styrene-rns-signing-v1'')) =
     [204, 164, 162, 187, 175, 249, 65, 73, 170, 58, 158, 79, 86, 144, 165, 208, 169, 150, 218, 50, 126, 115, 181, 231, 189, 89, 2, 119, 6, 190, 115, 109]"
proof -
  have "path_key ref_crates (replicate 32 0x42) (Flat (str_bytes ''styrene-rns-signing-v1''))
      = take 32 (hmac_sha256 (hmac_sha256 HKDF_SALT (replicate 32 0x42)) (str_bytes ''styrene-rns-signing-v1'' @ [1]))"
    by (simp add: path_key_def expand_call_def hkdf_expand_ref_def Let_def)
  then show ?thesis by (simp add: salt_bytes info_bytes root_bytes hmac1 hmac2)
qed

lemma seed_text: "hex_encode ref_crates [204, 164, 162, 187, 175, 249, 65, 73, 170, 58, 158, 79, 86, 144, 165, 208, 169, 150, 218, 50, 126, 115, 181, 231, 189, 89, 2, 119, 6, 190, 115, 109]
    = ''cca4a2bbaff94149aa3a9e4f5690a5d0a996da327e73b5e7bd59027706be736d''"
  by (simp add: ref_crates_def hex_digit_def digit_char_def char_of_eq_iff)

subsection \<open>Properties\<close>

text \<open>
  C39: The committed test vector: with SHA-256 and HKDF as the standards define them, the derivation
  document's entry for the identity key shows the info text and the seed that
  \<^verbatim>\<open>tests/test-vectors.json\<close> holds, and the deprecated purposes derive the same seed.
\<close>

theorem committed_signing_seed:
  "let K = ref_crates; root = replicate 32 0x42;
       text = ''cca4a2bbaff94149aa3a9e4f5690a5d0a996da327e73b5e7bd59027706be736d''
   in map_option (hex_encode K) (derive K (KeyDeriver_new K root) Signing) = Some text
     \<and> derive K (KeyDeriver_new K root) RnsSigning = derive K (KeyDeriver_new K root) Signing
     \<and> derive K (KeyDeriver_new K root) GitSigning = derive K (KeyDeriver_new K root) Signing
     \<and> (\<exists>doc e. derivation_vectors K = Some (Inr doc) \<and> dv_flat_purposes doc ''Signing'' = Some e
          \<and> fe_info e = ''styrene-rns-signing-v1'' \<and> fe_seed_hex e = text)"
proof -
  let ?root = "replicate 32 0x42 :: byte list"
  let ?seed = "path_key ref_crates ?root (Flat (str_bytes ''styrene-rns-signing-v1''))"
  have derived: "derive ref_crates (KeyDeriver_new ref_crates ?root) p = Some ?seed"
    if "p \<in> {Signing, RnsSigning, GitSigning}" for p
    using that by (auto simp: kdf_crate.derive_path [OF ref_kdf.kdf_crate_axioms])
  have "expected_entry ref_crates ?root Signing = \<lparr> fe_info = ''styrene-rns-signing-v1'',
      fe_seed_hex = hex_encode ref_crates ?seed, fe_pubkey = flat_pubkey ref_crates Signing ?seed \<rparr>"
    by (simp add: expected_entry_def flat_pubkey_expected Let_def chars_of_str_bytes)
  then show ?thesis
    using derived kdf_crate.derivation_vectors_eq [OF ref_kdf.kdf_crate_axioms]
    by (simp add: Let_def purpose_all_def identity_seed_def signing_seed_bytes seed_text)
qed

end
