(* ===== verification/Json.thy ===== *)
theory Json
  imports RefCrates "HOL-Library.List_Lexorder" "HOL-Library.Char_ord"
begin

text \<open>
  JSON documents as \<^verbatim>\<open>serde_json\<close> keeps them: a value is a tree whose objects are ordered maps, printing
  and reading are a parameter with the documented round trip, and a small codec shows that the law
  can hold.
\<close>

subsection \<open>Values\<close>

text \<open>\<^verbatim>\<open>serde_json::Value\<close>; an object lists the entries of its \<^verbatim>\<open>BTreeMap\<close> in key order.\<close>

datatype json =
    JNull
  | JNumber nat
  | JString string
  | JArray "json list"
  | JObject "(string \<times> json) list"

fun json_insert :: "string \<Rightarrow> json \<Rightarrow> (string \<times> json) list \<Rightarrow> (string \<times> json) list" where
  "json_insert k v [] = [(k, v)]"
| "json_insert k v ((k', v') # m) =
     (if k < k' then (k, v) # (k', v') # m
      else if k = k' then (k, v) # m
      else (k', v') # json_insert k v m)"

text \<open>The macro \<^verbatim>\<open>json!\<close> on an object: its entries are inserted one by one.\<close>

definition json_object :: "(string \<times> json) list \<Rightarrow> json" where
  "json_object entries = JObject (foldl (\<lambda>m (k, v). json_insert k v m) [] entries)"

text \<open>The entries of a finite map, in key order.\<close>

definition json_map :: "('a \<Rightarrow> json) \<Rightarrow> (string \<rightharpoonup> 'a) \<Rightarrow> json" where
  "json_map f m = JObject (map (\<lambda>k. (k, f (the (m k)))) (sorted_list_of_set (dom m)))"

fun wf_json :: "json \<Rightarrow> bool" where
  "wf_json (JArray vs) \<longleftrightarrow> (\<forall>v \<in> set vs. wf_json v)"
| "wf_json (JObject m) \<longleftrightarrow> sorted_wrt (<) (map fst m) \<and> (\<forall>e \<in> set m. wf_json (snd e))"
| "wf_json (JNumber n) \<longleftrightarrow> n < 2 ^ 64"
| "wf_json _ \<longleftrightarrow> True"

text \<open>Arrays and objects inside each other at most so many levels deep.\<close>

fun nested :: "nat \<Rightarrow> json \<Rightarrow> bool" where
  "nested k (JArray vs) \<longleftrightarrow> 0 < k \<and> (\<forall>v \<in> set vs. nested (k - 1) v)"
| "nested k (JObject m) \<longleftrightarrow> 0 < k \<and> (\<forall>e \<in> set m. nested (k - 1) (snd e))"
| "nested _ _ \<longleftrightarrow> True"

text \<open>Indexing with a key that is not there, or something that is no object, is \<^verbatim>\<open>Null\<close>.\<close>

fun json_get :: "json \<Rightarrow> string \<Rightarrow> json" where
  "json_get (JObject m) k = (case map_of m k of Some v \<Rightarrow> v | None \<Rightarrow> JNull)"
| "json_get _ _ = JNull"

fun as_str :: "json \<Rightarrow> string option" where
  "as_str (JString s) = Some s"
| "as_str _ = None"

fun as_array :: "json \<Rightarrow> json list option" where
  "as_array (JArray vs) = Some vs"
| "as_array _ = None"

fun as_u64 :: "json \<Rightarrow> nat option" where
  "as_u64 (JNumber n) = (if n < 2 ^ 64 then Some n else None)"
| "as_u64 _ = None"

definition json_opt :: "('a \<Rightarrow> json) \<Rightarrow> 'a option \<Rightarrow> json" where
  "json_opt f x = (case x of None \<Rightarrow> JNull | Some a \<Rightarrow> f a)"

lemma json_opt_simps [simp]: "json_opt f None = JNull" "json_opt f (Some a) = f a"
  by (simp_all add: json_opt_def)

subsection \<open>Objects are maps\<close>

lemma map_of_json_insert [simp]: "map_of (json_insert k v m) = (map_of m)(k \<mapsto> v)"
  by (induction k v m rule: json_insert.induct) (auto simp: fun_eq_iff)

lemma fst_json_insert [simp]: "fst ` set (json_insert k v m) = insert k (fst ` set m)"
  by (induction k v m rule: json_insert.induct) auto

lemma sorted_json_insert: "sorted_wrt (<) (map fst m) \<Longrightarrow> sorted_wrt (<) (map fst (json_insert k v m))"
proof (induction k v m rule: json_insert.induct)
  case (2 k v k' v' m)
  have keys: "set (map fst (json_insert k v m)) = insert k (set (map fst m))" by simp
  have "\<forall>y \<in> set (map fst (json_insert k v m)). k' < y" if "k' < k" "\<forall>y \<in> set (map fst m). k' < y"
    unfolding keys using that by simp
  with 2 show ?case by (auto dest: order.strict_trans simp: not_less_iff_gr_or_eq)
qed simp

lemma values_json_insert: "e \<in> set (json_insert k v m) \<Longrightarrow> e = (k, v) \<or> e \<in> set m"
  by (induction k v m rule: json_insert.induct) (auto split: if_splits)

lemma wf_json_object: "(\<forall>e \<in> set entries. wf_json (snd e)) \<Longrightarrow> wf_json (json_object entries)"
proof (induction entries rule: rev_induct)
  case (snoc e entries)
  obtain k v where e: "e = (k, v)" by (cases e)
  from snoc have "wf_json (json_object entries)" "wf_json v" by (simp_all add: e)
  then show ?case
    using values_json_insert by (fastforce simp: json_object_def e sorted_json_insert)
qed (simp add: json_object_def)

lemma nested_json_object:
  assumes "0 < k" and "\<forall>e \<in> set entries. nested (k - 1) (snd e)"
  shows "nested k (json_object entries)"
  using assms(2)
proof (induction entries rule: rev_induct)
  case (snoc e entries)
  obtain k v where e: "e = (k, v)" by (cases e)
  from snoc show ?case
    using values_json_insert by (fastforce simp: json_object_def e)
qed (use assms(1) in \<open>simp add: json_object_def\<close>)

lemma foldl_json_insert:
  "map_of (foldl (\<lambda>m (k, v). json_insert k v m) m entries) = map_of m ++ map_of (rev entries)"
  by (induction entries arbitrary: m) (auto simp: fun_eq_iff map_add_def split: option.splits)

lemma json_get_object:
  "json_get (json_object entries) k = (case map_of (rev entries) k of Some v \<Rightarrow> v | None \<Rightarrow> JNull)"
  by (simp add: json_object_def foldl_json_insert)

lemma json_get_map:
  assumes "finite (dom m)"
  shows "json_get (json_map f m) k = (case m k of Some a \<Rightarrow> f a | None \<Rightarrow> JNull)"
proof -
  have "map_of (map (\<lambda>k. (k, f (the (m k)))) ks) k = (if k \<in> set ks then Some (f (the (m k))) else None)" for ks
    by (induction ks) auto
  with assms show ?thesis by (auto simp: json_map_def dom_def split: option.split)
qed

lemma wf_json_map:
  assumes "finite (dom m)" and "\<And>k a. m k = Some a \<Longrightarrow> wf_json (f a)"
  shows "wf_json (json_map f m)"
  using assms by (auto simp: json_map_def comp_def sorted_wrt_map strict_sorted_list_of_set)

lemma nested_json_map:
  assumes "finite (dom m)" and "0 < k" and "\<And>l a. m l = Some a \<Longrightarrow> nested (k - 1) (f a)"
  shows "nested k (json_map f m)"
  using assms by (auto simp: json_map_def)

subsection \<open>Printing and reading\<close>

record serde_json =
  to_string_pretty :: "json \<Rightarrow> string + string"
  from_slice :: "byte list \<Rightarrow> string + json"

definition from_str :: "serde_json \<Rightarrow> string \<Rightarrow> string + json" where
  "from_str S text = from_slice S (str_bytes text)"

definition newline :: string where
  "newline = [char_of (10 :: nat)]"

text \<open>
  A value with numbers of 64 bits prints.  When it is nested no deeper than the reader's recursion
  limit of 128 allows, what is printed reads back as the value, and white space after it does not
  matter.
\<close>

locale json_crate =
  fixes S :: serde_json
  assumes prints: "wf_json v \<Longrightarrow> nested 127 v \<Longrightarrow> \<exists>text. to_string_pretty S v = Inr text
      \<and> from_slice S (str_bytes text) = Inr v \<and> from_slice S (str_bytes (text @ newline)) = Inr v"

subsection \<open>A codec that satisfies the law\<close>

definition mark_end :: char where
  "mark_end = char_of (46 :: nat)"

definition mark :: char where
  "mark = char_of (43 :: nat)"

fun put_text :: "string \<Rightarrow> string" where
  "put_text [] = [mark_end]"
| "put_text (c # s) = mark # c # put_text s"

fun put_json :: "json \<Rightarrow> string" where
  "put_json JNull = ''n''"
| "put_json (JNumber n) = ''d'' @ put_text (replicate n mark)"
| "put_json (JString s) = ''s'' @ put_text s"
| "put_json (JArray vs) = ''a'' @ concat (map (\<lambda>v. mark # put_json v) vs) @ [mark_end]"
| "put_json (JObject m) = ''o'' @ concat (map (\<lambda>e. mark # put_text (fst e) @ put_json (snd e)) m) @ [mark_end]"

fun get_text :: "string \<Rightarrow> (string \<times> string) option" where
  "get_text (m # r) =
     (if m = mark_end then Some ([], r)
      else case r of [] \<Rightarrow> None | c # r' \<Rightarrow> map_option (\<lambda>(s, r''). (c # s, r'')) (get_text r'))"
| "get_text [] = None"

text \<open>The fuel bounds the depth and the lengths; the length of the text is enough.\<close>

fun get_json :: "nat \<Rightarrow> string \<Rightarrow> (json \<times> string) option"
  and get_items :: "nat \<Rightarrow> string \<Rightarrow> (json list \<times> string) option"
  and get_fields :: "nat \<Rightarrow> string \<Rightarrow> ((string \<times> json) list \<times> string) option" where
  "get_json (Suc k) (c # r) =
     (if c = CHR ''n'' then Some (JNull, r)
      else if c = CHR ''d'' then map_option (\<lambda>(s, r). (JNumber (length s), r)) (get_text r)
      else if c = CHR ''s'' then map_option (\<lambda>(s, r). (JString s, r)) (get_text r)
      else if c = CHR ''a'' then map_option (\<lambda>(vs, r). (JArray vs, r)) (get_items k r)
      else if c = CHR ''o'' then map_option (\<lambda>(m, r). (JObject m, r)) (get_fields k r)
      else None)"
| "get_json _ _ = None"
| "get_items (Suc k) (c # r) =
     (if c = mark_end then Some ([], r)
      else do { (v, r) \<leftarrow> get_json k r; (vs, r) \<leftarrow> get_items k r; Some (v # vs, r) })"
| "get_items _ _ = None"
| "get_fields (Suc k) (c # r) =
     (if c = mark_end then Some ([], r)
      else do { (s, r) \<leftarrow> get_text r; (v, r) \<leftarrow> get_json k r; (m, r) \<leftarrow> get_fields k r; Some ((s, v) # m, r) })"
| "get_fields _ _ = None"

lemma marks [simp]: "mark \<noteq> mark_end" "mark_end \<noteq> mark"
  by (simp_all add: mark_def mark_end_def)

lemma get_put_text [simp]: "get_text (put_text s @ r) = Some (s, r)"
  by (induction s) auto

lemma get_put_json: "length (put_json v) \<le> k \<Longrightarrow> get_json k (put_json v @ r) = Some (v, r)"
proof (induction v arbitrary: k r)
  case (JArray vs)
  have items: "length (concat (map (\<lambda>v. mark # put_json v) vs)) < k \<Longrightarrow>
      get_items k (concat (map (\<lambda>v. mark # put_json v) vs) @ mark_end # r) = Some (vs, r)" for k
    using JArray.IH
  proof (induction vs arbitrary: k)
    case Nil
    then show ?case by (cases k) simp_all
  next
    case (Cons v vs)
    then obtain j where k: "k = Suc j" by (cases k) simp_all
    from Cons.prems(1) have len: "length (put_json v) \<le> j" "length (concat (map (\<lambda>v. mark # put_json v) vs)) < j"
      by (simp_all add: k)
    have "get_json j (put_json v @ concat (map (\<lambda>v. mark # put_json v) vs) @ mark_end # r)
        = Some (v, concat (map (\<lambda>v. mark # put_json v) vs) @ mark_end # r)"
      using Cons.prems(2) len(1) by simp
    moreover have "get_items j (concat (map (\<lambda>v. mark # put_json v) vs) @ mark_end # r) = Some (vs, r)"
      using Cons.IH [OF len(2)] Cons.prems(2) by simp
    ultimately show ?case by (simp add: k)
  qed
  from JArray.prems obtain j where k: "k = Suc j" by (cases k) simp_all
  from JArray.prems items [of j] show ?case by (simp add: k)
next
  case (JObject m)
  let ?put = "\<lambda>e. mark # put_text (fst e) @ put_json (snd e)"
  have fields: "length (concat (map ?put m)) < k \<Longrightarrow>
      get_fields k (concat (map ?put m) @ mark_end # r) = Some (m, r)" for k
    using JObject.IH
  proof (induction m arbitrary: k)
    case Nil
    then show ?case by (cases k) simp_all
  next
    case (Cons e m)
    obtain s v where e: "e = (s, v)" by (cases e)
    from Cons.prems(1) obtain j where k: "k = Suc j" by (cases k) simp_all
    from Cons.prems(1) have len: "length (put_json v) \<le> j" "length (concat (map ?put m)) < j"
      by (simp_all add: k e)
    have "get_json j (put_json v @ concat (map ?put m) @ mark_end # r)
        = Some (v, concat (map ?put m) @ mark_end # r)"
      using Cons.prems(2) [of e v] len(1) by (simp add: e)
    moreover have "get_fields j (concat (map ?put m) @ mark_end # r) = Some (m, r)"
      using Cons.IH [OF len(2)] Cons.prems(2) by (meson list.set_intros(2))
    ultimately show ?case by (simp add: k e)
  qed
  from JObject.prems obtain j where k: "k = Suc j" by (cases k) simp_all
  from JObject.prems fields [of j] show ?case by (simp add: k)
qed (case_tac [!] k; simp)+

definition text_of_bytes :: "byte list \<Rightarrow> string" where
  "text_of_bytes d = map (\<lambda>b. char_of (unat b)) d"

lemma text_of_str_bytes [simp]: "text_of_bytes (str_bytes s) = s"
  by (simp add: text_of_bytes_def chars_of_str_bytes)

definition ref_json :: serde_json where
  "ref_json = \<lparr> to_string_pretty = (\<lambda>v. Inr (put_json v)),
     from_slice = (\<lambda>d. case get_json (length d) (text_of_bytes d) of
        Some (v, r) \<Rightarrow> if r \<in> {[], newline} then Inr v else Inl ''trailing characters''
      | None \<Rightarrow> Inl ''expected value'') \<rparr>"

interpretation ref_json: json_crate ref_json
proof
  fix v
  have "get_json (length (str_bytes (put_json v @ r))) (put_json v @ r) = Some (v, r)" for r
    by (rule get_put_json) simp
  from this [of "[]"] this [of newline]
  show "\<exists>text. to_string_pretty ref_json v = Inr text \<and> from_slice ref_json (str_bytes text) = Inr v
      \<and> from_slice ref_json (str_bytes (text @ newline)) = Inr v"
    by (simp add: ref_json_def del: str_bytes_append)
qed

end
