(* ===== verification/Generators.thy ===== *)
theory Generators
  imports Json PublishedVectors Vault
begin

text \<open>
  The three programs under \<^verbatim>\<open>examples/\<close> from their arguments to the file they write: the JSON documents,
  \<^verbatim>\<open>std::fs::write\<close>, which truncates and fills an existing file in place, and \<^verbatim>\<open>main\<close>.
\<close>

subsection \<open>Writing a whole file\<close>

text \<open>Mode \<^verbatim>\<open>0o666\<close> under the usual mask \<^verbatim>\<open>022\<close>.\<close>

definition shared_mode :: nat where
  "shared_mode = 6 * 64 + 4 * 8 + 4"

text \<open>\<^verbatim>\<open>O_CREAT | O_TRUNC\<close>.\<close>

definition truncate_call :: "string list \<Rightarrow> nat \<Rightarrow> nat call" where
  "truncate_call n m fault f =
     (case fault of
        Some (k, _) \<Rightarrow> (Inl k, [])
      | None \<Rightarrow>
          (case parent_error f n of
             Some k \<Rightarrow> (Inl k, [])
           | None \<Rightarrow>
               if n = [] then (Inl IsADirectory, [])
               else (case nodes f n of
                  Some Dir \<Rightarrow> (Inl IsADirectory, [])
                | Some (File i) \<Rightarrow> (Inr i, [set_data f i []])
                | None \<Rightarrow> (Inr (length (inodes f)),
                     [f \<lparr> nodes := (nodes f)(n \<mapsto> File (length (inodes f))),
                          inodes := inodes f @ [\<lparr> f_data = [], f_mode = m, f_mine = True \<rparr>] \<rparr>]))))"

definition fs_write :: "path \<Rightarrow> byte list \<Rightarrow> ('z world_scheme, io_kind, unit) io" where
  "fs_write p d =
     io_bind (io_act (on_path p (\<lambda>n. truncate_call n shared_mode))) (\<lambda>h. write_all h d)"

text \<open>The disk after a whole write: an existing file keeps its inode and mode.\<close>

definition overwritten :: "string list \<Rightarrow> byte list \<Rightarrow> fs \<Rightarrow> fs" where
  "overwritten n d f =
     (case nodes f n of
        Some (File i) \<Rightarrow> set_data f i d
      | _ \<Rightarrow> f \<lparr> nodes := (nodes f)(n \<mapsto> File (length (inodes f))),
          inodes := inodes f @ [\<lparr> f_data = d, f_mode = shared_mode, f_mine = True \<rparr>] \<rparr>)"

lemma calm_fs_write:
  assumes "calm w" and "wf_fs (disk w)" and "\<not> path_empty p" and "name_of (cwd w) p \<noteq> []"
    and "dir_at (disk w) (butlast (name_of (cwd w) p))" and "nodes (disk w) (name_of (cwd w) p) \<noteq> Some Dir"
  shows "\<exists>w'. fs_write p d w = Some (Inr (), w') \<and> calm_after w (overwritten (name_of (cwd w) p) d (disk w)) w'"
proof -
  let ?n = "name_of (cwd w) p" and ?f = "disk w"
  obtain h g where call: "truncate_call ?n shared_mode None ?f = (Inr h, [g])"
    and full: "overwritten ?n d ?f = set_data g h d" and h: "h < length (inodes g)" "f_data (inodes g ! h) = []"
  proof (cases "nodes ?f ?n")
    case None
    define g where "g = ?f \<lparr> nodes := (nodes ?f)(?n \<mapsto> File (length (inodes ?f))),
      inodes := inodes ?f @ [\<lparr> f_data = [], f_mode = shared_mode, f_mine = True \<rparr>] \<rparr>"
    show ?thesis
      by (rule that [of "length (inodes ?f)" g])
        (use None assms(4,5) in \<open>simp_all add: truncate_call_def parent_error_def overwritten_def set_data_def g_def\<close>)
  next
    case (Some x)
    with assms(6) obtain i where i: "x = File i" by (cases x) auto
    have "i < length (inodes ?f)" using assms(2) Some i by (simp add: wf_fs_def)
    with Some i assms(4,5) show ?thesis
      by (intro that [of i "set_data ?f i []"])
        (simp_all add: truncate_call_def parent_error_def overwritten_def set_data_def)
  qed
  obtain w1 where w1: "on_path p (\<lambda>n. truncate_call n shared_mode) w = (Inr h, w1)" "calm_after w g w1"
    using calm_on_path [where op = "\<lambda>n. truncate_call n shared_mode", OF assms(1,3) call] by auto
  then have c1: "calm w1" "disk w1 = g" by (simp_all add: calm_after_def)
  define sts where "sts = map (\<lambda>k. set_data g h (take k d)) [0..<length d + 1]"
  have "write_call h d None (disk w1) = (Inr (), sts)"
    using h by (simp add: write_call_def Let_def sts_def c1)
  moreover have "last (disk w1 # sts) = set_data g h d" by (simp add: sts_def)
  ultimately obtain w2 where "write_all h d w1 = Some (Inr (), w2)" "calm_after w1 (set_data g h d) w2"
    using calm_syscall [where op = "write_call h d", OF c1(1)] by (fastforce simp: write_all_def)
  with w1 show ?thesis
    unfolding full by (intro exI [of _ w2]) (simp add: fs_write_def io_bind_def calm_after_def)
qed

lemma custody_overwritten:
  assumes "wf_fs f" and "nodes f n \<noteq> Some Dir"
  shows "\<exists>x. custody n (overwritten n d f) = Some x \<and> f_data x = d
      \<and> (\<forall>y. custody n f = Some y \<longrightarrow> x = y \<lparr> f_data := d \<rparr>)"
    and "custody m f = Some y \<Longrightarrow> nodes f m \<noteq> nodes f n \<Longrightarrow> custody m (overwritten n d f) = Some y"
proof -
  show "\<exists>x. custody n (overwritten n d f) = Some x \<and> f_data x = d
      \<and> (\<forall>y. custody n f = Some y \<longrightarrow> x = y \<lparr> f_data := d \<rparr>)"
    using assms by (auto simp: overwritten_def custody_def set_data_def wf_fs_def split: option.splits node.splits)
  assume m: "custody m f = Some y" "nodes f m \<noteq> nodes f n"
  then obtain j where j: "nodes f m = Some (File j)" "inodes f ! j = y" by (auto simp: custody_Some_iff)
  then have "j < length (inodes f)" using assms(1) by (simp add: wf_fs_def)
  with j m(2) assms(2) show "custody m (overwritten n d f) = Some y"
    by (auto simp: overwritten_def custody_Some_iff set_data_def nth_append nth_list_update
        split: option.splits node.splits)
qed

subsection \<open>The documents\<close>

definition flat_entry_json :: "flat_entry \<Rightarrow> json" where
  "flat_entry_json e = json_object
     ([(''info'', JString (fe_info e)), (''seed_hex'', JString (fe_seed_hex e))]
      @ (case fe_pubkey e of
           None \<Rightarrow> []
         | Some (key, curve) \<Rightarrow> [(''pubkey_hex'', JString key), (''curve'', JString curve)]))"

definition derivation_json :: "derivation_document \<Rightarrow> json" where
  "derivation_json doc = json_object
     [(''root_secret_hex'', JString (dv_root_secret_hex doc)),
      (''hkdf_salt'', JString (dv_hkdf_salt doc)),
      (''flat_purposes'', json_map flat_entry_json (dv_flat_purposes doc)),
      (''identity_hash'', JString (dv_identity_hash doc)),
      (''parameterized'', json_map JString (dv_parameterized doc))]"

definition binding_vector_json :: "binding_vector \<Rightarrow> json" where
  "binding_vector_json v = json_object
     [(''name'', JString (bv_name v)),
      (''repository_key_source'', JString (bv_repository_key_source v)),
      (''root_secret_hex'', JString (bv_root_secret_hex v)),
      (''identity_seed_hex'', JString (bv_identity_seed_hex v)),
      (''identity_public_key_hex'', JString (bv_identity_public_key_hex v)),
      (''identity_id_hex'', JString (bv_identity_id_hex v)),
      (''repository_seed_hex'', json_opt JString (bv_repository_seed_hex v)),
      (''repository_public_key_hex'', JString (bv_repository_public_key_hex v)),
      (''epoch'', JNumber (unat (bv_epoch v))),
      (''protected_hex'', JString (bv_protected_hex v)),
      (''signing_frame_hex'', JString (bv_signing_frame_hex v)),
      (''signature_hex'', JString (bv_signature_hex v)),
      (''binding_hex'', JString (bv_binding_hex v)),
      (''binding_digest_hex'', JString (bv_binding_digest_hex v))]"

definition binding_document :: "binding_vector list \<Rightarrow> json" where
  "binding_document vectors = json_object
     [(''profile'', JString ''styrene-repository-signing-v1''),
      (''warning'', JString ''All roots and private seeds are public test material and MUST NOT be used for real identities or repositories.''),
      (''vectors'', JArray (map binding_vector_json vectors))]"

fun hex_json_value :: "hex_json \<Rightarrow> json" where
  "hex_json_value (HexString s) = JString s"
| "hex_json_value (HexArray ss) = JArray (map JString ss)"

definition negative_entry_json :: "vector_entry \<Rightarrow> json" where
  "negative_entry_json v = json_object
     [(''name'', JString (v_name v)),
      (''category'', JString (v_category v)),
      (''protected_hex'', json_opt JString (v_protected_hex v)),
      (''input_hex'', hex_json_value (v_input_hex v)),
      (''expected_error_class'', JString (v_expected_error_class v))]"

definition negative_document :: "vector_entry list \<Rightarrow> json" where
  "negative_document vectors = json_object
     [(''profile'', JString ''styrene-repository-signing-v1''),
      (''corpus'', JString ''negative-conformance''),
      (''warning'', JString ''DANGER: All private seeds used to generate this corpus are public test material and MUST NEVER be used for real identities or repositories.''),
      (''vectors'', JArray (map negative_entry_json vectors))]"

subsection \<open>The programs\<close>

text \<open>The sources of a \<^verbatim>\<open>Box<dyn Error>\<close>.\<close>

datatype gen_error =
    Gen_Message string
  | Gen_Derive derive_error
  | Gen_Binding binding_error
  | Gen_Json string
  | Gen_Io io_kind

definition create_parent :: "path \<Rightarrow> ('z world_scheme, gen_error, unit) io" where
  "create_parent output =
     (case path_parent output of
        Some parent \<Rightarrow> io_map_err Gen_Io (create_dir_all parent)
      | None \<Rightarrow> io_ok ())"

text \<open>\<open>m\<close> is \<^verbatim>\<open>CARGO_MANIFEST_DIR\<close>, fixed when the program is built.\<close>

definition derivation_main ::
  "crates \<Rightarrow> serde_json \<Rightarrow> path \<Rightarrow> string list \<Rightarrow> ('z world_scheme, gen_error, unit) io" where
  "derivation_main K S m args =
     io_bind (io_res (map_err Gen_Message (derivation_output_path args))) (\<lambda>output.
     io_bind (io_res (map_err Gen_Message (derivation_guard m output))) (\<lambda>output.
     io_bind (io_pure (map_option (map_err Gen_Derive) (derivation_vectors K))) (\<lambda>vectors.
     io_bind (io_res (map_err Gen_Json (to_string_pretty S (derivation_json vectors)))) (\<lambda>text.
     io_bind (create_parent output) (\<lambda>_.
     io_map_err Gen_Io (fs_write output (str_bytes text)))))))"

definition binding_main ::
  "crates \<Rightarrow> cbor \<Rightarrow> serde_json \<Rightarrow> path \<Rightarrow> string list \<Rightarrow> ('z world_scheme, gen_error, unit) io" where
  "binding_main K C S m args =
     io_bind (io_res (map_err Gen_Message (binding_output_path args))) (\<lambda>output.
     io_bind (io_res (map_err Gen_Message (binding_guard m output))) (\<lambda>output.
     io_bind (io_pure (map_option (map_err Gen_Binding) (binding_vectors K C))) (\<lambda>vectors.
     io_bind (create_parent output) (\<lambda>_.
     io_bind (io_res (map_err Gen_Json (to_string_pretty S (binding_document vectors)))) (\<lambda>text.
     io_map_err Gen_Io (fs_write output (str_bytes (text @ newline))))))))"

definition negative_main ::
  "crates \<Rightarrow> cbor \<Rightarrow> serde_json \<Rightarrow> directory_view \<Rightarrow> path \<Rightarrow> string list
     \<Rightarrow> ('z world_scheme, gen_error, unit) io" where
  "negative_main K C S V m args =
     io_bind (io_res (map_err Gen_Message (negative_output_path args))) (\<lambda>output.
     io_bind (io_res (map_err Gen_Message (guarded_output_path V m output))) (\<lambda>output.
     io_bind (io_pure (map_option (map_err Gen_Binding) (generate_vectors K C))) (\<lambda>vectors.
     io_bind (io_res (map_err Gen_Json (to_string_pretty S (negative_document vectors)))) (\<lambda>text.
     io_map_err Gen_Io (fs_write output (str_bytes (text @ newline)))))))"

lemma calm_create_parent:
  assumes "reachable p w"
  shows "\<exists>w'. create_parent p w = Some (Inr (), w') \<and> calm_after w (with_parent p w) w'"
proof -
  have parent: "path_parent p = Some (identity_parent p)" using reachable_name [OF assms] by blast
  have "calm_after w (disk w) w" using assms by (simp add: calm_after_def reachable_def)
  from calm_mkdir [OF assms this] show ?thesis
    by (auto simp: create_parent_def io_map_err_def parent)
qed

lemma wf_with_parent:
  assumes "wf_fs (disk w)"
  shows "wf_fs (with_parent p w)"
  unfolding wf_fs_def
proof (intro allI impI)
  fix m i
  assume "nodes (with_parent p w) m = Some (File i)"
  with assms nodes_with_parent_cases [of p w m] show "i < length (inodes (with_parent p w))"
    by (auto simp: wf_fs_def)
qed

text \<open>Both halves in a calm world: the parent is made, the file is replaced or created.\<close>

lemma calm_write_document:
  assumes "reachable p w" and "nodes (disk w) (name_of (cwd w) p) \<noteq> Some Dir"
  shows "\<exists>w1 w2. create_parent p w = Some (Inr (), w1) \<and> fs_write p d w1 = Some (Inr (), w2)
    \<and> calm_after w (overwritten (name_of (cwd w) p) d (with_parent p w)) w2"
proof -
  let ?n = "name_of (cwd w) p"
  obtain l where n: "?n = name_of (cwd w) (identity_parent p) @ [l]" and p: "\<not> path_empty p"
    using reachable_name [OF assms(1)] by blast
  obtain w1 where w1: "create_parent p w = Some (Inr (), w1)" "calm_after w (with_parent p w) w1"
    using calm_create_parent [OF assms(1)] by blast
  then have c1: "calm w1" "disk w1 = with_parent p w" "cwd w1 = cwd w" by (simp_all add: calm_after_def)
  have wf: "wf_fs (disk w1)"
    using wf_with_parent [of w p] assms(1) by (simp add: c1 reachable_def)
  have dir: "dir_at (disk w1) (butlast (name_of (cwd w1) p))"
    using dir_at_with_parent [OF assms(1)] n by (simp add: c1)
  have free: "nodes (disk w1) (name_of (cwd w1) p) \<noteq> Some Dir"
    using assms(2) n by (simp add: c1 nodes_with_parent)
  from calm_fs_write [OF c1(1) wf p _ dir free, of d] n obtain w2 where
    "fs_write p d w1 = Some (Inr (), w2)" "calm_after w1 (overwritten ?n d (with_parent p w)) w2"
    unfolding c1 by auto
  with w1 show ?thesis by (auto simp: calm_after_def)
qed

subsection \<open>The documents are well formed\<close>

lemma wf_derivation_json:
  assumes "finite (dom (dv_flat_purposes doc))" and "finite (dom (dv_parameterized doc))"
  shows "wf_json (derivation_json doc)"
  unfolding derivation_json_def
  by (rule wf_json_object)
    (auto intro!: wf_json_map assms wf_json_object simp: flat_entry_json_def split: option.splits)

lemma nested_derivation_json:
  assumes "finite (dom (dv_flat_purposes doc))" and "finite (dom (dv_parameterized doc))"
  shows "nested 127 (derivation_json doc)"
  unfolding derivation_json_def
  by (rule nested_json_object)
    (auto intro!: nested_json_map assms nested_json_object simp: flat_entry_json_def split: option.splits)

lemma wf_binding_document: "wf_json (binding_document vs)"
proof -
  have small: "unat e < 18446744073709551616" for e :: "32 word"
    using unsigned_less [of e, where ?'a = nat] by simp
  show ?thesis
    unfolding binding_document_def
    by (rule wf_json_object)
      (auto intro!: wf_json_object simp: binding_vector_json_def json_opt_def small split: option.splits)
qed

lemma nested_binding_document: "nested 127 (binding_document vs)"
  unfolding binding_document_def
  by (rule nested_json_object)
    (auto intro!: nested_json_object simp: binding_vector_json_def json_opt_def split: option.splits)

lemma nested_negative_document: "nested 127 (negative_document vs)"
proof -
  have "nested 124 (hex_json_value h)" for h by (cases h) auto
  then show ?thesis
    unfolding negative_document_def
    by (intro nested_json_object)
      (auto intro!: nested_json_object simp: negative_entry_json_def json_opt_def split: option.splits)
qed

lemma wf_negative_document: "wf_json (negative_document vs)"
proof -
  have "wf_json (hex_json_value h)" for h by (cases h) auto
  then show ?thesis
    unfolding negative_document_def
    by (intro wf_json_object)
      (auto intro!: wf_json_object simp: negative_entry_json_def json_opt_def split: option.splits)
qed

end
