(* ===== verification/Conformance.thy ===== *)
theory Conformance
  imports Generators
begin

text \<open>
  The tests that read the committed vectors, \<^verbatim>\<open>tests/repository_signing_negative_conformance.rs\<close>,
  \<^verbatim>\<open>tests/phase3_advanced.rs\<close> and the positive corpus test of \<^verbatim>\<open>src/repository_signing.rs\<close>, and
  \<^verbatim>\<open>tests/minimal-repository-signing-consumer\<close>.  A failed assertion is a panic.  What a generator
  writes passes the test that reads it.
\<close>

subsection \<open>Assertions\<close>

definition expect :: "'e + 'a \<Rightarrow> 'a option" where
  "expect r = (case r of Inl _ \<Rightarrow> None | Inr a \<Rightarrow> Some a)"

definition assert_that :: "bool \<Rightarrow> unit option" where
  "assert_that b = (if b then Some () else None)"

definition io_expect :: "('w, 'e, 'a) io \<Rightarrow> ('w, 'f, 'a) io" where
  "io_expect r w = (case r w of Some (Inr a, w') \<Rightarrow> Some (Inr a, w') | _ \<Rightarrow> None)"

lemma expect_simps [simp]: "expect (Inr a) = Some a" "expect (Inl e) = None"
  by (simp_all add: expect_def)

lemma assert_that_simps [simp]: "assert_that True = Some ()" "assert_that False = None"
  by (simp_all add: assert_that_def)

subsection \<open>The negative corpus\<close>

fun hex_field :: "json \<Rightarrow> string option" where
  "hex_field (JString hex) = Some hex"
| "hex_field (JArray parts) = map_option concat (all_cases (map as_str parts))"
| "hex_field _ = None"

definition error_class :: "string \<Rightarrow> binding_error_class option" where
  "error_class name =
     (if name = ''Format'' then Some Class_Format
      else if name = ''TooLarge'' then Some Class_TooLarge
      else if name = ''Canonical'' then Some Class_Canonical
      else if name = ''Semantic'' then Some Class_Semantic
      else if name = ''IdentityMismatch'' then Some Class_IdentityMismatch
      else if name = ''Signature'' then Some Class_Signature
      else None)"

definition negative_vector_ok :: "crates \<Rightarrow> cbor \<Rightarrow> json \<Rightarrow> unit option" where
  "negative_vector_ok K C vector = do {
     name \<leftarrow> as_str (json_get vector ''name'');
     hex \<leftarrow> hex_field (json_get vector ''input_hex'');
     input \<leftarrow> expect (hex_decode K hex);
     class \<leftarrow> as_str (json_get vector ''expected_error_class'');
     expected \<leftarrow> error_class class;
     (case verify_repository_signer_binding K C input of
        Inr _ \<Rightarrow> None
      | Inl e \<Rightarrow> assert_that (binding_error_class_of e = expected))
   }"

definition committed_negative_corpus_test ::
  "crates \<Rightarrow> cbor \<Rightarrow> serde_json \<Rightarrow> path \<Rightarrow> ('z world_scheme, io_kind, unit) io" where
  "committed_negative_corpus_test K C S m =
     io_bind (io_expect (fs_read (join_path m (path_of ''tests/vectors/repository-signing-v1/negative.json'')))) (\<lambda>bytes.
     io_pure (do {
       corpus \<leftarrow> expect (from_slice S bytes);
       vectors \<leftarrow> as_array (json_get corpus ''vectors'');
       _ \<leftarrow> all_cases (map (negative_vector_ok K C) vectors);
       Some (Inr ())
     }))"

subsection \<open>The derivation vectors\<close>

definition purpose_vector_ok :: "crates \<Rightarrow> key_deriver \<Rightarrow> json \<Rightarrow> key_purpose \<Rightarrow> unit option" where
  "purpose_vector_ok K deriver parsed purpose = do {
     let entry = json_get (json_get parsed ''flat_purposes'') (purpose_debug purpose);
     assert_that (as_str (json_get entry ''info'') = Some (map (\<lambda>b. char_of (unat b)) (purpose_info purpose)));
     seed \<leftarrow> derive K deriver purpose;
     assert_that (json_get entry ''seed_hex'' = JString (hex_encode K seed))
   }"

definition label_vector_ok :: "crates \<Rightarrow> key_deriver \<Rightarrow> json \<Rightarrow> string \<Rightarrow> unit option" where
  "label_vector_ok K deriver parsed label = do {
     user \<leftarrow> derive_ssh_user_key K deriver label;
     user \<leftarrow> expect user;
     assert_that (json_get (json_get parsed ''parameterized'') (''ssh_user/'' @ label) = JString (hex_encode K user));
     agent \<leftarrow> derive_agent_key K deriver label;
     agent \<leftarrow> expect agent;
     assert_that (json_get (json_get parsed ''parameterized'') (''agent/'' @ label) = JString (hex_encode K agent))
   }"

definition committed_derivation_vectors_test :: "crates \<Rightarrow> serde_json \<Rightarrow> string \<Rightarrow> unit option" where
  "committed_derivation_vectors_test K S text = do {
     parsed \<leftarrow> expect (from_str S text);
     root_hex \<leftarrow> as_str (json_get parsed ''root_secret_hex'');
     root \<leftarrow> expect (hex_decode K root_hex);
     assert_that (length root = 32);
     let deriver = KeyDeriver_new K root;
     assert_that (json_get parsed ''hkdf_salt'' = JString ''styrene-identity-v1'');
     _ \<leftarrow> all_cases (map (purpose_vector_ok K deriver parsed) purpose_all);
     signing \<leftarrow> signing_seed K deriver;
     let identity_digest = sha256_digest K (ed25519_verifying_key K signing);
     assert_that (json_get parsed ''identity_hash'' = JString (hex_encode K (take 16 identity_digest)));
     _ \<leftarrow> all_cases (map (label_vector_ok K deriver parsed) vector_labels);
     Some ()
   }"

subsection \<open>The positive corpus\<close>

definition decode_hex_field :: "crates \<Rightarrow> json \<Rightarrow> string \<Rightarrow> byte list option" where
  "decode_hex_field K vector field = do {
     hex \<leftarrow> as_str (json_get vector field);
     expect (hex_decode K hex)
   }"

definition positive_vector_ok :: "crates \<Rightarrow> cbor \<Rightarrow> json \<Rightarrow> unit option" where
  "positive_vector_ok K C vector = do {
     root \<leftarrow> decode_hex_field K vector ''root_secret_hex'';
     assert_that (length root = 32);
     epoch \<leftarrow> as_u64 (json_get vector ''epoch'');
     assert_that (epoch < 2 ^ 32);
     repository_public_key \<leftarrow> decode_hex_field K vector ''repository_public_key_hex'';
     assert_that (length repository_public_key = 32);
     identity_key \<leftarrow> signing_seed K (KeyDeriver_new K root);
     binding \<leftarrow> expect (binding_issue K C identity_key repository_public_key (of_nat epoch));
     protected \<leftarrow> decode_hex_field K vector ''protected_hex'';
     assert_that (rsb_protected binding = protected);
     frame \<leftarrow> expect (binding_signing_frame binding);
     signing_frame \<leftarrow> decode_hex_field K vector ''signing_frame_hex'';
     assert_that (frame = signing_frame);
     signature \<leftarrow> decode_hex_field K vector ''signature_hex'';
     assert_that (rsb_signature binding = signature);
     outer \<leftarrow> expect (binding_canonical_bytes C binding);
     bytes \<leftarrow> decode_hex_field K vector ''binding_hex'';
     assert_that (outer = bytes);
     digest \<leftarrow> expect (binding_digest K C binding);
     expected \<leftarrow> decode_hex_field K vector ''binding_digest_hex'';
     assert_that (digest = expected);
     _ \<leftarrow> expect (verify_repository_signer_binding K C bytes);
     Some ()
   }"

definition committed_positive_corpus_test :: "crates \<Rightarrow> cbor \<Rightarrow> serde_json \<Rightarrow> string \<Rightarrow> unit option" where
  "committed_positive_corpus_test K C S text = do {
     corpus \<leftarrow> expect (from_str S text);
     vectors \<leftarrow> as_array (json_get corpus ''vectors'');
     _ \<leftarrow> all_cases (map (positive_vector_ok K C) vectors);
     Some ()
   }"

subsection \<open>The minimal consumer\<close>

definition consumer_main :: "crates \<Rightarrow> cbor \<Rightarrow> (binding_error + unit) option" where
  "consumer_main K C =
     try_opt (issue_derived K C (replicate 32 0x42) 0) (\<lambda>binding.
     try_opt (Some (binding_canonical_bytes C binding)) (\<lambda>bytes.
     try_opt (Some (verify_repository_signer_binding K C bytes)) (\<lambda>verified. do {
       assert_that (vb_epoch verified = 0);
       Some (Inr ())
     })))"

subsection \<open>What is written passes\<close>

lemma all_cases_Some: "(\<And>x. x \<in> set xs \<Longrightarrow> f x = Some (g x)) \<Longrightarrow> all_cases (map f xs) = Some (map g xs)"
  by (induction xs) simp_all

lemma all_cases_units: "(\<And>x. x \<in> set xs \<Longrightarrow> f x = Some ()) \<Longrightarrow> \<exists>us. all_cases (map f xs) = Some us"
  by (induction xs) auto

lemma hex_field_value: "hex_field (hex_json_value h) = Some (hex_text h)"
proof (cases h)
  case (HexArray ss)
  have "all_cases (map as_str (map JString ss)) = Some ss" by (induction ss) simp_all
  with HexArray show ?thesis by simp
qed simp

lemma error_class_text: "error_class (class_text c) = Some c"
  by (cases c) (simp_all add: error_class_def)

lemma negative_entry_fields [simp]:
  "json_get (negative_entry_json v) ''name'' = JString (v_name v)"
  "json_get (negative_entry_json v) ''input_hex'' = hex_json_value (v_input_hex v)"
  "json_get (negative_entry_json v) ''expected_error_class'' = JString (v_expected_error_class v)"
  by (simp_all add: negative_entry_json_def json_get_object)

lemma document_vectors [simp]:
  "json_get (negative_document vs) ''vectors'' = JArray (map negative_entry_json vs)"
  "json_get (binding_document bs) ''vectors'' = JArray (map binding_vector_json bs)"
  by (simp_all add: negative_document_def binding_document_def json_get_object)

lemma negative_vector_passes:
  assumes "hex_crate K" and "refused K C c"
  shows "negative_vector_ok K C (negative_entry_json (add_vector K c)) = Some ()"
proof -
  obtain e where e: "verify_repository_signer_binding K C (nc_input c) = Inl e"
    "class_text (binding_error_class_of e) = nc_class c"
    using assms(2) by (auto simp: refused_def split: sum.splits)
  then have "error_class (nc_class c) = Some (binding_error_class_of e)"
    using error_class_text [of "binding_error_class_of e"] by simp
  with e(1) show ?thesis
    by (simp add: negative_vector_ok_def hex_field_value add_vector_def hex_text_chunks
        hex_crate.hex_decode_encode [OF assms(1)])
qed

lemma derivation_fields:
  "json_get (derivation_json doc) ''root_secret_hex'' = JString (dv_root_secret_hex doc)"
  "json_get (derivation_json doc) ''hkdf_salt'' = JString (dv_hkdf_salt doc)"
  "json_get (derivation_json doc) ''flat_purposes'' = json_map flat_entry_json (dv_flat_purposes doc)"
  "json_get (derivation_json doc) ''identity_hash'' = JString (dv_identity_hash doc)"
  "json_get (derivation_json doc) ''parameterized'' = json_map JString (dv_parameterized doc)"
  by (simp_all add: derivation_json_def json_get_object)

lemma flat_entry_fields:
  "json_get (flat_entry_json e) ''info'' = JString (fe_info e)"
  "json_get (flat_entry_json e) ''seed_hex'' = JString (fe_seed_hex e)"
  by (simp_all add: flat_entry_json_def json_get_object split: option.split prod.split)

lemma binding_fields:
  "json_get (binding_vector_json v) ''root_secret_hex'' = JString (bv_root_secret_hex v)"
  "json_get (binding_vector_json v) ''repository_public_key_hex'' = JString (bv_repository_public_key_hex v)"
  "json_get (binding_vector_json v) ''epoch'' = JNumber (unat (bv_epoch v))"
  "json_get (binding_vector_json v) ''protected_hex'' = JString (bv_protected_hex v)"
  "json_get (binding_vector_json v) ''signing_frame_hex'' = JString (bv_signing_frame_hex v)"
  "json_get (binding_vector_json v) ''signature_hex'' = JString (bv_signature_hex v)"
  "json_get (binding_vector_json v) ''binding_hex'' = JString (bv_binding_hex v)"
  "json_get (binding_vector_json v) ''binding_digest_hex'' = JString (bv_binding_digest_hex v)"
  by (simp_all add: binding_vector_json_def json_get_object)

text \<open>The derivation document.\<close>

lemma derivation_document_passes:
  assumes "kdf_crate K" and "hex_crate K" and "json_crate S" and "derivation_vectors K = Some (Inr doc)"
  shows "\<exists>text. to_string_pretty S (derivation_json doc) = Inr text
    \<and> committed_derivation_vectors_test K S text = Some ()"
proof -
  let ?root = "replicate 32 0x42 :: byte list" and ?d = "KeyDeriver_new K (replicate 32 0x42)"
  note doc = assms(4) [unfolded kdf_crate.derivation_vectors_eq [OF assms(1)], THEN option.inject [THEN iffD1],
      THEN sum.inject(2) [THEN iffD1], symmetric]
  note path = kdf_crate.derive_path [OF assms(1)]
  have fin: "finite (dom (dv_flat_purposes doc))" "finite (dom (dv_parameterized doc))"
    by (simp_all add: doc finite_dom_map_of vector_labels_def vector_services_def)
  obtain t where t: "to_string_pretty S (derivation_json doc) = Inr t"
    "from_slice S (str_bytes t) = Inr (derivation_json doc)"
    using json_crate.prints [OF assms(3) wf_derivation_json [OF fin] nested_derivation_json [OF fin]] by blast
  have purpose: "purpose_vector_ok K ?d (derivation_json doc) p = Some ()" if "p \<in> set purpose_all" for p
  proof -
    have "dv_flat_purposes doc (purpose_debug p) = Some (expected_entry K ?root p)"
      by (cases p; use that in \<open>simp add: doc purpose_all_def\<close>)
    then show ?thesis
      by (simp add: purpose_vector_ok_def derivation_fields json_get_map [OF fin(1)] flat_entry_fields
          expected_entry_def Let_def path del: purpose_info.simps)
  qed
  have label: "label_vector_ok K ?d (derivation_json doc) l = Some ()" if "l \<in> set vector_labels" for l
  proof -
    have "dv_parameterized doc (''ssh_user/'' @ l) = Some (key_hex K ?root (SshUserKey l))"
      "dv_parameterized doc (''agent/'' @ l) = Some (key_hex K ?root (AgentKey l))" "l \<noteq> []"
      using that by (auto simp: doc vector_labels_def vector_services_def)
    then show ?thesis
      by (simp add: label_vector_ok_def derivation_fields json_get_map [OF fin(2)] derive_ssh_user_key_def
          derive_agent_key_def kdf_crate.derive_parameterized_path [OF assms(1)] key_hex_def)
  qed
  have hash: "dv_identity_hash doc = hex_encode K (take 16 (sha256_digest K
      (ed25519_verifying_key K (path_key K ?root (request_path (PurposeKey Signing))))))"
    by (simp add: doc identity_hash_def identity_pubkey_def path IdentityId_to_string_def
        IdentityId_from_public_key_def del: purpose_info.simps)
  obtain us where us: "all_cases (map (purpose_vector_ok K ?d (derivation_json doc)) purpose_all) = Some us"
    using all_cases_units [of purpose_all "purpose_vector_ok K ?d (derivation_json doc)", OF purpose] by blast
  obtain vs where vs: "all_cases (map (label_vector_ok K ?d (derivation_json doc)) vector_labels) = Some vs"
    using all_cases_units [of vector_labels "label_vector_ok K ?d (derivation_json doc)", OF label] by blast
  have "dv_root_secret_hex doc = hex_encode K ?root" "dv_hkdf_salt doc = ''styrene-identity-v1''"
    by (simp_all add: doc)
  then have "committed_derivation_vectors_test K S t = Some ()"
    using us vs by (simp add: committed_derivation_vectors_test_def from_str_def t(2) derivation_fields
        hex_crate.hex_decode_encode [OF assms(2)] Let_def signing_seed_def path hash
        del: purpose_info.simps)
  with t(1) show ?thesis by blast
qed

text \<open>The binding document: every vector is what issuing the binding again gives.\<close>

definition issued_vector :: "crates \<Rightarrow> cbor \<Rightarrow> byte list \<Rightarrow> binding_vector \<Rightarrow> bool" where
  "issued_vector K C root v \<longleftrightarrow>
     (\<exists>b name source e repo.
        length repo = 32
      \<and> binding_issue K C (identity_seed K root) (ed_verifying_key K repo) e = Inr b
      \<and> binding_vector_of K C name source e (Some repo) (ed_verifying_key K repo) b root (identity_seed K root)
          (ed_verifying_key K (identity_seed K root))
          (IdentityId_from_public_key K (ed_verifying_key K (identity_seed K root))) = Inr v)"

context binding_crates
begin

lemma length_identity_seed: "length (identity_seed K root) = 32"
  by (simp add: identity_seed_def)

lemma issued_vector_ok:
  assumes "length repo = 32"
  shows "\<exists>b v. binding_issue K C (identity_seed K root) (ed_verifying_key K repo) e = Inr b
     \<and> binding_vector_of K C name source e (Some repo) (ed_verifying_key K repo) b root (identity_seed K root)
          (ed_verifying_key K (identity_seed K root))
          (IdentityId_from_public_key K (ed_verifying_key K (identity_seed K root))) = Inr v
     \<and> issued_vector K C root v"
  using issue_vector [OF length_identity_seed assms, of root e name source root] assms
  unfolding issued_vector_def by blast

lemma derived_vectors_issued:
  "\<exists>vs. derived_vectors K C root (identity_seed K root) epochs = Some (Inr vs)
     \<and> length vs = length epochs \<and> (\<forall>v \<in> set vs. issued_vector K C root v)"
proof (induction epochs)
  case (Cons e epochs)
  let ?repo = "path_key K root (request_path (RepositoryKey e))"
  have "derive_repository_signing_key K (KeyDeriver_new K root) e = Some ?repo"
    by (rule derive_repository_path)
  moreover obtain b v where "binding_issue K C (identity_seed K root) (ed_verifying_key K ?repo) e = Inr b"
    "binding_vector_of K C (''derived-epoch-'' @ show_nat (unat e)) ''derived'' e (Some ?repo)
       (ed_verifying_key K ?repo) b root (identity_seed K root) (ed_verifying_key K (identity_seed K root))
       (IdentityId_from_public_key K (ed_verifying_key K (identity_seed K root))) = Inr v"
    "issued_vector K C root v"
    using issued_vector_ok [OF length_path_key] by blast
  ultimately show ?case using Cons by (auto simp: Let_def simp del: request_path.simps)
qed simp

lemma binding_vectors_issued:
  "\<exists>vs. binding_vectors K C = Some (Inr vs) \<and> length vs = 4
     \<and> (\<forall>v \<in> set vs. issued_vector K C (replicate 32 0x42) v)"
proof -
  let ?root = "replicate 32 0x42 :: byte list"
  have seed: "signing_seed K (KeyDeriver_new K ?root) = Some (identity_seed K ?root)"
    by (simp add: signing_seed_def derive_path identity_seed_def)
  obtain vs where "derived_vectors K C ?root (identity_seed K ?root) [0, 1, 0xFFFFFFFF] = Some (Inr vs)"
    "length vs = 3" "\<forall>v \<in> set vs. issued_vector K C ?root v"
    using derived_vectors_issued [of ?root "[0, 1, 0xFFFFFFFF]"] by auto
  moreover obtain b v where "binding_issue K C (identity_seed K ?root) (ed_verifying_key K (replicate 32 0xa5)) 7 = Inr b"
    "binding_vector_of K C ''external-repository-key'' ''externally-supplied'' 7 (Some (replicate 32 0xa5))
       (ed_verifying_key K (replicate 32 0xa5)) b ?root (identity_seed K ?root)
       (ed_verifying_key K (identity_seed K ?root))
       (IdentityId_from_public_key K (ed_verifying_key K (identity_seed K ?root))) = Inr v"
    "issued_vector K C ?root v"
    using issued_vector_ok [of "replicate 32 0xa5"] by fastforce
  ultimately show ?thesis
    using seed by (intro exI [of _ "vs @ [v]"]) (auto simp: binding_vectors_def Let_def simp del: derived_vectors.simps)
qed

lemma issued_vector_passes:
  assumes "length root = 32" and "issued_vector K C root v"
  shows "positive_vector_ok K C (binding_vector_json v) = Some ()"
proof -
  obtain b name source e repo where repo: "length repo = 32"
    and b: "binding_issue K C (identity_seed K root) (ed_verifying_key K repo) e = Inr b"
    and v: "binding_vector_of K C name source e (Some repo) (ed_verifying_key K repo) b root (identity_seed K root)
          (ed_verifying_key K (identity_seed K root))
          (IdentityId_from_public_key K (ed_verifying_key K (identity_seed K root))) = Inr v"
    using assms(2) unfolding issued_vector_def by blast
  have "length (ed_verifying_key K repo) = 32" using repo by simp
  from issue_verifies [OF length_identity_seed this b] obtain bytes w where
    bytes: "binding_canonical_bytes C b = Inr bytes" "verify_repository_signer_binding K C bytes = Inr w" by blast
  obtain d where d: "binding_digest K C b = Inr d" using bytes(1) by (simp add: binding_digest_def)
  from v bytes(1) d obtain f where f: "binding_signing_frame b = Inr f" by (auto simp: binding_vector_of_def bind_res_Inr_iff)
  have seed: "signing_seed K (KeyDeriver_new K root) = Some (identity_seed K root)"
    by (simp add: signing_seed_def derive_path identity_seed_def)
  have epoch: "unat e < 18446744073709551616" "unat e < 4294967296" "of_nat (unat e) = e"
    using unsigned_less [of e, where ?'a = nat] by simp_all
  from v bytes(1) d f have fields: "bv_root_secret_hex v = hex_encode K root" "bv_epoch v = e"
    "bv_repository_public_key_hex v = hex_encode K (ed_verifying_key K repo)"
    "bv_protected_hex v = hex_encode K (rsb_protected b)" "bv_signing_frame_hex v = hex_encode K f"
    "bv_signature_hex v = hex_encode K (rsb_signature b)" "bv_binding_hex v = hex_encode K bytes"
    "bv_binding_digest_hex v = hex_encode K d"
    by (auto simp: binding_vector_of_def)
  show ?thesis
    by (simp add: positive_vector_ok_def decode_hex_field_def binding_fields fields assms(1) repo epoch seed b
        bytes d f)
qed

end

lemma binding_document_passes:
  assumes "binding_crates K C" and "json_crate S" and "binding_vectors K C = Some (Inr vs)"
  shows "\<exists>t. to_string_pretty S (binding_document vs) = Inr t
    \<and> committed_positive_corpus_test K C S (t @ newline) = Some ()"
proof -
  obtain t where t: "to_string_pretty S (binding_document vs) = Inr t"
    "from_slice S (str_bytes (t @ newline)) = Inr (binding_document vs)"
    using json_crate.prints [OF assms(2) wf_binding_document nested_binding_document] by blast
  have "positive_vector_ok K C (binding_vector_json v) = Some ()" if "v \<in> set vs" for v
    using binding_crates.binding_vectors_issued [OF assms(1)] assms(3) that
      binding_crates.issued_vector_passes [OF assms(1), of "replicate 32 0x42" v] by auto
  from all_cases_units [of vs "\<lambda>v. positive_vector_ok K C (binding_vector_json v)", OF this]
  obtain us where "all_cases (map (positive_vector_ok K C \<circ> binding_vector_json) vs) = Some us"
    by (auto simp: comp_def)
  with t show ?thesis by (auto simp: committed_positive_corpus_test_def from_str_def)
qed

lemma negative_document_passes:
  assumes "corpus_crates K C" and "corpus_separates K" and "json_crate S"
  shows "\<exists>vs t. generate_vectors K C = Some (Inr vs) \<and> length vs = 40
    \<and> to_string_pretty S (negative_document vs) = Inr t
    \<and> from_slice S (str_bytes (t @ newline)) = Inr (negative_document vs)
    \<and> (\<forall>w w' m. fs_read (join_path m (path_of ''tests/vectors/repository-signing-v1/negative.json'')) w
          = Some (Inr (str_bytes (t @ newline)), w') \<longrightarrow>
        committed_negative_corpus_test K C S m w = Some (Inr (), w'))"
proof -
  obtain cs where cs: "generate_vectors K C = Some (Inr (map (add_vector K) cs))" "length cs = 40"
    "\<forall>c \<in> set cs. refused K C c"
    using corpus_crates.generate_vectors_eq [OF assms(1,2)] by blast
  let ?vs = "map (add_vector K) cs"
  have hex: "hex_crate K"
    using assms(1) by (simp add: corpus_crates_def binding_crates_def identity_crates_def)
  obtain t where t: "to_string_pretty S (negative_document ?vs) = Inr t"
    "from_slice S (str_bytes (t @ newline)) = Inr (negative_document ?vs)"
    using json_crate.prints [OF assms(3) wf_negative_document nested_negative_document] by blast
  have "negative_vector_ok K C (negative_entry_json (add_vector K c)) = Some ()" if "c \<in> set cs" for c
    by (rule negative_vector_passes [OF hex]) (use cs(3) that in blast)
  from all_cases_units [of cs "\<lambda>c. negative_vector_ok K C (negative_entry_json (add_vector K c))", OF this]
  obtain us where "all_cases (map (negative_vector_ok K C \<circ> (negative_entry_json \<circ> add_vector K)) cs) = Some us"
    by (auto simp: comp_def)
  with cs t show ?thesis
    by (intro exI [of _ ?vs] exI [of _ t])
      (auto simp: committed_negative_corpus_test_def io_bind_def io_expect_def)
qed

text \<open>The minimal consumer accepts the binding it derives.\<close>

lemma consumer_succeeds:
  assumes "binding_crates K C"
  shows "consumer_main K C = Some (Inr ())"
  using derived_binding_ok [OF assms, of "replicate 32 0x42" 0] by (auto simp: consumer_main_def)

subsection \<open>A whole run\<close>

lemma custody_with_parent [simp]: "custody n (with_parent p w) = custody n (disk w)"
  using nodes_with_parent_cases [of p w n] by (auto simp: custody_def cong: option.case_cong node.case_cong)

lemma calm_read_custody:
  assumes "calm w" and "\<not> path_empty p" and "custody (name_of (cwd w) p) (disk w) = Some x"
  shows "\<exists>w'. fs_read p w = Some (Inr (f_data x), w') \<and> calm_after w (disk w) w'"
proof -
  from assms(3) obtain i where "nodes (disk w) (name_of (cwd w) p) = Some (File i)" "inodes (disk w) ! i = x"
    by (auto simp: custody_Some_iff)
  with calm_read [OF assms(1,2)] show ?thesis by fastforce
qed

lemma calm_derivation_main:
  assumes "kdf_crate K" and "hex_crate K" and "json_crate S"
    and "derivation_output_path args = Inr p" and "derivation_guard m p = Inr out"
    and "reachable out w" and "nodes (disk w) (name_of (cwd w) out) \<noteq> Some Dir"
  shows "\<exists>t w'. derivation_main K S m args w = Some (Inr (), w')
    \<and> calm_after w (overwritten (name_of (cwd w) out) (str_bytes t) (with_parent out w)) w'
    \<and> committed_derivation_vectors_test K S t = Some ()"
proof -
  obtain doc where doc: "derivation_vectors K = Some (Inr doc)"
    using kdf_crate.derivation_vectors_eq [OF assms(1)] by blast
  obtain t where t: "to_string_pretty S (derivation_json doc) = Inr t"
    "committed_derivation_vectors_test K S t = Some ()"
    using derivation_document_passes [OF assms(1-3) doc] by blast
  obtain w1 w2 where "create_parent out w = Some (Inr (), w1)" "fs_write out (str_bytes t) w1 = Some (Inr (), w2)"
    "calm_after w (overwritten (name_of (cwd w) out) (str_bytes t) (with_parent out w)) w2"
    using calm_write_document [OF assms(6,7)] by blast
  with doc t assms(4,5) show ?thesis
    by (intro exI [of _ t] exI [of _ w2]) (simp add: derivation_main_def io_bind_def io_map_err_def)
qed

lemma calm_binding_main:
  assumes "binding_crates K C" and "json_crate S"
    and "binding_output_path args = Inr p" and "binding_guard m p = Inr out"
    and "reachable out w" and "nodes (disk w) (name_of (cwd w) out) \<noteq> Some Dir"
  shows "\<exists>t w'. binding_main K C S m args w = Some (Inr (), w')
    \<and> calm_after w (overwritten (name_of (cwd w) out) (str_bytes t) (with_parent out w)) w'
    \<and> committed_positive_corpus_test K C S t = Some ()"
proof -
  obtain vs where vs: "binding_vectors K C = Some (Inr vs)"
    using binding_crates.binding_vectors_issued [OF assms(1)] by blast
  obtain t where t: "to_string_pretty S (binding_document vs) = Inr t"
    "committed_positive_corpus_test K C S (t @ newline) = Some ()"
    using binding_document_passes [OF assms(1,2) vs] by blast
  obtain w1 w2 where "create_parent out w = Some (Inr (), w1)"
    "fs_write out (str_bytes (t @ newline)) w1 = Some (Inr (), w2)"
    "calm_after w (overwritten (name_of (cwd w) out) (str_bytes (t @ newline)) (with_parent out w)) w2"
    using calm_write_document [OF assms(5,6)] by blast
  with vs t assms(3,4) show ?thesis
    by (intro exI [of _ "t @ newline"] exI [of _ w2])
      (simp add: binding_main_def io_bind_def io_map_err_def del: str_bytes_append)
qed

text \<open>A whole write as the names see it.\<close>

lemma custody_after_main:
  assumes "calm_after w (overwritten n d (with_parent p w)) w'" and "wf_fs (disk w)"
    and "nodes (with_parent p w) n \<noteq> Some Dir"
  shows "\<exists>x. custody n (disk w') = Some x \<and> f_data x = d
      \<and> (\<forall>y. custody n (disk w) = Some y \<longrightarrow> x = y \<lparr> f_data := d \<rparr>)"
    and "custody m (disk w) = Some y \<Longrightarrow> nodes (disk w) m \<noteq> nodes (disk w) n \<Longrightarrow> custody m (disk w') = Some y"
proof -
  note wf = wf_with_parent [OF assms(2), of p]
  have w': "disk w' = overwritten n d (with_parent p w)" using assms(1) by (simp add: calm_after_def)
  show "\<exists>x. custody n (disk w') = Some x \<and> f_data x = d
      \<and> (\<forall>y. custody n (disk w) = Some y \<longrightarrow> x = y \<lparr> f_data := d \<rparr>)"
    using custody_overwritten(1) [OF wf assms(3), of d] by (simp add: w')
  assume m: "custody m (disk w) = Some y" "nodes (disk w) m \<noteq> nodes (disk w) n"
  then have "nodes (with_parent p w) m = nodes (disk w) m"
    using nodes_with_parent_cases [of p w m] by (auto simp: custody_def)
  with m nodes_with_parent_cases [of p w n] have "nodes (with_parent p w) m \<noteq> nodes (with_parent p w) n"
    using assms(3) by auto
  with m(1) show "custody m (disk w') = Some y"
    using custody_overwritten(2) [OF wf assms(3), of m y d] by (simp add: w')
qed

lemma reachable_free:
  assumes "reachable p w" and "nodes (disk w) (name_of (cwd w) p) \<noteq> Some Dir"
  shows "nodes (with_parent p w) (name_of (cwd w) p) \<noteq> Some Dir"
proof -
  obtain l where "name_of (cwd w) p = name_of (cwd w) (identity_parent p) @ [l]"
    using reachable_name [OF assms(1)] by blast
  with assms(2) show ?thesis by (simp add: nodes_with_parent)
qed

subsection \<open>Properties\<close>

text \<open>
  C16: The negative corpus is right, from the program that writes it to the test that reads it: with
  crates that separate its fixed keys, on a path its guard accepts and that can be written, the
  generator succeeds; the file then holds the printed document of 40 vectors and a final newline,
  and every other file is as it was.  Wherever these bytes stand under the committed name, the
  conformance test passes: verification refuses each input with the class its entry names.
\<close>

theorem negative_corpus_conforms:
  assumes "corpus_crates K C" and "corpus_separates K" and "json_crate S"
    and "negative_output_path args = Inr p" and "guarded_output_path V m p = Inr out"
    and "calm w" and "wf_fs (disk w)" and "\<not> path_empty out" and "resolve w out \<noteq> []"
    and "dir_at (disk w) (butlast (resolve w out))" and "nodes (disk w) (resolve w out) \<noteq> Some Dir"
  shows "\<exists>vs t w'. negative_main K C S V m args w = Some (Inr (), w')
     \<and> generate_vectors K C = Some (Inr vs) \<and> length vs = 40
     \<and> from_slice S (str_bytes (t @ newline)) = Inr (negative_document vs)
     \<and> (\<exists>x. custody (resolve w out) (disk w') = Some x \<and> f_data x = str_bytes (t @ newline))
     \<and> (\<forall>n y. custody n (disk w) = Some y \<and> nodes (disk w) n \<noteq> nodes (disk w) (resolve w out)
          \<longrightarrow> custody n (disk w') = Some y)
     \<and> (\<forall>r (v :: 'y world_scheme) y. calm v
          \<and> custody (resolve v (join_path r (path_of ''tests/vectors/repository-signing-v1/negative.json''))) (disk v)
              = Some y
          \<and> f_data y = str_bytes (t @ newline)
          \<longrightarrow> (\<exists>v'. committed_negative_corpus_test K C S r v = Some (Inr (), v') \<and> disk v' = disk v))"
proof -
  let ?committed = "path_of ''tests/vectors/repository-signing-v1/negative.json''"
  obtain vs t where vs: "generate_vectors K C = Some (Inr vs)" "length vs = 40"
    and t: "to_string_pretty S (negative_document vs) = Inr t"
      "from_slice S (str_bytes (t @ newline)) = Inr (negative_document vs)"
    and test: "fs_read (join_path r ?committed) v = Some (Inr (str_bytes (t @ newline)), v')
      \<Longrightarrow> committed_negative_corpus_test K C S r v = Some (Inr (), v')" for r and v v' :: "'y world_scheme"
    using negative_document_passes [OF assms(1-3)] by blast
  obtain w' where w': "fs_write out (str_bytes (t @ newline)) w = Some (Inr (), w')"
    "calm_after w (overwritten (resolve w out) (str_bytes (t @ newline)) (disk w)) w'"
    using calm_fs_write [OF assms(6-11) [unfolded resolve_name_of]] unfolding resolve_name_of by blast
  have disk: "disk w' = overwritten (resolve w out) (str_bytes (t @ newline)) (disk w)"
    using w'(2) by (simp add: calm_after_def)
  have run: "negative_main K C S V m args w = Some (Inr (), w')"
    using assms(4,5) vs t(1) w'(1) by (simp add: negative_main_def io_bind_def io_map_err_def del: str_bytes_append)
  have passes: "\<exists>v'. committed_negative_corpus_test K C S r v = Some (Inr (), v') \<and> disk v' = disk v"
    if v: "calm v" "custody (resolve v (join_path r ?committed)) (disk v) = Some y" "f_data y = str_bytes (t @ newline)"
    for r y and v :: "'y world_scheme"
  proof -
    have "\<not> path_empty (join_path r ?committed)"
      by (simp add: path_empty_def join_path_def path_of_def Let_def)
    from calm_read_custody [OF v(1) this v(2) [unfolded resolve_name_of]] v(3) test show ?thesis
      by (fastforce simp: calm_after_def)
  qed
  show ?thesis
  proof (intro exI [of _ vs] exI [of _ t] exI [of _ w'] conjI)
    show "\<exists>x. custody (resolve w out) (disk w') = Some x \<and> f_data x = str_bytes (t @ newline)"
      using custody_overwritten(1) [OF assms(7,11), of "str_bytes (t @ newline)"] unfolding disk by blast
    show "\<forall>n y. custody n (disk w) = Some y \<and> nodes (disk w) n \<noteq> nodes (disk w) (resolve w out)
        \<longrightarrow> custody n (disk w') = Some y"
      using custody_overwritten(2) [OF assms(7,11)] unfolding disk by blast
  qed (use run vs t(2) passes in blast)+
qed

theorem negative_corpus_conforms_witness:
  "\<exists>t w'. negative_main sum_crates ref_cbor ref_json \<lparr> current_dir = Inr \<lparr> absolute = True, comps = [''repo''] \<rparr>,
       canonicalize = Inr, is_symlink = (\<lambda>_. False) \<rparr> \<lparr> absolute = True, comps = [''repo''] \<rparr>
       [''generate'', ''--output'', ''/negative.json''] sample_world = Some (Inr (), w')
     \<and> (\<exists>x. custody [''negative.json''] (disk w') = Some x \<and> f_data x = str_bytes (t @ newline))"
proof -
  let ?out = "\<lparr> absolute = True, comps = [''negative.json''] \<rparr>"
  let ?V = "\<lparr> current_dir = Inr \<lparr> absolute = True, comps = [''repo''] \<rparr>, canonicalize = Inr, is_symlink = (\<lambda>_. False) \<rparr>"
  have "negative_output_path [''generate'', ''--output'', ''/negative.json''] = Inr ?out"
    by (simp add: negative_output_path_def output_path_def path_of_def Let_def)
  moreover have "guarded_output_path ?V \<lparr> absolute = True, comps = [''repo''] \<rparr> ?out = Inr ?out"
    by (simp add: guarded_output_path_def path_file_name_def path_parent_def path_join_def path_starts_with_def)
  ultimately show ?thesis
    using negative_corpus_conforms [OF sum_corpus.corpus_crates_axioms sum_separates ref_json.json_crate_axioms,
        of "[''generate'', ''--output'', ''/negative.json'']" ?out ?V "\<lparr> absolute = True, comps = [''repo''] \<rparr>" ?out
        sample_world]
    by (simp add: path_empty_def resolve_def) blast
qed

text \<open>
  C36: Regenerating the derivation vectors in the repository overwrites the committed file: started
  there with the relative path of \<^verbatim>\<open>tests/test-vectors.json\<close>, the generator succeeds although it means
  to refuse the tests directory, and the committed file, its inode and mode kept, then holds a
  document that passes the test that reads it.  The absolute spelling of the same file is refused
  before anything is touched.
\<close>

theorem relative_output_overwrites_committed_vectors:
  assumes "kdf_crate K" and "hex_crate K" and "json_crate S" and "absolute m" and "cwd w = resolve w m"
    and "reachable (path_of ''tests/test-vectors.json'') w"
    and "custody (resolve w (join_path m (path_of ''tests/test-vectors.json''))) (disk w) = Some x"
  shows "(\<exists>t w'. derivation_main K S m [prog, ''--output'', ''tests/test-vectors.json''] w = Some (Inr (), w')
        \<and> custody (resolve w (join_path m (path_of ''tests/test-vectors.json''))) (disk w')
            = Some (x \<lparr> f_data := str_bytes t \<rparr>)
        \<and> committed_derivation_vectors_test K S t = Some ())
     \<and> (\<forall>q. path_of q = join_path m (path_of ''tests/test-vectors.json'') \<longrightarrow>
          derivation_main K S m [prog, ''--output'', q] w = Some (Inl (Gen_Message refusal_text), w))"
proof
  let ?p = "path_of ''tests/test-vectors.json''"
  have p: "?p = \<lparr> absolute = False, comps = [''tests'', ''test-vectors.json''] \<rparr>"
    by (simp add: path_of_def Let_def)
  have same: "resolve w (join_path m ?p) = name_of (cwd w) ?p"
    using assms(4,5) by (simp add: resolve_def name_of_def join_path_def p)
  have held: "nodes (disk w) (name_of (cwd w) ?p) \<noteq> Some Dir"
    using assms(7) by (auto simp: same custody_Some_iff)
  have out: "derivation_output_path [prog, ''--output'', ''tests/test-vectors.json''] = Inr ?p"
    by (simp add: derivation_output_path_def output_path_def)
  have guard: "derivation_guard m ?p = Inr ?p"
    by (rule lexical_guard_relative [OF assms(4), THEN conjunct1]) (simp add: p)
  obtain t w' where run: "derivation_main K S m [prog, ''--output'', ''tests/test-vectors.json''] w = Some (Inr (), w')"
    and after: "calm_after w (overwritten (name_of (cwd w) ?p) (str_bytes t) (with_parent ?p w)) w'"
    and test: "committed_derivation_vectors_test K S t = Some ()"
    using calm_derivation_main [OF assms(1-3) out guard assms(6) held] by blast
  have "wf_fs (disk w)" using assms(6) by (simp add: reachable_def)
  from custody_after_main(1) [OF after this reachable_free [OF assms(6) held]] assms(7)
  have "custody (resolve w (join_path m ?p)) (disk w') = Some (x \<lparr> f_data := str_bytes t \<rparr>)"
    unfolding same by blast
  with run test show "\<exists>t w'. derivation_main K S m [prog, ''--output'', ''tests/test-vectors.json''] w = Some (Inr (), w')
        \<and> custody (resolve w (join_path m ?p)) (disk w') = Some (x \<lparr> f_data := str_bytes t \<rparr>)
        \<and> committed_derivation_vectors_test K S t = Some ()" by blast
  show "\<forall>q. path_of q = join_path m ?p \<longrightarrow>
      derivation_main K S m [prog, ''--output'', q] w = Some (Inl (Gen_Message refusal_text), w)"
    by (simp add: derivation_main_def io_bind_def derivation_output_path_def output_path_def derivation_guard_def
        path_starts_with_def path_join_def join_path_def p)
qed

text \<open>A checkout with the committed vectors, and the program started in it.\<close>

definition checkout_world :: world where
  "checkout_world = sample_world \<lparr> cwd := [''repo''],
     disk := \<lparr> nodes = [[''repo''] \<mapsto> Dir, [''repo'', ''tests''] \<mapsto> Dir, [''repo'', ''tests'', ''test-vectors.json''] \<mapsto> File 0],
       inodes = [\<lparr> f_data = [1, 2, 3], f_mode = shared_mode, f_mine = False \<rparr>] \<rparr> \<rparr>"

lemma checkout_reachable:
  "reachable \<lparr> absolute = False, comps = [''tests'', ''test-vectors.json''] \<rparr> checkout_world"
proof -
  have "utf8_valid ''test-vectors.json''" by code_simp
  moreover have "dir_at (disk checkout_world) (take k [''repo'', ''tests''])" for k
    by (cases k; cases "k - 1") (simp_all add: checkout_world_def dir_at_def)
  moreover have "calm checkout_world" "wf_fs (disk checkout_world)" "dir_at (disk checkout_world) (cwd checkout_world)"
    "cwd checkout_world = [''repo'']"
    by (simp_all add: checkout_world_def sample_world_def calm_def wf_fs_def dir_at_def)
  ultimately show ?thesis
    by (simp add: reachable_def has_name_def path_file_name_def identity_parent_def path_parent_def name_of_def
        Let_def)
qed

theorem relative_output_overwrites_committed_vectors_witness:
  "\<exists>t w'. derivation_main ref_crates ref_json \<lparr> absolute = True, comps = [''repo''] \<rparr>
       [''generate'', ''--output'', ''tests/test-vectors.json''] checkout_world = Some (Inr (), w')
     \<and> custody [''repo'', ''tests'', ''test-vectors.json''] (disk w')
         = Some \<lparr> f_data = str_bytes t, f_mode = shared_mode, f_mine = False \<rparr>"
proof -
  let ?m = "\<lparr> absolute = True, comps = [''repo''] \<rparr>"
  have p: "path_of ''tests/test-vectors.json'' = \<lparr> absolute = False, comps = [''tests'', ''test-vectors.json''] \<rparr>"
    by (simp add: path_of_def Let_def)
  have names: "resolve checkout_world (join_path ?m \<lparr> absolute = False, comps = [''tests'', ''test-vectors.json''] \<rparr>)
      = [''repo'', ''tests'', ''test-vectors.json'']" "cwd checkout_world = resolve checkout_world ?m"
    by (simp_all add: resolve_def join_path_def checkout_world_def)
  have "custody [''repo'', ''tests'', ''test-vectors.json''] (disk checkout_world)
      = Some \<lparr> f_data = [1, 2, 3], f_mode = shared_mode, f_mine = False \<rparr>"
    by (simp add: custody_def checkout_world_def)
  from relative_output_overwrites_committed_vectors [OF ref_kdf.kdf_crate_axioms ref_hex.hex_crate_axioms
      ref_json.json_crate_axioms, of ?m checkout_world, unfolded p names(1), OF _ names(2) checkout_reachable this]
  show ?thesis by fastforce
qed

text \<open>
  C37: The positive corpus is right, from the program that writes it to the test that reads it: on a
  path its guard lets through and that can be written, the generator of the binding vectors
  succeeds; missing directories above the file are made, every other file is as it was, and the
  text the file then holds passes the corpus test, which issues each binding again and compares
  every signed layer.
\<close>

theorem positive_corpus_conforms:
  assumes "binding_crates K C" and "json_crate S"
    and "binding_output_path args = Inr p" and "binding_guard m p = Inr out"
    and "reachable out w" and "nodes (disk w) (resolve w out) \<noteq> Some Dir"
  shows "\<exists>t w' x. binding_main K C S m args w = Some (Inr (), w')
     \<and> custody (resolve w out) (disk w') = Some x \<and> f_data x = str_bytes t
     \<and> (\<forall>n y. custody n (disk w) = Some y \<and> nodes (disk w) n \<noteq> nodes (disk w) (resolve w out)
          \<longrightarrow> custody n (disk w') = Some y)
     \<and> committed_positive_corpus_test K C S t = Some ()"
proof -
  note free = assms(6) [unfolded resolve_name_of]
  obtain t w' where run: "binding_main K C S m args w = Some (Inr (), w')"
    and after: "calm_after w (overwritten (resolve w out) (str_bytes t) (with_parent out w)) w'"
    and test: "committed_positive_corpus_test K C S t = Some ()"
    using calm_binding_main [OF assms(1-5) free] unfolding resolve_name_of by blast
  have wf: "wf_fs (disk w)" using assms(5) by (simp add: reachable_def)
  note disk = custody_after_main [OF after wf reachable_free [OF assms(5) free, folded resolve_name_of]]
  with run test show ?thesis by blast
qed

theorem positive_corpus_conforms_witness:
  "\<exists>t w'. binding_main ref_crates ref_cbor ref_json \<lparr> absolute = True, comps = [''repo''] \<rparr>
       [''generate'', ''--output'', ''/id/identity.key''] sample_world = Some (Inr (), w')
     \<and> committed_positive_corpus_test ref_crates ref_cbor ref_json t = Some ()"
proof -
  have "binding_output_path [''generate'', ''--output'', ''/id/identity.key''] = Inr sample_path"
    by (simp add: binding_output_path_def output_path_def path_of_def Let_def sample_path_def)
  moreover have "binding_guard \<lparr> absolute = True, comps = [''repo''] \<rparr> sample_path = Inr sample_path"
    by (simp add: binding_guard_def path_starts_with_def path_join_def sample_path_def)
  moreover have "reachable sample_path sample_world"
    using sample_ready [of ref_crates] by (simp add: ready_def)
  ultimately show ?thesis
    using positive_corpus_conforms [OF ref_binding.binding_crates_axioms ref_json.json_crate_axioms] by fastforce
qed

end
