(* ===== verification/Spec2Isabelle.thy ===== *)
theory Spec2Isabelle
  imports Prelude Utf8 Crates RefCrates Derive IdentityId Identity RecordsCommon RuntimeCertificate
    LifecycleTransition RepositorySigning FileSystem Signer FileSigner Vault VaultSession
    SshAgent Keychain AndroidKeystore YubiKey Discover Format Export NetAddr Pki CertChain
    NegativeVectors PublishedVectors KnownAnswers
    Json Generators Conformance
begin

text \<open>
  A verification library for \<^verbatim>\<open>styrene-identity\<close>, the Rust crate that turns one 32-byte root secret
  into an identity: keys for every protocol, signed records, certificates, and the custody of the
  root.  The theories follow the source files; every definition named like a Rust item translates it.

  \<^bold>\<open>How the program works.\<close>  A root secret comes from a signer (\<^verbatim>\<open>signer.rs\<close>): an encrypted file
  (\<^verbatim>\<open>file_signer.rs\<close>, managed by \<^verbatim>\<open>vault.rs\<close>, found by \<^verbatim>\<open>discover.rs\<close>), the Apple Keychain
  (\<^verbatim>\<open>keychain_signer.rs\<close>), the Android Keystore (\<^verbatim>\<open>android_keystore_signer.rs\<close>) or a FIDO2 key
  (\<^verbatim>\<open>yubikey_signer.rs\<close>), alone or in a chain.  \<^verbatim>\<open>derive.rs\<close> grows the HKDF tree from it;
  \<^verbatim>\<open>identity.rs\<close>, \<^verbatim>\<open>identity_id.rs\<close> and \<^verbatim>\<open>pubkey.rs\<close> name and verify the identity;
  \<^verbatim>\<open>records/\<close> and \<^verbatim>\<open>repository_signing.rs\<close> build what it signs; \<^verbatim>\<open>ssh_agent.rs\<close> serves its SSH
  keys; \<^verbatim>\<open>pki.rs\<close> issues its certificates; \<^verbatim>\<open>format.rs\<close> and \<^verbatim>\<open>export.rs\<close> print its public side.

  \<^bold>\<open>The theories.\<close>
  \<^item> \<^theory_text>\<open>Prelude\<close>: results, panics, effects, bytes, checked arithmetic; \<^theory_text>\<open>Utf8\<close>: the characters of a
    \<^verbatim>\<open>str\<close>; \<^theory_text>\<open>NetAddr\<close>: \<^verbatim>\<open>IpAddr\<close> as text, with the proof that an address is determined by it.
  \<^item> \<^theory_text>\<open>Crates\<close>: third-party crates as parameters (\<open>crates\<close>, \<open>cbor\<close>), their documented behaviour as
    locales (\<open>hash_crate\<close>, \<open>kdf_crate\<close>, \<open>ed25519_crate\<close>, \<open>hex_crate\<close>, \<open>ct_crate\<close>, \<open>aead_crate\<close>,
    \<open>cbor_crate\<close>); \<^theory_text>\<open>RefCrates\<close> interprets each of them on concrete functions.
  \<^item> \<^theory_text>\<open>Derive\<close>: \<^verbatim>\<open>derive.rs\<close>.  Every operation refines an abstract tree of paths; paths separate;
    equal keys exhibit an HKDF collision.
  \<^item> \<^theory_text>\<open>IdentityId\<close>, \<^theory_text>\<open>Identity\<close>: identifiers, attestations, public keys.
  \<^item> \<^theory_text>\<open>RecordsCommon\<close>, \<^theory_text>\<open>RuntimeCertificate\<close>, \<^theory_text>\<open>LifecycleTransition\<close>: \<^verbatim>\<open>records/\<close>.  The signing frame
    is injective, the validators decide profiles stated over the integers, and the two record types
    interpret one contract (\<open>signed_record\<close>).
  \<^item> \<^theory_text>\<open>RepositorySigning\<close>: issuing and strict verification of bindings, down to the bytes.
  \<^item> \<^theory_text>\<open>FileSystem\<close>: paths, inodes and the file-system calls; a world carries the disk, a schedule of
    faults, what other processes do between two calls, and the trail of disks.
    \<^theory_text>\<open>FileSigner\<close>, \<^theory_text>\<open>Vault\<close>: the encrypted file, its exclusive installation, backup and restore, as
    invariants over every fault and interference and as outcomes on a calm disk.  \<^theory_text>\<open>VaultSession\<close>:
    any sequence of vault calls keeps the identity file and answers truly about it, every call
    returns, and on a calm disk a session is a run of an abstract machine of custody.
  \<^item> \<^theory_text>\<open>Signer\<close>: signers as records of actions, the chain, and the contract \<open>identity_signer\<close> that
    \<^theory_text>\<open>FileSigner\<close>, \<^theory_text>\<open>Keychain\<close>, \<^theory_text>\<open>AndroidKeystore\<close> and \<^theory_text>\<open>YubiKey\<close> interpret on their own \<open>sign\<close>.
  \<^item> \<^theory_text>\<open>Discover\<close>, \<^theory_text>\<open>SshAgent\<close>, \<^theory_text>\<open>Format\<close>, \<^theory_text>\<open>Export\<close>: the clients of a root and of its public keys.
  \<^item> \<^theory_text>\<open>Pki\<close>, \<^theory_text>\<open>CertChain\<close>: certificates.  Seed labels, serial inputs and URIs determine what they were
    built from; alternative names normalise to a set; a request is decided by a table and yields the
    authority and the leaf it asks for.
  \<^item> \<^theory_text>\<open>NegativeVectors\<close>, \<^theory_text>\<open>PublishedVectors\<close>: the generators under \<^verbatim>\<open>examples/\<close>.  Verification refuses
    each input of the negative corpus with the class its entry names; the published documents show
    what the library computes; of the guards on the output path one resolves it and two do not.
    \<^theory_text>\<open>KnownAnswers\<close> evaluates SHA-256 and HKDF in the kernel: the seed of the committed vectors.
  \<^item> \<^theory_text>\<open>Json\<close>: the values of \<^verbatim>\<open>serde_json\<close>, its printing and reading as a parameter with the law
    \<open>json_crate\<close>.  \<^theory_text>\<open>Generators\<close>: the three programs from their arguments to the file they write.
    \<^theory_text>\<open>Conformance\<close>: the tests that read the committed vectors, each of which passes on what its
    generator writes; where a generator writes although it means to refuse; the minimal consumer.
  \<^item> This theory: what holds between components.  Signed inputs of different record types never
    coincide, and a root created in a vault is one identity in the file signer, the SSH agent and the
    repository binding.

  \<^bold>\<open>Correspondence.\<close>  A struct is a record, an enum a datatype, \<^verbatim>\<open>Result\<close> a sum with the error on the
  left, a panic (\<^verbatim>\<open>expect\<close>, \<^verbatim>\<open>unreachable!\<close>) the value \<^term>\<open>None\<close>; a method on the world is a function
  of type \<open>('w, 'e, 'a) io\<close>.  Strings are lists of UTF-8 bytes.  Machine integers are words where
  the source computes with them.  A session is a step relation over the calls of one vault.  An adapter of a third-party service takes a record of the calls it
  makes, and the state of the service is part of the world.  An asynchronous function is modelled as its body run to completion.

  \<^bold>\<open>Bounds and termination.\<close>  Every loop is structural recursion over its input, so none is
  partial; \<open>show_base\<close> and the IPv6 reader recurse on a decreasing number.  \<open>chunks\<close> counts down from the
  length of its text, which is enough because every round but the last takes 64 characters.  Length
  fields are bounded by hypotheses such as \<open>length c < 2 ^ 64\<close>, which every Rust string meets.

  \<^bold>\<open>Limits of the statements.\<close>  Cryptography enters through documented laws only; where two keys or
  identifiers agree, the theorems exhibit the colliding inputs instead of assuming there are none.
  Both \<^verbatim>\<open>identity_sign\<close> and the agent's Git key sign bytes chosen by the caller under the identity key,
  so the separation of signed inputs concerns the three record types and not such free messages.
  The disk is written through: a completed call is never lost, so the theorems on interruption order
  the calls of a run but do not show what \<^verbatim>\<open>sync_all\<close> adds against a loss of power.

  \<^bold>\<open>Not modelled.\<close>  Zeroising memory and redacted \<^verbatim>\<open>Debug\<close> output other than that of
  certificates and roots; the \<^verbatim>\<open>Display\<close> texts of error types; \<^verbatim>\<open>lib.rs\<close>, which re-exports; the
  tests other than the three that read the committed vectors: the library's theorems state what they
  sample.  The text that \<^verbatim>\<open>serde_json\<close> prints is a parameter, its own codec only shows that the law
  can hold.  The CBOR of the derived
  record types (\<^verbatim>\<open>minicbor\<close>'s derive macros) is a parameter.  Branches of \<^verbatim>\<open>cfg\<close> for systems other than
  Unix are left out.
\<close>

section \<open>Signatures do not transfer between components\<close>

lemma binding_frame_is_signing_frame:
  assumes "binding_frame p = Inr f"
  shows "signing_frame SIGNING_DOMAIN p = Inr f"
  using assms
  by (auto simp: binding_frame_def signing_frame_def SIGNING_DOMAIN_def PROFILE_VERSION_def
      RECORD_PROFILE_VERSION_def res_iffs str_bytes_def)

lemma runtime_input_frame:
  "RuntimeClaims_signing_input K to_rsa to_rc c = Inr f \<Longrightarrow>
     \<exists>p. signing_frame RUNTIME_CERTIFICATE_DOMAIN p = Inr f"
  by (auto simp: RuntimeClaims_signing_input_def res_iffs)

lemma lifecycle_input_frame:
  "LifecycleClaims_signing_input to_lt d = Inr f \<Longrightarrow>
     \<exists>p. signing_frame LIFECYCLE_TRANSITION_DOMAIN p = Inr f"
  by (auto simp: LifecycleClaims_signing_input_def res_iffs)

lemma domains_distinct:
  "distinct [RUNTIME_CERTIFICATE_DOMAIN, LIFECYCLE_TRANSITION_DOMAIN, SIGNING_DOMAIN]"
  by (simp add: RUNTIME_CERTIFICATE_DOMAIN_def LIFECYCLE_TRANSITION_DOMAIN_def SIGNING_DOMAIN_def)

text \<open>
  C1: A signature made for one kind of record is never one for another: the inputs that are signed
  for runtime certificates, lifecycle transitions and repository signer bindings never coincide, each
  determines the protected bytes it was made for, and the record sent with a signature carries
  exactly those bytes.
\<close>

theorem signatures_do_not_transfer:
  assumes "f \<in> {f1, f2, f3}"
    and "RuntimeClaims_signing_input K to_rsa to_rc c = Inr f1"
    and "LifecycleClaims_signing_input to_lt d = Inr f2"
    and "binding_signing_frame b = Inr f3"
    and "RuntimeCertificate_from_claims K to_rsa to_rc c s1 = Inr r"
    and "LifecycleTransition_from_claims to_lt d s2 = Inr t"
  shows "distinct [f1, f2, f3]
    \<and> (RuntimeClaims_signing_input K to_rsa to_rc c' = Inr f \<longrightarrow> f = f1 \<and> to_rc c' = Inr (rcert_protected r))
    \<and> (LifecycleClaims_signing_input to_lt d' = Inr f \<longrightarrow> f = f2 \<and> to_lt d' = Inr (ltran_protected t))
    \<and> (binding_signing_frame b' = Inr f \<longrightarrow> f = f3 \<and> rsb_protected b' = rsb_protected b)
    \<and> RuntimeClaims_validate K to_rsa c = Inr () \<and> rcert_signature r = s1
    \<and> LifecycleClaims_validate d = Inr () \<and> ltran_signature t = s2"
proof -
  obtain p1 where p1: "signing_frame RUNTIME_CERTIFICATE_DOMAIN p1 = Inr f1"
    using runtime_input_frame [OF assms(2)] by blast
  obtain p2 where p2: "signing_frame LIFECYCLE_TRANSITION_DOMAIN p2 = Inr f2"
    using lifecycle_input_frame [OF assms(3)] by blast
  have p3: "signing_frame SIGNING_DOMAIN (rsb_protected b) = Inr f3"
    using assms(4) unfolding binding_signing_frame_def by (rule binding_frame_is_signing_frame)
  have distinct: "distinct [f1, f2, f3]"
    using signing_frame_inject [OF p1] signing_frame_inject [OF p2] p1 p2 p3 domains_distinct by auto
  have runtime: "f = f1 \<and> to_rc c' = Inr (rcert_protected r)"
    if run: "RuntimeClaims_signing_input K to_rsa to_rc c' = Inr f"
  proof -
    obtain p where "signing_frame RUNTIME_CERTIFICATE_DOMAIN p = Inr f" using runtime_input_frame [OF run] by blast
    then have "f = f1" using assms(1) p2 p3 domains_distinct signing_frame_inject by (metis distinct_length_2_or_more empty_iff insertE)
    with run assms(2) have "to_rc c' = to_rc c" using runtime_record.input_inject by metis
    with runtime_record.signed_is_sent [of K to_rsa to_rc c f1 s1 r] assms(2,5) \<open>f = f1\<close> show ?thesis by auto
  qed
  have lifecycle: "f = f2 \<and> to_lt d' = Inr (ltran_protected t)"
    if run: "LifecycleClaims_signing_input to_lt d' = Inr f"
  proof -
    obtain p where "signing_frame LIFECYCLE_TRANSITION_DOMAIN p = Inr f" using lifecycle_input_frame [OF run] by blast
    then have "f = f2" using assms(1) p1 p3 domains_distinct signing_frame_inject by (metis distinct_length_2_or_more empty_iff insertE)
    with run assms(3) have "to_lt d' = to_lt d" using lifecycle_record.input_inject by metis
    with lifecycle_record.signed_is_sent [of to_lt d f2 s2 t] assms(3,6) \<open>f = f2\<close> show ?thesis by auto
  qed
  have binding: "f = f3 \<and> rsb_protected b' = rsb_protected b" if run: "binding_signing_frame b' = Inr f"
  proof -
    have p: "signing_frame SIGNING_DOMAIN (rsb_protected b') = Inr f"
      using run unfolding binding_signing_frame_def by (rule binding_frame_is_signing_frame)
    then have "f = f3" using assms(1) p1 p2 domains_distinct signing_frame_inject by (metis distinct_length_2_or_more empty_iff insertE)
    with signing_frame_inject [OF p3] p show ?thesis by simp
  qed
  have sent: "RuntimeClaims_validate K to_rsa c = Inr () \<and> rcert_signature r = s1"
    "LifecycleClaims_validate d = Inr () \<and> ltran_signature t = s2"
    using runtime_record.signed_is_sent [of K to_rsa to_rc c f1 s1 r]
      lifecycle_record.signed_is_sent [of to_lt d f2 s2 t] assms(2,3,5,6) by auto
  show ?thesis
    by (intro conjI impI) (use distinct runtime lifecycle binding sent in blast)+
qed

text \<open>The samples of the three components, signed over three bytes each.\<close>

lemma sample_records_valid:
  "RuntimeClaims_validate lite_crates (\<lambda>_. Inl ''unused'') sample_claims = Inr ()"
  "LifecycleClaims_validate sample_transition = Inr ()"
proof -
  have key: "runtime_key_bound lite_crates (\<lambda>_. Inl ''unused'') sample_claims"
    by (simp add: runtime_key_bound_def sample_claims_def derive_key_id_def canonical_bytes_def lite_crates_def)
  then show "RuntimeClaims_validate lite_crates (\<lambda>_. Inl ''unused'') sample_claims = Inr ()"
    by (simp add: RuntimeClaims_validate_Inr_iff) (simp add: sample_claims_def security_identifier_def validity_ok_def custody_ok_def)
  show "LifecycleClaims_validate sample_transition = Inr ()"
    using sample_fork_ok
    by (simp add: LifecycleClaims_validate_Inr_iff)
      (simp add: sample_transition_def domain_key_ok_def security_identifier_def chain_position_ok_def compromise_ok_def)
qed

lemma sample_frame: "\<exists>f. signing_frame RUNTIME_CERTIFICATE_DOMAIN [1, 2, 3] = Inr f"
  "\<exists>f. signing_frame LIFECYCLE_TRANSITION_DOMAIN [1, 2, 3] = Inr f"
  using runtime_record.domain_ok signing_frame_Inr_iff [of RUNTIME_CERTIFICATE_DOMAIN "[1, 2, 3]"]
    lifecycle_record.domain_ok signing_frame_Inr_iff [of LIFECYCLE_TRANSITION_DOMAIN "[1, 2, 3]"]
  by auto

theorem signatures_do_not_transfer_witness:
  "\<exists>f1 f2 f3. RuntimeClaims_signing_input lite_crates (\<lambda>_. Inl ''unused'') (\<lambda>_. Inr [1, 2, 3]) sample_claims = Inr f1
     \<and> LifecycleClaims_signing_input (\<lambda>_. Inr [1, 2, 3]) sample_transition = Inr f2
     \<and> binding_signing_frame \<lparr> rsb_protected = [1, 2, 3], rsb_signature = [] \<rparr> = Inr f3
     \<and> distinct [f1, f2, f3]"
proof -
  let ?b = "\<lparr> rsb_protected = [1, 2, 3], rsb_signature = [] \<rparr>"
  obtain f1 where f1: "RuntimeClaims_signing_input lite_crates (\<lambda>_. Inl ''unused'') (\<lambda>_. Inr [1, 2, 3]) sample_claims = Inr f1"
    using sample_frame(1) sample_records_valid(1)
    by (auto simp: RuntimeClaims_signing_input_def RuntimeClaims_protected_bytes_def)
  obtain f2 where f2: "LifecycleClaims_signing_input (\<lambda>_. Inr [1, 2, 3]) sample_transition = Inr f2"
    using sample_frame(2) sample_records_valid(2)
    by (auto simp: LifecycleClaims_signing_input_def LifecycleClaims_protected_bytes_def)
  obtain f3 where f3: "binding_signing_frame ?b = Inr f3"
    using binding_frame_ok [of "[1, 2, 3]"] by (auto simp: binding_signing_frame_def)
  obtain r where r: "RuntimeCertificate_from_claims lite_crates (\<lambda>_. Inl ''unused'') (\<lambda>_. Inr [1, 2, 3]) sample_claims [9] = Inr r"
    using sample_records_valid(1) by (simp add: RuntimeCertificate_from_claims_def RuntimeClaims_protected_bytes_def)
  obtain t where t: "LifecycleTransition_from_claims (\<lambda>_. Inr [1, 2, 3]) sample_transition [9] = Inr t"
    using sample_records_valid(2) by (simp add: LifecycleTransition_from_claims_def LifecycleClaims_protected_bytes_def)
  have "distinct [f1, f2, f3]"
    using signatures_do_not_transfer [OF _ f1 f2 f3 r t, of f1] by blast
  with f1 f2 f3 show ?thesis by blast
qed

section \<open>One identity from the vault to its uses\<close>

text \<open>A file in custody that opens to a root: what a vault needs to serve it.\<close>

definition holds_root :: "crates \<Rightarrow> path \<Rightarrow> byte list \<Rightarrow> byte list \<Rightarrow> 'z world_scheme \<Rightarrow> bool" where
  "holds_root K p pw root w \<longleftrightarrow> reachable p w
     \<and> (\<exists>i. nodes (disk w) (name_of (cwd w) p) = Some (File i)
          \<and> opens K pw (f_data (inodes (disk w) ! i)) = Some root)"

lemma init_holds_root:
  fixes w :: "'z world_scheme"
  assumes "aead_crate K" and "ready K p w" and "length pw < 2 ^ 32" and "\<not> path_empty (identity_parent p)"
    and free: "nodes (disk w) (resolve w p) = None"
  shows "\<exists>w1 root. vault_init K (IdentityVault_new p provider) pw w = Some (Inr (), w1)
     \<and> length root = 32 \<and> holds_root K p pw root w1"
proof -
  let ?n = "name_of (cwd w) p"
  obtain d root w1 where root: "length root = 32" "opens K pw d = Some root"
    and run: "vault_init K (IdentityVault_new p provider) pw w = Some (Inr (), w1)"
    and after: "calm_after w (installed_at ?n d (with_parent p w)) w1"
    using calm_init [OF assms(1-4), of provider] free unfolding resolve_name_of by auto
  have reach: "reachable p w" using assms(2) by (simp add: ready_def)
  obtain l where "?n = name_of (cwd w) (identity_parent p) @ [l]"
    using reachable_name [OF reach] by blast
  then have "nodes (with_parent p w) ?n = None"
    using free by (simp add: nodes_with_parent resolve_name_of)
  from custody_installed [OF this, of d] have "holds_root K p pw root w1"
    using reachable_installed [OF reach after] after root(2)
    unfolding holds_root_def by (auto simp: calm_after_def private_file_def)
  with run root(1) show ?thesis by blast
qed

lemma holds_root_serves:
  fixes w :: "'z world_scheme"
  assumes "aead_crate K" and "holds_root K p pw root w"
  shows "\<exists>w'. file_root_secret K (FileSigner_new p (StaticPassphraseProvider pw)) w = Some (Inr root, w')
     \<and> holds_root K p pw root w'"
proof -
  obtain i where reach: "reachable p w" and held: "nodes (disk w) (name_of (cwd w) p) = Some (File i)"
    "opens K pw (f_data (inodes (disk w) ! i)) = Some root"
    using assms(2) unfolding holds_root_def by blast
  obtain w' where read: "fs_read p w = Some (Inr (f_data (inodes (disk w) ! i)), w')" "calm_after w (disk w) w'"
    using calm_read_any [OF reach] held by (auto simp: read_result_def)
  have "file_decrypt K (f_data (inodes (disk w) ! i)) pw = Some (Inr root)"
    using held(2) by (cases rule: opens_cases [OF assms(1), of "f_data (inodes (disk w) ! i)" pw]) simp_all
  then have run: "file_root_secret K (FileSigner_new p (StaticPassphraseProvider pw)) w = Some (Inr root, w')"
    using read(1) by (simp add: file_root_secret_def file_load_def StaticPassphraseProvider_def FileSigner_new_def
        io_bind_def io_map_err_def io_pure_def)
  have "holds_root K p pw root w'"
    using held reachable_same [OF reach read(2)] read(2) unfolding holds_root_def by (auto simp: calm_after_def)
  with run show ?thesis by blast
qed

text \<open>An agent that serves the Git key alone, on a signer that answers one root.\<close>

lemma git_agent_serves:
  assumes "kdf_crate K" and "ed25519_crate K"
    and "sg_root_secret s w = Some (Inr root, w1)" and "sg_root_secret s w1 = Some (Inr root, w2)"
    and "\<And>b. length b = 64 \<Longrightarrow> signature_new b = Inr b"
  defines "agent \<equiv> with_git_signing (StyreneAgent_new s [])"
    and "pk \<equiv> ed_verifying_key K (identity_seed K root)"
  shows "\<exists>keys. request_identities K agent w = Some (Inr keys, w1) \<and> pubkey ` set keys = {Ed25519Key pk}"
    and "\<exists>sig. agent_sign K signature_new agent \<lparr> sr_pubkey = Ed25519Key pk, sr_data = msg \<rparr> w = Some (Inr sig, w2)
       \<and> ed_verify_strict K pk msg sig"
proof -
  have agent: "served agent = [GitSigningSpec]" "named_labels agent" "ag_signer agent = s"
    by (simp_all add: agent_def served_def named_labels_def with_git_signing_def StyreneAgent_new_def)
  have seed: "path_key K root (request_path (spec_request GitSigningSpec)) = identity_seed K root"
    by (simp add: identity_seed_def)
  then have key: "spec_key K root GitSigningSpec = pk" by (simp add: spec_key_def pk_def)
  have table: "derive_public_map K agent w = Some (Inr (table_of K root [GitSigningSpec]), w1)"
    using public_map_run [OF assms(1), of agent w] agent assms(3) by simp
  have entries: "table_of K root [GitSigningSpec] = ([advertise K root GitSigningSpec], [pk \<mapsto> GitSigningSpec])"
    by (simp add: table_of_def key)
  show "\<exists>keys. request_identities K agent w = Some (Inr keys, w1) \<and> pubkey ` set keys = {Ed25519Key pk}"
    by (simp add: request_identities_def io_bind_def table entries advertise_def key)
  have "derive_seed K agent GitSigningSpec w1 = Some (Inr (identity_seed K root), w2)"
    using derive_spec_path [OF assms(1) agent(2), of GitSigningSpec root] seed
    by (simp add: derive_seed_def io_bind_def io_map_err_def io_pure_def agent assms(4) del: spec_request.simps)
  moreover have "length (identity_seed K root) = 32"
    using kdf_crate.length_path_key [OF assms(1)] by (simp add: identity_seed_def)
  ultimately show "\<exists>sig. agent_sign K signature_new agent \<lparr> sr_pubkey = Ed25519Key pk, sr_data = msg \<rparr> w = Some (Inr sig, w2)
       \<and> ed_verify_strict K pk msg sig"
    using assms(5) [OF ed25519_crate.length_sig [OF assms(2)]] ed25519_crate.sign_verifies_strict [OF assms(2)]
    by (simp add: agent_sign_def io_bind_def io_res_def table entries sign_with_seed_def ed25519_signing_key_def pk_def Let_def)
qed

text \<open>
  C2: A root that a vault creates is one identity wherever it is used.  After the initialisation of
  an empty vault on a calm disk there is one public key such that: the file signer of that path signs
  so that the signature verifies under it; the SSH agent on that signer offers it as its Git key and
  signs with it; and the repository binding issued from the root verifies and names it as the
  identity's key.
\<close>

theorem vault_identity_is_one_identity:
  fixes w :: "'z world_scheme" and signature_new
  assumes "aead_crate K" and "binding_crates K C"
    and "ready K p w" and "length pw < 2 ^ 32" and "\<not> path_empty (identity_parent p)"
    and "nodes (disk w) (resolve w p) = None"
    and "\<And>b. length b = 64 \<Longrightarrow> signature_new b = Inr b"
  shows "let file = file_as_signer K (FileSigner_new p (StaticPassphraseProvider pw)) :: 'z world_scheme signer;
             agent = with_git_signing (StyreneAgent_new file []) in
     \<exists>w1 root pk. vault_init K (IdentityVault_new p (StaticPassphraseProvider pw)) pw w = Some (Inr (), w1)
       \<and> length root = 32 \<and> identity_pubkey K root = Some pk
       \<and> (\<exists>sig w2. sg_sign file msg w1 = Some (Inr sig, w2) \<and> identity_verify K pk msg sig)
       \<and> (\<exists>keys w2. request_identities K agent w1 = Some (Inr keys, w2) \<and> pubkey ` set keys = {Ed25519Key pk})
       \<and> (\<exists>sig w2. agent_sign K signature_new agent \<lparr> sr_pubkey = Ed25519Key pk, sr_data = msg \<rparr> w1 = Some (Inr sig, w2)
            \<and> ed_verify_strict K pk msg sig)
       \<and> (\<exists>b bytes v. issue_derived K C root e = Some (Inr b) \<and> binding_canonical_bytes C b = Inr bytes
            \<and> verify_repository_signer_binding K C bytes = Inr v \<and> vb_identity_public_key v = pk)"
proof -
  let ?file = "file_as_signer K (FileSigner_new p (StaticPassphraseProvider pw)) :: 'z world_scheme signer"
  have identity: "identity_crates K" using assms(2) by (simp add: binding_crates_def)
  then have crates: "kdf_crate K" "ed25519_crate K" by (simp_all add: identity_crates_def)
  obtain w1 root where init: "vault_init K (IdentityVault_new p (StaticPassphraseProvider pw)) pw w = Some (Inr (), w1)"
    and root: "length root = 32" and holds: "holds_root K p pw root w1"
    using init_holds_root [OF assms(1,3-6)] by blast
  obtain w2 where w2: "sg_root_secret ?file w1 = Some (Inr root, w2)" "holds_root K p pw root w2"
    using holds_root_serves [OF assms(1) holds] by (auto simp: file_as_signer_def)
  obtain w3 where w3: "sg_root_secret ?file w2 = Some (Inr root, w3)"
    using holds_root_serves [OF assms(1) w2(2)] by (auto simp: file_as_signer_def)
  have pk: "identity_pubkey K root = Some (ed_verifying_key K (identity_seed K root))"
    by (rule identity_crates.identity_pubkey_eq [OF identity])
  have "file_root_secret K (FileSigner_new p (StaticPassphraseProvider pw)) w1 = Some (Inr root, w2)"
    using w2(1) by (simp add: file_as_signer_def)
  from file_contract.sign_ok [OF identity this]
  have sign: "sg_sign ?file msg w1 = Some (Inr (ed_sign K (identity_seed K root) msg), w2)"
    by (simp add: file_as_signer_def)
  have verify: "identity_verify K (ed_verifying_key K (identity_seed K root)) msg (ed_sign K (identity_seed K root) msg)"
    using file_contract.sign_verifies [OF identity, of "FileSigner_new p (StaticPassphraseProvider pw)" msg w1] sign w2(1) pk
    by (auto simp: file_as_signer_def)
  note agent = git_agent_serves [OF crates w2(1) w3 assms(7)]
  obtain b bytes v where binding: "issue_derived K C root e = Some (Inr b)" "binding_canonical_bytes C b = Inr bytes"
    "verify_repository_signer_binding K C bytes = Inr v" "identity_pubkey K root = Some (vb_identity_public_key v)"
    using derived_binding_ok [OF assms(2), of root e] by blast
  then have key: "vb_identity_public_key v = ed_verifying_key K (identity_seed K root)" using pk by simp
  show ?thesis
    unfolding Let_def
    by (rule exI [where x = w1], rule exI [where x = root], rule exI [where x = "ed_verifying_key K (identity_seed K root)"],
        intro conjI) (use init root pk sign verify agent(1) agent(2) [of msg] binding key in blast)+
qed

theorem vault_identity_is_one_identity_witness:
  "\<exists>w1 root pk. vault_init ref_crates (IdentityVault_new sample_path (StaticPassphraseProvider [1, 2, 3])) [1, 2, 3] sample_world
       = Some (Inr (), w1)
     \<and> identity_pubkey ref_crates root = Some pk
     \<and> (\<exists>sig w2. file_sign ref_crates (FileSigner_new sample_path (StaticPassphraseProvider [1, 2, 3])) [9] w1 = Some (Inr sig, w2)
          \<and> identity_verify ref_crates pk [9] sig)"
proof -
  have parent: "\<not> path_empty (identity_parent sample_path)"
    by (simp add: sample_path_def identity_parent_def path_parent_def path_empty_def)
  have free: "nodes (disk sample_world) (resolve sample_world sample_path) = None"
    by (simp add: sample_world_def sample_path_def resolve_name_of name_of_def)
  show ?thesis
    using vault_identity_is_one_identity [OF ref_aead.aead_crate_axioms ref_binding.binding_crates_axioms sample_ready _ parent free,
        where pw = "[1, 2, 3]" and signature_new = Inr and msg = "[9]" and e = 5]
    unfolding Let_def file_as_signer_def signer.select_convs by auto
qed

end
